(* ===== verification/Prelude.thy ===== *)
theory Prelude
  imports Main "HOL-Library.Word"
begin

text \<open>
  What every component of the development shares: the C library routines the sources call
  (character classes, \<open>strtol\<close>, \<open>strncpy\<close>, \<open>strcasecmp\<close>, decimal printing), the
  convention for out-parameters that carry an error message, and the lemma collections.

  A C string is the list of its characters without the terminating NUL; a character buffer of
  size \<open>n\<close> is a list of exactly \<open>n\<close> characters, NUL included. A pointer into a buffer is
  the suffix of the buffer it points to. The character classes are those of the C locale.
\<close>

named_theorems cchar_simps \<open>evaluation of the character classes\<close>
named_theorems cstr_simps \<open>facts on C strings and character buffers\<close>

type_synonym cstr = string
type_synonym cbuf = "char list"

abbreviation nul :: char where
  "nul \<equiv> CHR 0x00"

section \<open>Character classes\<close>

definition c_isdigit :: "char \<Rightarrow> bool" where
  "c_isdigit c \<longleftrightarrow> 48 \<le> (of_char c :: nat) \<and> (of_char c :: nat) \<le> 57"

definition c_isspace :: "char \<Rightarrow> bool" where
  "c_isspace c \<longleftrightarrow> (of_char c :: nat) = 32 \<or> (9 \<le> (of_char c :: nat) \<and> (of_char c :: nat) \<le> 13)"

definition c_isupper :: "char \<Rightarrow> bool" where
  "c_isupper c \<longleftrightarrow> 65 \<le> (of_char c :: nat) \<and> (of_char c :: nat) \<le> 90"

definition c_islower :: "char \<Rightarrow> bool" where
  "c_islower c \<longleftrightarrow> 97 \<le> (of_char c :: nat) \<and> (of_char c :: nat) \<le> 122"

definition c_isalnum :: "char \<Rightarrow> bool" where
  "c_isalnum c \<longleftrightarrow> c_isdigit c \<or> c_isupper c \<or> c_islower c"

definition c_tolower :: "char \<Rightarrow> char" where
  "c_tolower c = (if c_isupper c then char_of ((of_char c :: nat) + 32) else c)"

declare c_isdigit_def [cchar_simps] c_isspace_def [cchar_simps] c_isupper_def [cchar_simps]
  c_islower_def [cchar_simps] c_isalnum_def [cchar_simps] c_tolower_def [cchar_simps]

lemma not_isspace_nul [simp]: "\<not> c_isspace nul"
  by (simp add: cchar_simps)

lemma not_isdigit_nul [simp]: "\<not> c_isdigit nul"
  by (simp add: cchar_simps)

lemma not_isdigit_comma [simp]: "\<not> c_isdigit CHR '',''"
  by (simp add: cchar_simps)

lemma isdigit_not_isspace: "c_isdigit c \<Longrightarrow> \<not> c_isspace c"
  by (auto simp: cchar_simps)

section \<open>Strings and buffers\<close>

text \<open>The C string held by a buffer: everything before the first NUL.\<close>

definition cstr_of :: "cbuf \<Rightarrow> cstr" where
  "cstr_of b = takeWhile (\<lambda>c. c \<noteq> nul) b"

text \<open>\<open>strncpy(dst, src, n)\<close> writes exactly \<open>n\<close> characters, padding with NUL.\<close>

definition c_strncpy :: "nat \<Rightarrow> cstr \<Rightarrow> cbuf" where
  "c_strncpy n s = take n (s @ replicate n nul)"

text \<open>\<open>memcpy(buf, s, length s)\<close> over an existing buffer.\<close>

definition c_memcpy :: "cbuf \<Rightarrow> char list \<Rightarrow> cbuf" where
  "c_memcpy b s = s @ drop (length s) b"

text \<open>\<open>strcasecmp(a, b) == 0\<close>.\<close>

definition c_strcaseeq :: "cstr \<Rightarrow> cstr \<Rightarrow> bool" where
  "c_strcaseeq a b \<longleftrightarrow> map c_tolower a = map c_tolower b"

lemma length_c_strncpy [simp]: "length (c_strncpy n s) = n"
  by (simp add: c_strncpy_def)

lemma length_c_memcpy [simp]: "length s \<le> length b \<Longrightarrow> length (c_memcpy b s) = length b"
  by (simp add: c_memcpy_def)

lemma cstr_of_append_nul [cstr_simps]: "nul \<notin> set s \<Longrightarrow> cstr_of (s @ nul # r) = s"
  by (induction s) (auto simp: cstr_of_def)

lemma cstr_of_replicate [cstr_simps]: "cstr_of (replicate n nul) = []"
  by (cases n) (auto simp: cstr_of_def)

lemma nul_notin_cstr_of [simp]: "nul \<notin> set (cstr_of b)"
  by (auto simp: cstr_of_def dest: set_takeWhileD)

lemma cstr_of_no_nul [cstr_simps]: "nul \<notin> set b \<Longrightarrow> cstr_of b = b"
  by (induction b) (auto simp: cstr_of_def)

lemma cstr_of_strncpy [cstr_simps]:
  "nul \<notin> set s \<Longrightarrow> cstr_of (c_strncpy n s) = take n s"
proof (cases "length s < n")
  case True
  assume s: "nul \<notin> set s"
  from True obtain k where "n - length s = Suc k" by (cases "n - length s") auto
  then have "c_strncpy n s = s @ nul # replicate k nul"
    using True by (simp add: c_strncpy_def)
  with s True show ?thesis by (simp add: cstr_of_append_nul)
next
  case False
  assume s: "nul \<notin> set s"
  then have "takeWhile (\<lambda>c. c \<noteq> nul) (take n s) = take n s"
    by (auto simp: takeWhile_eq_all_conv dest: in_set_takeD)
  with False show ?thesis by (simp add: c_strncpy_def cstr_of_def)
qed

lemma nul_in_strncpy [cstr_simps]:
  "nul \<notin> set s \<Longrightarrow> nul \<in> set (c_strncpy n s) \<longleftrightarrow> length s < n"
  by (auto simp: c_strncpy_def dest: in_set_takeD)

section \<open>Decimal digits\<close>

definition digit_char :: "nat \<Rightarrow> char" where
  "digit_char d = char_of (48 + d)"

text \<open>\<open>c - '0'\<close>.\<close>

definition digit_value :: "char \<Rightarrow> nat" where
  "digit_value c = of_char c - 48"

text \<open>The output of \<open>printf\<close> for \<open>%u\<close> and, with a sign, for \<open>%d\<close>.\<close>

fun show_nat :: "nat \<Rightarrow> cstr" where
  "show_nat n = (if n < 10 then [digit_char n] else show_nat (n div 10) @ [digit_char (n mod 10)])"

declare show_nat.simps [simp del]

definition show_int :: "int \<Rightarrow> cstr" where
  "show_int i = (if i < 0 then CHR ''-'' # show_nat (nat (- i)) else show_nat (nat i))"

definition digits_value :: "nat \<Rightarrow> char list \<Rightarrow> nat" where
  "digits_value acc ds = foldl (\<lambda>v c. 10 * v + digit_value c) acc ds"

lemma of_char_digit_char [simp]: "d < 10 \<Longrightarrow> (of_char (digit_char d) :: nat) = 48 + d"
  by (simp add: digit_char_def)

lemma digit_char_eval [simp]:
  "digit_char 0 = CHR ''0''" "digit_char (Suc 0) = CHR ''1''" "digit_char 2 = CHR ''2''"
  "digit_char 3 = CHR ''3''" "digit_char 4 = CHR ''4''" "digit_char 5 = CHR ''5''"
  "digit_char 6 = CHR ''6''" "digit_char 7 = CHR ''7''" "digit_char 8 = CHR ''8''"
  "digit_char 9 = CHR ''9''" "digit_char 1 = CHR ''1''"
  by (simp_all add: digit_char_def char_of_def bit_iff_odd)

lemma digit_value_digit_char [simp]: "d < 10 \<Longrightarrow> digit_value (digit_char d) = d"
  by (simp add: digit_value_def)

lemma isdigit_digit_char [simp]: "d < 10 \<Longrightarrow> c_isdigit (digit_char d)"
  by (simp add: c_isdigit_def)

lemma digit_value_less: "c_isdigit c \<Longrightarrow> digit_value c < 10"
  by (auto simp: c_isdigit_def digit_value_def)

lemma digits_value_simps [simp]:
  "digits_value acc [] = acc"
  "digits_value acc (c # ds) = digits_value (10 * acc + digit_value c) ds"
  by (simp_all add: digits_value_def)

lemma digits_value_snoc [simp]:
  "digits_value acc (ds @ [c]) = 10 * digits_value acc ds + digit_value c"
  by (simp add: digits_value_def)

lemma digits_value_ge: "acc \<le> digits_value acc ds"
proof (induction ds arbitrary: acc)
  case (Cons c ds)
  have "acc \<le> 10 * acc + digit_value c" by simp
  also have "\<dots> \<le> digits_value (10 * acc + digit_value c) ds" by (rule Cons.IH)
  finally show ?case by simp
qed simp

lemma show_nat_digits: "set (show_nat n) \<subseteq> Collect c_isdigit"
proof (induction n rule: show_nat.induct)
  case (1 n)
  then show ?case by (subst show_nat.simps) auto
qed

lemma show_nat_value [simp]: "digits_value 0 (show_nat n) = n"
proof (induction n rule: show_nat.induct)
  case (1 n)
  then show ?case by (subst show_nat.simps) auto
qed

lemma show_nat_not_Nil [simp]: "show_nat n \<noteq> []"
  by (subst show_nat.simps) simp

lemma show_nat_chars:
  "c \<in> set (show_nat n) \<Longrightarrow> c_isdigit c"
  using show_nat_digits by auto

lemma hd_show_nat_digit [simp]: "c_isdigit (hd (show_nat n))"
  by (rule show_nat_chars [of _ n]) simp

lemma show_nat_notin [simp]:
  "\<not> c_isdigit c \<Longrightarrow> c \<notin> set (show_nat n)"
  using show_nat_chars by blast

section \<open>Machine words\<close>

lemma unat_of_nat_small: "n < 2 ^ LENGTH('a::len) \<Longrightarrow> unat (of_nat n :: 'a word) = n"
  by (simp add: unsigned_of_nat take_bit_nat_eq_self)

lemma unat_less_32: "unat (w :: 32 word) < 2 ^ 32"
  by (rule less_le_trans [OF unsigned_less]) simp

lemma unat_nonzero: "unat w \<noteq> 0 \<Longrightarrow> w \<noteq> 0"
  by auto

lemma sint_small32: assumes "unat (w :: 32 word) < 2 ^ 31" shows "sint w = int (unat w)"
proof -
  have "sint w = signed_take_bit 31 (int (unat w))" by (simp add: sint_uint)
  also have "\<dots> = int (unat w)"
  proof (rule signed_take_bit_int_eq_self)
    show "- (2 ^ 31) \<le> int (unat w)" by (rule order_trans [of _ 0]) simp_all
    have "int (unat w) < int (2 ^ 31)" using assms by (simp only: of_nat_less_iff)
    then show "int (unat w) < 2 ^ 31" by simp
  qed
  finally show ?thesis .
qed
lemma unat_ucast_16_32: "unat (ucast (v :: 16 word) :: 32 word) = unat v"
proof -
  have "unat v < 2 ^ 32" by (rule less_le_trans [OF unsigned_less]) simp
  then show ?thesis by (simp add: unsigned_ucast_eq take_bit_nat_eq_self)
qed

section \<open>Error messages through an out-parameter\<close>

text \<open>
  A parameter \<open>const char **error_msg\<close>: \<open>None\<close> when the caller passes \<open>NULL\<close>,
  otherwise the content of the caller's variable (\<open>Some None\<close> is a NULL string).
\<close>

type_synonym errp = "cstr option option"

definition set_errp :: "errp \<Rightarrow> cstr option \<Rightarrow> errp" where
  "set_errp e m = (case e of None \<Rightarrow> None | Some _ \<Rightarrow> Some m)"

lemma set_errp_simps [simp]:
  "set_errp None m = None" "set_errp (Some x) m = Some m"
  by (simp_all add: set_errp_def)

end
