(* ===== verification/C_Numbers.thy ===== *)
theory C_Numbers
  imports Prelude
begin

text \<open>
  \<open>strtol\<close> and \<open>strtoll\<close> with base 0 (both 64 bits wide), as the configuration readers use
  them: leading white space, a sign, a \<open>0x\<close> or \<open>0\<close> prefix, saturation at the bounds.
\<close>

section \<open>strtol with base 0\<close>

definition digit_in_base :: "nat \<Rightarrow> char \<Rightarrow> nat option" where
  "digit_in_base b c =
     (let n = (of_char c :: nat);
          v = (if 48 \<le> n \<and> n \<le> 57 then n - 48
               else if 97 \<le> n \<and> n \<le> 122 then n - 87
               else if 65 \<le> n \<and> n \<le> 90 then n - 55 else 255)
      in if v < b then Some v else None)"

fun scan_base :: "nat \<Rightarrow> nat \<Rightarrow> char list \<Rightarrow> nat \<times> char list" where
  "scan_base b acc [] = (acc, [])"
| "scan_base b acc (c # cs) =
     (case digit_in_base b c of
        None \<Rightarrow> (acc, c # cs)
      | Some d \<Rightarrow> scan_base b (b * acc + d) cs)"

text \<open>The magnitude of the number at the start of a string, and the text behind it.\<close>

definition scan_magnitude :: "char list \<Rightarrow> (nat \<times> char list) option" where
  "scan_magnitude s =
     (case s of
        [] \<Rightarrow> None
      | c # s1 \<Rightarrow>
          if c = CHR ''0'' then
            (case s1 of
               x # h # s2 \<Rightarrow>
                 if (x = CHR ''x'' \<or> x = CHR ''X'') \<and> digit_in_base 16 h \<noteq> None
                 then Some (scan_base 16 0 (h # s2)) else Some (scan_base 8 0 s)
             | _ \<Rightarrow> Some (scan_base 8 0 s))
          else if digit_in_base 10 c \<noteq> None then Some (scan_base 10 0 s)
          else None)"

abbreviation LONG_MIN :: int where "LONG_MIN \<equiv> - (2 ^ 63)"
abbreviation LONG_MAX :: int where "LONG_MAX \<equiv> 2 ^ 63 - 1"
abbreviation INT_MIN :: int where "INT_MIN \<equiv> - (2 ^ 31)"
abbreviation INT_MAX :: int where "INT_MAX \<equiv> 2 ^ 31 - 1"
abbreviation UINT32_MAX :: int where "UINT32_MAX \<equiv> 2 ^ 32 - 1"

definition clamp_long :: "int \<Rightarrow> int" where
  "clamp_long i = max LONG_MIN (min LONG_MAX i)"

text \<open>
  \<open>None\<close> when no conversion is performed (\<open>*endptr\<close> is then the start of the string and
  the value 0), otherwise the value and the rest \<open>*endptr\<close> points to.
\<close>

definition c_strtol :: "cstr \<Rightarrow> (int \<times> char list) option" where
  "c_strtol s =
     (let s1 = dropWhile c_isspace s in
      case s1 of
        [] \<Rightarrow> None
      | c # s2 \<Rightarrow>
          if c = CHR ''-'' then map_option (\<lambda>(m, r). (clamp_long (- int m), r)) (scan_magnitude s2)
          else if c = CHR ''+'' then map_option (\<lambda>(m, r). (clamp_long (int m), r)) (scan_magnitude s2)
          else map_option (\<lambda>(m, r). (clamp_long (int m), r)) (scan_magnitude s1))"

section \<open>Reading back decimal output\<close>

lemma digit_in_base_10: "digit_in_base 10 c = (if c_isdigit c then Some (digit_value c) else None)"
  by (auto simp: digit_in_base_def c_isdigit_def digit_value_def Let_def)

lemma scan_base_10_digits:
  "\<forall>c \<in> set ds. c_isdigit c \<Longrightarrow> r = [] \<or> \<not> c_isdigit (hd r) \<Longrightarrow>
     scan_base 10 acc (ds @ r) = (digits_value acc ds, r)"
proof (induction ds arbitrary: acc)
  case Nil
  then show ?case by (cases r) (auto simp: digit_in_base_10)
next
  case (Cons c ds)
  then show ?case by (simp add: digit_in_base_10)
qed

lemma hd_show_nat_zero: "hd (show_nat n) = CHR ''0'' \<longleftrightarrow> n = 0"
proof (induction n rule: show_nat.induct)
  case (1 n)
  have z: "digit_char d = CHR ''0'' \<longleftrightarrow> d = 0" if "d < 10" for d
  proof
    assume "digit_char d = CHR ''0''"
    then have "(of_char (digit_char d) :: nat) = of_char CHR ''0''" by simp
    with that show "d = 0" by simp
  qed simp
  show ?case
  proof (cases "n < 10")
    case True
    then show ?thesis by (subst show_nat.simps) (simp add: z)
  next
    case False
    with 1 show ?thesis by (subst show_nat.simps) simp
  qed
qed

lemma show_nat_0: "show_nat 0 = ''0''"
  by (subst show_nat.simps) simp

lemma scan_magnitude_show_nat:
  assumes "r = [] \<or> \<not> c_isdigit (hd r)" "n = 0 \<longrightarrow> r = []"
  shows "scan_magnitude (show_nat n @ r) = Some (n, r)"
proof (cases "n = 0")
  case True
  then show ?thesis using assms
    by (simp add: show_nat_0 scan_magnitude_def digit_in_base_def Let_def)
next
  case False
  obtain c ds where s: "show_nat n = c # ds" by (cases "show_nat n") auto
  have "c \<noteq> CHR ''0''" using hd_show_nat_zero [of n] False s by auto
  moreover have "c_isdigit c" using hd_show_nat_digit [of n] s by simp
  moreover have "scan_base 10 0 (show_nat n @ r) = (n, r)"
    using scan_base_10_digits [of "show_nat n" r 0] show_nat_chars assms by auto
  ultimately show ?thesis by (simp add: scan_magnitude_def s digit_in_base_10)
qed

lemma c_strtol_show_int:
  assumes "LONG_MIN \<le> i" "i \<le> LONG_MAX"
  shows "c_strtol (show_int i) = Some (i, [])"
proof -
  have sp: "dropWhile c_isspace (show_nat n) = show_nat n" for n
    using hd_show_nat_digit [of n] isdigit_not_isspace
    by (cases "show_nat n") auto
  have cl: "clamp_long i = i" using assms by (simp add: clamp_long_def)
  show ?thesis
  proof (cases "i < 0")
    case True
    moreover have "\<not> c_isspace CHR ''-''" by (simp add: cchar_simps)
    ultimately show ?thesis
      using cl scan_magnitude_show_nat [of "[]" "nat (- i)"]
      by (simp add: c_strtol_def show_int_def)
  next
    case False
    obtain c ds where s: "show_nat (nat i) = c # ds" by (cases "show_nat (nat i)") auto
    have "c_isdigit c" using hd_show_nat_digit [of "nat i"] s by simp
    then have "c \<noteq> CHR ''-''" "c \<noteq> CHR ''+''" by (auto simp: cchar_simps)
    then show ?thesis
      using False cl sp [of "nat i"] scan_magnitude_show_nat [of "[]" "nat i"] s
      by (simp add: c_strtol_def show_int_def)
  qed
qed

lemma c_strtol_range: "c_strtol s = Some (i, r) \<Longrightarrow> LONG_MIN \<le> i \<and> i \<le> LONG_MAX"
  by (auto simp: c_strtol_def clamp_long_def Let_def split: list.splits if_splits)

end
