(* ===== verification/Asprintf.thy ===== *)
theory Asprintf
  imports Prelude
begin

text \<open>
  \<open>src/libiptracking/asprintf.c\<close>: the replacement for \<open>asprintf\<close> on systems without it. The text
  the format and its arguments stand for is an input, \<open>None\<close> when they cannot be formatted.
\<close>

text \<open>\<open>vsnprintf\<close> with a buffer of \<open>n\<close> bytes: its result and the string in the buffer.\<close>

definition c_vsnprintf :: "nat \<Rightarrow> cstr option \<Rightarrow> int \<times> cstr" where
  "c_vsnprintf n formatted =
     (case formatted of
        None \<Rightarrow> (- 1, [])
      | Some s \<Rightarrow> (int (length s), if n = 0 then [] else take (n - 1) s))"

text \<open>
  The two passes: measuring, then writing into a block of that size and one. \<open>strp\<close> is what the
  caller's variable held; it is kept on every failure.
\<close>

definition asprintf :: "cstr option \<Rightarrow> bool \<Rightarrow> cstr option \<Rightarrow> cstr option \<Rightarrow> int \<times> cstr option" where
  "asprintf measured malloc_ok written strp =
     (case c_vsnprintf 0 measured of
        (fmted_len, _) \<Rightarrow>
          if fmted_len \<ge> 0
          then if malloc_ok
               then case c_vsnprintf (nat (fmted_len + 1)) written of
                      (fmted_len, out_str) \<Rightarrow> (fmted_len, if fmted_len \<ge> 0 then Some out_str else strp)
               else (- 1, strp)
          else (fmted_len, strp))"

text \<open>
  When both passes format the same text, the result is its length and the string is the whole
  text, never cut; on a failure the result is negative and the variable is left alone.
\<close>

theorem asprintf_result:
  "asprintf text malloc_ok text strp =
    (case text of
       None \<Rightarrow> (- 1, strp)
     | Some s \<Rightarrow> if malloc_ok then (int (length s), Some s) else (- 1, strp))"
  by (simp add: asprintf_def c_vsnprintf_def split: option.split)

end
