(* ===== verification/Chartest.thy ===== *)
theory Chartest
  imports Prelude
begin

text \<open>
  \<open>src/libiptracking/chartest.c\<close>: matching a character sequence against a list of chunks,
  each a repeat count and a test on one character. The chunk array with its count is a list;
  \<open>p\<close> with \<open>p_len\<close> is the list of the remaining characters, and the pointer left in
  \<open>*endptr\<close> is the suffix that was not consumed.
\<close>

section \<open>The code\<close>

type_synonym chartest_callback = "char \<Rightarrow> bool"

record chartest_chunk =
  n_char :: int
  chartest_callback :: chartest_callback

type_synonym chartest_sequence = "chartest_chunk list"

text \<open>The inner loop: \<open>while ( p_len && okay && n_char-- )\<close>.\<close>

fun chartest_chars :: "chartest_callback \<Rightarrow> int \<Rightarrow> char list \<Rightarrow> bool \<times> char list" where
  "chartest_chars cb n [] = (True, [])"
| "chartest_chars cb n (c # p) =
     (if n = 0 then (True, c # p)
      else if \<not> cb c then (False, c # p)
      else chartest_chars cb (n - 1) p)"

text \<open>The outer loop: \<open>while ( p_len && okay && n_chunks-- )\<close>.\<close>

fun chartest_chunks :: "chartest_sequence \<Rightarrow> char list \<Rightarrow> bool \<times> char list" where
  "chartest_chunks [] p = (True, p)"
| "chartest_chunks (k # ks) p =
     (if p = [] then (True, p)
      else case chartest_chars (chartest_callback k) (n_char k) p of
             (okay, p') \<Rightarrow> if okay then chartest_chunks ks p' else (False, p'))"

text \<open>
  \<open>chartest\<close> itself; \<open>None\<close> stands for a NULL sequence or a NULL string. The second
  component is what \<open>*endptr\<close> receives when the test succeeds.
\<close>

definition chartest ::
  "chartest_sequence option \<Rightarrow> char list option \<Rightarrow> bool \<times> char list option" where
  "chartest the_seq p =
     (case (p, the_seq) of
        (Some s, Some ks) \<Rightarrow>
          if s \<noteq> [] \<and> ks \<noteq> []
          then (case chartest_chunks ks s of (okay, e) \<Rightarrow> (okay, Some e))
          else (True, p)
      | _ \<Rightarrow> (True, p))"

section \<open>What it computes\<close>

text \<open>The flat list of single-character tests a sequence stands for.\<close>

definition chunk_tests :: "chartest_sequence \<Rightarrow> chartest_callback list" where
  "chunk_tests ks = concat (map (\<lambda>k. replicate (nat (n_char k)) (chartest_callback k)) ks)"

text \<open>
  The reference: the tests are applied to the characters one by one, up to the shorter of
  the two lists.
\<close>

fun match_prefix :: "chartest_callback list \<Rightarrow> char list \<Rightarrow> bool \<times> char list" where
  "match_prefix [] p = (True, p)"
| "match_prefix (t # ts) [] = (True, [])"
| "match_prefix (t # ts) (c # p) = (if t c then match_prefix ts p else (False, c # p))"

lemma match_prefix_Nil [simp]: "match_prefix ts [] = (True, [])"
  by (cases ts) auto

lemma match_prefix_append:
  "match_prefix (ts @ us) p =
     (case match_prefix ts p of (okay, p') \<Rightarrow> if okay then match_prefix us p' else (False, p'))"
  by (induction ts p rule: match_prefix.induct) auto

lemma chartest_chars_match_prefix:
  "0 \<le> n \<Longrightarrow> chartest_chars cb n p = match_prefix (replicate (nat n) cb) p"
proof (induction p arbitrary: n)
  case (Cons c p)
  show ?case
  proof (cases "n = 0")
    case False
    then have "nat n = Suc (nat (n - 1))" using Cons.prems by simp
    then show ?thesis using False Cons by simp
  qed simp
qed simp

lemma chartest_chunks_match_prefix:
  "\<forall>k \<in> set ks. 0 \<le> n_char k \<Longrightarrow> chartest_chunks ks p = match_prefix (chunk_tests ks) p"
proof (induction ks arbitrary: p)
  case (Cons k ks)
  then show ?case
    by (cases "p = []")
      (simp_all add: chunk_tests_def match_prefix_append chartest_chars_match_prefix
        split: prod.splits)
qed (simp add: chunk_tests_def)

lemma match_prefix_accepts:
  "match_prefix ts p = (True, r) \<longleftrightarrow>
     (\<forall>i < min (length ts) (length p). (ts ! i) (p ! i)) \<and> r = drop (length ts) p"
proof (induction ts p arbitrary: r rule: match_prefix.induct)
  case (3 t ts c p)
  have "(\<forall>i < Suc (min (length ts) (length p)). ((t # ts) ! i) ((c # p) ! i)) \<longleftrightarrow>
      t c \<and> (\<forall>i < min (length ts) (length p). (ts ! i) (p ! i))"
    by (auto simp: less_Suc_eq_0_disj)
  then show ?case using 3 by auto
qed auto

lemma match_prefix_exact:
  "length ts = length s \<Longrightarrow> list_all2 (\<lambda>t c. t c) ts s \<Longrightarrow> match_prefix ts (s @ r) = (True, r)"
  by (induction ts s rule: list_induct2) auto

lemma match_prefix_suffix: "match_prefix ts p = (okay, r) \<Longrightarrow> \<exists>q. p = q @ r \<and> length q \<le> length ts"
proof (induction ts p arbitrary: okay r rule: match_prefix.induct)
  case (3 t ts c p)
  show ?case
  proof (cases "t c")
    case True
    with 3 obtain q where "p = q @ r" "length q \<le> length ts" by auto
    then have "c # p = (c # q) @ r" "length (c # q) \<le> length (t # ts)" by auto
    then show ?thesis by blast
  qed (use "3.prems" in auto)
qed auto

text \<open>
  \<open>chartest\<close> against its specification. With counts that are not negative it succeeds
  exactly when each character passes the test of its position, up to the shorter of the text
  and the sequence, and \<open>endptr\<close> is then the text behind the sequence.
\<close>

theorem chartest_accepts:
  assumes "\<forall>k \<in> set ks. 0 \<le> n_char k" "ks \<noteq> []" "p \<noteq> []"
  shows "chartest (Some ks) (Some p) = (True, Some r) \<longleftrightarrow>
    (\<forall>i < min (length (chunk_tests ks)) (length p). (chunk_tests ks ! i) (p ! i)) \<and>
    r = drop (length (chunk_tests ks)) p"
proof -
  have "chartest (Some ks) (Some p) = (True, Some r) \<longleftrightarrow> match_prefix (chunk_tests ks) p = (True, r)"
    using assms by (auto simp: chartest_def chartest_chunks_match_prefix split: prod.splits)
  then show ?thesis by (simp only: match_prefix_accepts)
qed

theorem chartest_accepts_witness:
  "chartest (Some [\<lparr>n_char = 2, chartest_callback = c_isdigit\<rparr>]) (Some ''12-'') = (True, Some ''-'')"
proof -
  let ?ks = "[\<lparr>n_char = 2, chartest_callback = c_isdigit\<rparr>]"
  have t: "chunk_tests ?ks = [c_isdigit, c_isdigit]"
    by (simp add: chunk_tests_def eval_nat_numeral)
  have "\<forall>i < 2. ([c_isdigit, c_isdigit] ! i) (''12-'' ! i)"
    by (simp add: less_2_cases_iff cchar_simps)
  then show ?thesis
    using chartest_accepts [of ?ks "''12-''" "''-''"] unfolding t by (simp add: cchar_simps)
qed

section \<open>The test program\<close>

text \<open>The \<open>main\<close> that is compiled with \<open>CHARTEST_TEST\<close>, and its sequence: a date and a time.\<close>

definition test_datestr :: chartest_sequence where
  "test_datestr =
     (let digits = (\<lambda>n. \<lparr>n_char = n, chartest_callback = c_isdigit\<rparr>);
          one = (\<lambda>c. \<lparr>n_char = 1, chartest_callback = (\<lambda>x. x = c)\<rparr>)
      in [digits 4, one CHR ''-'', digits 2, one CHR ''-'', digits 2, one CHR '' '',
          digits 2, one CHR '':'', digits 2, one CHR '':'', digits 2])"

lemma datestr_tests:
  "chunk_tests test_datestr =
    (let c = (\<lambda>c x. x = c) in replicate 4 c_isdigit @ c CHR ''-'' # replicate 2 c_isdigit @ c CHR ''-'' #
       replicate 2 c_isdigit @ c CHR '' '' # replicate 2 c_isdigit @ c CHR '':'' # replicate 2 c_isdigit @
       c CHR '':'' # replicate 2 c_isdigit)"
  by (simp add: chunk_tests_def test_datestr_def Let_def numeral_eq_Suc)

lemma datestr_match: "p \<noteq> [] \<Longrightarrow>
    chartest (Some test_datestr) (Some p) = (case match_prefix (chunk_tests test_datestr) p of (okay, e) \<Rightarrow> (okay, Some e))"
  using chartest_chunks_match_prefix [of test_datestr p] by (simp add: chartest_def test_datestr_def Let_def)

lemma datestr_shorter:
  assumes "chartest (Some test_datestr) (Some p) = (True, Some e)" "p \<noteq> []"
  shows "length e < length p"
proof -
  have "e = drop (length (chunk_tests test_datestr)) p"
    using assms by (auto simp: datestr_match match_prefix_accepts split: prod.splits)
  then show ?thesis using assms(2) by (simp add: datestr_tests)
qed

text \<open>What one argument prints: the dates in brackets, one in a line, then what is left.\<close>

function chartest_test :: "cstr \<Rightarrow> cstr" where
  "chartest_test p =
     (case (if p = [] then (False, None) else chartest (Some test_datestr) (Some p)) of
        (True, Some e) \<Rightarrow> ''['' @ take (length p - length e) p @ '']'' @ [CHR 0x0A] @ chartest_test e
      | _ \<Rightarrow> ''X  '' @ p @ [CHR 0x0A])"
  by pat_completeness auto
termination
  by (relation "measure length") (auto split: if_splits intro: datestr_shorter)

declare chartest_test.simps [simp del]

definition chartest_main :: "cstr list \<Rightarrow> cstr" where
  "chartest_main argv = concat (map chartest_test (tl argv))"

definition date_text :: "cstr \<Rightarrow> bool" where
  "date_text d \<longleftrightarrow> list_all2 (\<lambda>t c. t c) (chunk_tests test_datestr) d"

text \<open>
  The program cuts dates off the front of its argument until something else follows, and
  prints that.
\<close>

theorem chartest_test_dates:
  assumes "\<forall>d \<in> set ds. date_text d" "r = [] \<or> fst (chartest (Some test_datestr) (Some r)) = False"
  shows "chartest_test (concat ds @ r) = concat (map (\<lambda>d. ''['' @ d @ '']'' @ [CHR 0x0A]) ds) @ ''X  '' @ r @ [CHR 0x0A]"
  using assms(1)
proof (induction ds)
  case Nil
  then show ?case using assms(2)
    by (subst chartest_test.simps) (auto split: prod.splits)
next
  case (Cons d ds)
  let ?p = "d @ concat ds @ r"
  have d: "list_all2 (\<lambda>t c. t c) (chunk_tests test_datestr) d" using Cons.prems by (simp add: date_text_def)
  then have "match_prefix (chunk_tests test_datestr) ?p = (True, concat ds @ r)"
    by (intro match_prefix_exact list_all2_lengthD)
  moreover have "?p \<noteq> []" using list_all2_lengthD [OF d] by (auto simp: datestr_tests)
  ultimately have "chartest (Some test_datestr) (Some ?p) = (True, Some (concat ds @ r))"
    by (simp add: datestr_match)
  with \<open>?p \<noteq> []\<close> Cons show ?case by (subst chartest_test.simps) simp
qed

theorem chartest_test_dates_witness:
  "chartest_main [''chartest'', ''2024-05-01 10:00:00x''] = ''[2024-05-01 10:00:00]'' @ [CHR 0x0A] @ ''X  x'' @ [CHR 0x0A]"
proof -
  have "date_text ''2024-05-01 10:00:00''" by (simp add: date_text_def datestr_tests cchar_simps numeral_eq_Suc)
  moreover have "\<not> fst (chartest (Some test_datestr) (Some ''x''))"
    by (simp add: datestr_match datestr_tests cchar_simps numeral_eq_Suc)
  ultimately show ?thesis
    using chartest_test_dates [of "[''2024-05-01 10:00:00'']" "''x''"] by (simp add: chartest_main_def)
qed

end
