(* ===== verification/Log_Data.thy ===== *)
theory Log_Data
  imports Prelude Chartest
begin

text \<open>
  \<open>src/libiptracking/log_data.h\<close> and \<open>log_data.c\<close>: the event record that travels from
  the PAM callback through the daemon's queue to the database, its 128-byte memory image (what
  \<open>send\<close> and \<open>recv\<close> move), its validity check and the parser of its textual form.
\<close>

section \<open>Events\<close>

datatype log_event =
    log_event_unknown
  | log_event_auth
  | log_event_open_session
  | log_event_close_session
  | log_event_max

primrec log_event_value :: "log_event \<Rightarrow> 16 word" where
  "log_event_value log_event_unknown = 0"
| "log_event_value log_event_auth = 1"
| "log_event_value log_event_open_session = 2"
| "log_event_value log_event_close_session = 3"
| "log_event_value log_event_max = 4"

text \<open>The argument is the \<open>uint16_t\<close> of a record, so it may be out of the enumeration.\<close>

definition log_event_to_str :: "16 word \<Rightarrow> cstr option" where
  "log_event_to_str event =
     (if event = log_event_value log_event_unknown then Some ''unknown''
      else if event = log_event_value log_event_auth then Some ''auth''
      else if event = log_event_value log_event_open_session then Some ''open_session''
      else if event = log_event_value log_event_close_session then Some ''close_session''
      else None)"

definition log_event_parse_str :: "cstr \<Rightarrow> 16 word" where
  "log_event_parse_str event_str =
     (if event_str = ''auth'' then log_event_value log_event_auth
      else if event_str = ''open_session'' then log_event_value log_event_open_session
      else if event_str = ''close_session'' then log_event_value log_event_close_session
      else log_event_value log_event_unknown)"

section \<open>The record\<close>

record log_data =
  dst_ipaddr :: cbuf
  src_ipaddr :: cbuf
  src_port :: "16 word"
  event :: "16 word"
  sshd_pid :: "32 word"
  uid :: cbuf
  log_date :: cbuf

abbreviation sizeof_ipaddr :: nat where "sizeof_ipaddr \<equiv> 16"
abbreviation sizeof_uid :: nat where "sizeof_uid \<equiv> 60"
abbreviation sizeof_log_date :: nat where "sizeof_log_date \<equiv> 28"
abbreviation sizeof_log_data :: nat where "sizeof_log_data \<equiv> 128"

text \<open>The arrays have the sizes of the struct declaration.\<close>

definition log_data_wf :: "log_data \<Rightarrow> bool" where
  "log_data_wf d \<longleftrightarrow>
     length (dst_ipaddr d) = sizeof_ipaddr \<and> length (src_ipaddr d) = sizeof_ipaddr \<and>
     length (uid d) = sizeof_uid \<and> length (log_date d) = sizeof_log_date"

text \<open>\<open>memset(data, 0, sizeof(log_data_t))\<close>.\<close>

definition log_data_zero :: log_data where
  "log_data_zero =
     \<lparr>dst_ipaddr = replicate sizeof_ipaddr nul, src_ipaddr = replicate sizeof_ipaddr nul,
      src_port = 0, event = 0, sshd_pid = 0,
      uid = replicate sizeof_uid nul, log_date = replicate sizeof_log_date nul\<rparr>"

lemma log_data_wf_zero [simp]: "log_data_wf log_data_zero"
  by (simp add: log_data_wf_def log_data_zero_def)

section \<open>Validity\<close>

text \<open>A text field is filled in: its first character is not NUL and a NUL ends it in its array.\<close>

definition field_ok :: "cbuf \<Rightarrow> bool" where
  "field_ok b \<longleftrightarrow> b ! 0 \<noteq> nul \<and> nul \<in> set b"

definition log_data_is_valid :: "log_data option \<Rightarrow> bool" where
  "log_data_is_valid data =
     (case data of
        None \<Rightarrow> False
      | Some d \<Rightarrow>
          (log_event_value log_event_unknown \<le> event d \<and> event d < log_event_value log_event_max) \<and>
          field_ok (dst_ipaddr d) \<and> field_ok (src_ipaddr d) \<and>
          field_ok (uid d) \<and> field_ok (log_date d))"

section \<open>The memory image\<close>

text \<open>
  The struct is packed: its fields follow each other without padding. Integers are stored
  low byte first, as on the platforms the daemon is built for; writer and reader are on the
  same host.
\<close>

definition word_bytes :: "nat \<Rightarrow> nat \<Rightarrow> char list" where
  "word_bytes n w = map (\<lambda>i. char_of (w div 256 ^ i mod 256)) [0..<n]"

definition bytes_word :: "char list \<Rightarrow> nat" where
  "bytes_word bs = foldr (\<lambda>b v. of_char b + 256 * v) bs 0"

definition log_data_bytes :: "log_data \<Rightarrow> char list" where
  "log_data_bytes d =
     dst_ipaddr d @ src_ipaddr d @ word_bytes 2 (unat (src_port d)) @
     word_bytes 2 (unat (event d)) @ word_bytes 4 (unat (sshd_pid d)) @ uid d @ log_date d"

definition log_data_of_bytes :: "char list \<Rightarrow> log_data" where
  "log_data_of_bytes bs =
     \<lparr>dst_ipaddr = take 16 bs,
      src_ipaddr = take 16 (drop 16 bs),
      src_port = of_nat (bytes_word (take 2 (drop 32 bs))),
      event = of_nat (bytes_word (take 2 (drop 34 bs))),
      sshd_pid = of_nat (bytes_word (take 4 (drop 36 bs))),
      uid = take 60 (drop 40 bs),
      log_date = take 28 (drop 100 bs)\<rparr>"

section \<open>The parser\<close>

definition datestr_chartest :: chartest_sequence where
  "datestr_chartest =
     [\<lparr>n_char = 4, chartest_callback = c_isdigit\<rparr>,
      \<lparr>n_char = 1, chartest_callback = (\<lambda>c. c = CHR ''-'')\<rparr>,
      \<lparr>n_char = 2, chartest_callback = c_isdigit\<rparr>,
      \<lparr>n_char = 1, chartest_callback = (\<lambda>c. c = CHR ''-'')\<rparr>,
      \<lparr>n_char = 2, chartest_callback = c_isdigit\<rparr>,
      \<lparr>n_char = 1, chartest_callback = (\<lambda>c. c = CHR '' '')\<rparr>,
      \<lparr>n_char = 2, chartest_callback = c_isdigit\<rparr>,
      \<lparr>n_char = 1, chartest_callback = (\<lambda>c. c = CHR '':'')\<rparr>,
      \<lparr>n_char = 2, chartest_callback = c_isdigit\<rparr>,
      \<lparr>n_char = 1, chartest_callback = (\<lambda>c. c = CHR '':'')\<rparr>,
      \<lparr>n_char = 2, chartest_callback = c_isdigit\<rparr>]"

text \<open>
  One field of the loop body: \<open>Break\<close> leaves the loop with the record as filled in so
  far, \<open>Undefined\<close> is a signed overflow, \<open>Go\<close> continues at the rest of the text.
\<close>

datatype parse_step = Break log_data | Undefined | Go log_data "char list"

primrec step_bind :: "parse_step \<Rightarrow> (log_data \<Rightarrow> char list \<Rightarrow> parse_step) \<Rightarrow> parse_step" where
  "step_bind (Break d) f = Break d"
| "step_bind Undefined f = Undefined"
| "step_bind (Go d s) f = f d s"

text \<open>
  A text field: scan to a comma or NUL, refuse a field that does not fit with its
  terminator, copy it with the separator and overwrite the separator with NUL.
\<close>

definition parse_text ::
  "((cbuf \<Rightarrow> cbuf) \<Rightarrow> log_data \<Rightarrow> log_data) \<Rightarrow> nat \<Rightarrow> log_data \<Rightarrow> char list \<Rightarrow> parse_step" where
  "parse_text upd sz data p =
     (let f = takeWhile (\<lambda>c. c \<noteq> nul \<and> c \<noteq> CHR '','') p;
          e = dropWhile (\<lambda>c. c \<noteq> nul \<and> c \<noteq> CHR '','') p
      in case e of
           [] \<Rightarrow> Break data
         | c # e' \<Rightarrow>
             if length f + 1 > sz then Break data
             else Go (upd (\<lambda>b. (c_memcpy b (f @ [c]))[length f := nul]) data) e')"

text \<open>
  The digit loop of a \<open>uint16_t\<close> field with its overflow test. The second component is
  \<open>None\<close> when the test fired (the code then sets \<open>p_len\<close> to 0).
\<close>

fun u16_digits :: "16 word \<Rightarrow> 32 word \<Rightarrow> char list \<Rightarrow> 16 word \<times> char list option" where
  "u16_digits v last_val [] = (v, Some [])"
| "u16_digits v last_val (c # e) =
     (if c_isdigit c
      then (let v' = 10 * v + of_nat (digit_value c)
            in if (ucast v' :: 32 word) < last_val then (v', None)
               else u16_digits v' (ucast v') e)
      else (v, Some (c # e)))"

definition parse_u16 ::
  "((16 word \<Rightarrow> 16 word) \<Rightarrow> log_data \<Rightarrow> log_data) \<Rightarrow> log_data \<Rightarrow> char list \<Rightarrow> parse_step" where
  "parse_u16 upd data p =
     (case u16_digits 0 0 p of
        (v, Some (c # e)) \<Rightarrow>
          if c = CHR '','' then Go (upd (\<lambda>_. v) data) e else Break (upd (\<lambda>_. v) data)
      | (v, _) \<Rightarrow> Break (upd (\<lambda>_. v) data))"

text \<open>
  The same loop on the \<open>int32_t\<close> process id. The arithmetic is signed, so a value above
  \<open>INT_MAX\<close> is undefined behaviour (the outer \<open>None\<close>); the comparison with the
  unsigned \<open>last_val\<close> is unsigned.
\<close>

fun pid_digits :: "32 word \<Rightarrow> 32 word \<Rightarrow> char list \<Rightarrow> (32 word \<times> char list option) option" where
  "pid_digits v last_val [] = Some (v, Some [])"
| "pid_digits v last_val (c # e) =
     (if c_isdigit c
      then (let i = 10 * sint v + int (digit_value c); v' = word_of_int i
            in if i \<ge> 2 ^ 31 then None
               else if v' < last_val then Some (v', None)
               else pid_digits v' v' e)
      else Some (v, Some (c # e)))"

definition parse_pid :: "log_data \<Rightarrow> char list \<Rightarrow> parse_step" where
  "parse_pid data p =
     (case pid_digits 0 0 p of
        None \<Rightarrow> Undefined
      | Some (v, Some (c # e)) \<Rightarrow>
          if c = CHR '','' then Go (data\<lparr>sshd_pid := v\<rparr>) e else Break (data\<lparr>sshd_pid := v\<rparr>)
      | Some (v, _) \<Rightarrow> Break (data\<lparr>sshd_pid := v\<rparr>))"

definition parse_date :: "log_data \<Rightarrow> char list \<Rightarrow> parse_step" where
  "parse_date data p =
     (if p = [] then Break data
      else case chartest (Some datestr_chartest) (Some p) of
             (True, Some e) \<Rightarrow>
               (let f = take (length p - length e) p
                in if length f + 1 > sizeof_log_date then Break data
                   else Go (data\<lparr>log_date := (c_memcpy (log_date data) f)[length f := nul]\<rparr>) e)
           | _ \<Rightarrow> Break data)"

text \<open>
  \<open>log_data_parse\<close>: whether it returned true, the record it filled in, and, when it
  returned true, the position for \<open>*endptr\<close>. The loop around the body runs once.
\<close>

datatype parse_result =
    Parsed log_data "char list"
  | Rejected log_data
  | Parse_Undefined

primrec step_result :: "parse_step \<Rightarrow> parse_result" where
  "step_result (Break d) = Rejected d"
| "step_result Undefined = Parse_Undefined"
| "step_result (Go d e) = Parsed d e"

definition parse_body :: "char list \<Rightarrow> parse_step" where
  "parse_body p =
     step_bind (parse_text dst_ipaddr_update sizeof_ipaddr log_data_zero p) (\<lambda>d p.
     step_bind (parse_text src_ipaddr_update sizeof_ipaddr d p) (\<lambda>d p.
     step_bind (parse_u16 src_port_update d p) (\<lambda>d p.
     step_bind (parse_u16 event_update d p) (\<lambda>d p.
     step_bind (parse_pid d p) (\<lambda>d p.
     step_bind (parse_text uid_update sizeof_uid d p) (\<lambda>d p.
     parse_date d p))))))"

definition log_data_parse :: "char list option \<Rightarrow> parse_result" where
  "log_data_parse p =
     (case p of
        None \<Rightarrow> Rejected log_data_zero
      | Some s \<Rightarrow>
          (let s' = dropWhile c_isspace s
           in if s' = [] \<or> hd s' = nul then Rejected log_data_zero
              else step_result (parse_body s')))"

text \<open>\<open>log_data_parse_cstr\<close> passes the string's own length.\<close>

definition log_data_parse_cstr :: "cstr \<Rightarrow> parse_result" where
  "log_data_parse_cstr cstr = log_data_parse (Some cstr)"

section \<open>Events: printing and parsing\<close>

lemma log_event_str_roundtrip:
  "log_event_to_str e = Some s \<Longrightarrow> log_event_parse_str s = e"
  by (auto simp: log_event_to_str_def log_event_parse_str_def split: if_splits)

lemma log_event_to_str_defined:
  "log_event_to_str e \<noteq> None \<longleftrightarrow> e < log_event_value log_event_max"
proof -
  have "e < 4 \<longleftrightarrow> unat e < 4" by (simp add: word_less_nat_alt)
  also have "\<dots> \<longleftrightarrow> unat e = 0 \<or> unat e = 1 \<or> unat e = 2 \<or> unat e = 3" by arith
  also have "\<dots> \<longleftrightarrow> e = 0 \<or> e = 1 \<or> e = 2 \<or> e = 3"
    by (simp add: word_unat_eq_iff)
  finally show ?thesis by (auto simp: log_event_to_str_def)
qed

lemma log_event_parse_str_defined: "log_event_to_str (log_event_parse_str s) \<noteq> None"
  by (simp add: log_event_parse_str_def log_event_to_str_def)

section \<open>Validity, field by field\<close>

lemma field_ok_iff:
  assumes "length b = n" "0 < n"
  shows "field_ok b \<longleftrightarrow> cstr_of b \<noteq> [] \<and> length (cstr_of b) < n"
proof -
  from assms obtain c cs where b: "b = c # cs" by (cases b) auto
  have "nul \<in> set b \<longleftrightarrow> length (cstr_of b) < length b"
  proof
    assume "nul \<in> set b"
    then obtain xs ys where "b = xs @ nul # ys" "nul \<notin> set xs" by (meson split_list_first)
    then show "length (cstr_of b) < length b" by (simp add: cstr_of_append_nul)
  next
    assume "length (cstr_of b) < length b"
    then show "nul \<in> set b" using cstr_of_no_nul [of b] by fastforce
  qed
  with b assms show ?thesis by (auto simp: field_ok_def cstr_of_def)
qed

section \<open>The memory image\<close>

lemma word_bytes_0 [simp]: "word_bytes 0 w = []"
  by (simp add: word_bytes_def)

lemma word_bytes_Suc: "word_bytes (Suc n) w = char_of (w mod 256) # word_bytes n (w div 256)"
proof -
  have "[0..<Suc n] = 0 # map Suc [0..<n]" by (simp add: upt_conv_Cons map_Suc_upt)
  then show ?thesis by (simp add: word_bytes_def div_mult2_eq)
qed

lemma length_word_bytes [simp]: "length (word_bytes n w) = n"
  by (simp add: word_bytes_def)

lemma bytes_word_word_bytes [simp]: "w < 256 ^ n \<Longrightarrow> bytes_word (word_bytes n w) = w"
proof (induction n arbitrary: w)
  case 0
  then show ?case by (simp add: bytes_word_def)
next
  case (Suc n)
  from Suc.prems have "w div 256 < 256 ^ n" by (simp add: less_mult_imp_div_less mult.commute)
  then have "bytes_word (word_bytes n (w div 256)) = w div 256" by (rule Suc.IH)
  then show ?case by (simp add: word_bytes_Suc bytes_word_def)
qed

lemma unat_bytes_bound: "unat (w :: 16 word) < 256 ^ 2" "unat (v :: 32 word) < 256 ^ 4"
  by (rule less_le_trans [OF unsigned_less], simp)+

lemma log_data_bytes_length: "log_data_wf d \<Longrightarrow> length (log_data_bytes d) = sizeof_log_data"
  by (simp add: log_data_wf_def log_data_bytes_def)

lemma log_data_bytes_inverse: "log_data_wf d \<Longrightarrow> log_data_of_bytes (log_data_bytes d) = d"
  using unat_bytes_bound
  by (simp add: log_data_wf_def log_data_bytes_def log_data_of_bytes_def)

lemma log_data_of_bytes_wf:
  "length bs = sizeof_log_data \<Longrightarrow> log_data_wf (log_data_of_bytes bs)"
  by (simp add: log_data_wf_def log_data_of_bytes_def)

section \<open>The parser, field by field\<close>

lemma store_over_zero:
  "length f < n \<Longrightarrow> (c_memcpy (replicate n nul) (f @ [c]))[length f := nul] = c_strncpy n f"
  by (simp add: c_memcpy_def c_strncpy_def list_update_append Suc_diff_Suc
      flip: replicate_Suc)

lemma parse_text_Go:
  assumes "nul \<notin> set f" "CHR '','' \<notin> set f" "length f < sz" "c = nul \<or> c = CHR '',''"
  shows "parse_text upd sz d (f @ c # r) =
    Go (upd (\<lambda>b. (c_memcpy b (f @ [c]))[length f := nul]) d) r"
proof -
  let ?P = "\<lambda>x. x \<noteq> nul \<and> x \<noteq> CHR '',''"
  have all: "x \<in> set f \<Longrightarrow> ?P x" for x using assms by auto
  have "\<not> ?P c" using assms by auto
  then have "takeWhile ?P (f @ c # r) = f" "dropWhile ?P (f @ c # r) = c # r"
    using all by (simp_all del: de_Morgan_conj)
  then show ?thesis using assms(3) by (simp add: parse_text_def)
qed

lemma parse_text_GoD:
  assumes "parse_text upd sz d p = Go d' p'"
  obtains f c where "p = f @ c # p'" "length f < sz"
    "d' = upd (\<lambda>b. (c_memcpy b (f @ [c]))[length f := nul]) d"
proof -
  let ?P = "\<lambda>x. x \<noteq> nul \<and> x \<noteq> CHR '',''"
  from assms obtain c where c: "dropWhile ?P p = c # p'" "length (takeWhile ?P p) < sz"
    "d' = upd (\<lambda>b. (c_memcpy b (takeWhile ?P p @ [c]))[length (takeWhile ?P p) := nul]) d"
    by (auto simp: parse_text_def Let_def split: list.splits if_splits)
  have "p = takeWhile ?P p @ c # p'" using c(1) by (metis takeWhile_dropWhile_id)
  with c that show ?thesis by blast
qed

lemma u16_digits_append:
  assumes "\<forall>c \<in> set ds. c_isdigit c" "digits_value (unat v) ds < 2 ^ 16"
  shows "u16_digits v (ucast v) (ds @ r) =
    u16_digits (of_nat (digits_value (unat v) ds)) (ucast (of_nat (digits_value (unat v) ds) :: 16 word)) r"
  using assms
proof (induction ds arbitrary: v)
  case Nil
  then show ?case by simp
next
  case (Cons c ds)
  let ?n = "10 * unat v + digit_value c"
  let ?v' = "10 * v + of_nat (digit_value c) :: 16 word"
  have n: "?n < 2 ^ 16"
    using Cons.prems(2) digits_value_ge [of ?n ds] by simp
  have v': "?v' = of_nat ?n" by simp
  have un: "unat ?v' = ?n"
    unfolding v' using n by (intro unat_of_nat_small) simp
  have ge: "\<not> (ucast ?v' :: 32 word) < ucast v"
    using un by (simp add: word_less_nat_alt unat_ucast_16_32)
  have "u16_digits ?v' (ucast ?v') (ds @ r) =
      u16_digits (of_nat (digits_value ?n ds)) (ucast (of_nat (digits_value ?n ds) :: 16 word)) r"
    using Cons.IH [of ?v'] Cons.prems un by simp
  then show ?case using Cons.prems(1) ge by (simp add: Let_def del: of_nat_add)
qed

lemma u16_digits_exact:
  assumes "\<forall>c \<in> set ds. c_isdigit c" "digits_value (unat v) ds < 2 ^ 16"
    "r = [] \<or> \<not> c_isdigit (hd r)"
  shows "u16_digits v (ucast v) (ds @ r) = (of_nat (digits_value (unat v) ds), Some r)"
  using u16_digits_append [OF assms(1,2), of r] assms(3) by (cases r) auto

lemma pid_digits_exact:
  assumes "\<forall>c \<in> set ds. c_isdigit c" "digits_value (unat v) ds < 2 ^ 31" "unat v < 2 ^ 31"
    "r = [] \<or> \<not> c_isdigit (hd r)"
  shows "pid_digits v v (ds @ r) = Some (of_nat (digits_value (unat v) ds), Some r)"
  using assms
proof (induction ds arbitrary: v)
  case Nil
  then show ?case by (cases r) auto
next
  case (Cons c ds)
  let ?n = "10 * unat v + digit_value c"
  let ?v' = "word_of_int (10 * sint v + int (digit_value c)) :: 32 word"
  have n: "?n < 2 ^ 31"
    using Cons.prems(2) digits_value_ge [of ?n ds] by simp
  have sv: "sint v = int (unat v)"
    using Cons.prems(3) by (rule sint_small32)
  have i: "10 * sint v + int (digit_value c) = int ?n" by (simp add: sv)
  have un: "unat ?v' = ?n"
    unfolding i using n unat_of_nat_small [of ?n, where 'a = 32] by simp
  have ge: "\<not> ?v' < v" using un by (simp add: word_less_nat_alt)
  have "pid_digits ?v' ?v' (ds @ r) = Some (of_nat (digits_value (unat ?v') ds), Some r)"
    using Cons.prems un n by (intro Cons.IH) auto
  moreover have "\<not> 10 * sint v + int (digit_value c) \<ge> 2 ^ 31"
    unfolding i using n by (simp flip: of_nat_add of_nat_mult)
  ultimately show ?case using Cons.prems(1) ge un by (simp add: Let_def del: of_nat_add)
qed

text \<open>The textual form the parser is documented to read.\<close>

definition log_data_text :: "cstr \<Rightarrow> cstr \<Rightarrow> nat \<Rightarrow> nat \<Rightarrow> nat \<Rightarrow> cstr \<Rightarrow> cstr \<Rightarrow> cstr" where
  "log_data_text dst src port ev pid u date =
     dst @ '','' @ src @ '','' @ show_nat port @ '','' @ show_nat ev @ '','' @
     show_nat pid @ '','' @ u @ '','' @ date"

definition plain_field :: "nat \<Rightarrow> cstr \<Rightarrow> bool" where
  "plain_field n f \<longleftrightarrow> nul \<notin> set f \<and> CHR '','' \<notin> set f \<and> length f < n"

definition date_shape :: "cstr \<Rightarrow> bool" where
  "date_shape s \<longleftrightarrow> list_all2 (\<lambda>t c. t c) (chunk_tests datestr_chartest) s"

lemma chunk_tests_datestr:
  "chunk_tests datestr_chartest =
     (let d = c_isdigit; h = (\<lambda>c. c = CHR ''-''); k = (\<lambda>c. c = CHR '':'') in
      [d, d, d, d, h, d, d, h, d, d, (\<lambda>c. c = CHR '' ''), d, d, k, d, d, k, d, d])"
  by (simp add: chunk_tests_def datestr_chartest_def Let_def eval_nat_numeral)

lemma length_datestr: "length (chunk_tests datestr_chartest) = 19"
  by (simp add: chunk_tests_datestr Let_def)

lemma date_shape_length: "date_shape s \<Longrightarrow> length s = 19"
  using length_datestr by (auto simp: date_shape_def dest: list_all2_lengthD)

lemma parse_text_plain:
  "plain_field sz f \<Longrightarrow> parse_text upd sz d (f @ CHR '','' # r) =
     Go (upd (\<lambda>b. (c_memcpy b (f @ '',''))[length f := nul]) d) r"
  by (simp add: plain_field_def parse_text_Go)

lemma parse_u16_number:
  assumes "n < 2 ^ 16"
  shows "parse_u16 upd d (show_nat n @ CHR '','' # r) = Go (upd (\<lambda>_. of_nat n) d) r"
proof -
  have "u16_digits 0 0 (show_nat n @ CHR '','' # r) = (of_nat n, Some (CHR '','' # r))"
    using u16_digits_exact [of "show_nat n" 0 "CHR '','' # r"] assms show_nat_chars by auto
  then show ?thesis by (simp add: parse_u16_def)
qed

lemma parse_pid_number:
  assumes "n < 2 ^ 31"
  shows "parse_pid d (show_nat n @ CHR '','' # r) = Go (d\<lparr>sshd_pid := of_nat n\<rparr>) r"
proof -
  have "pid_digits 0 0 (show_nat n @ CHR '','' # r) = Some (of_nat n, Some (CHR '','' # r))"
    using pid_digits_exact [of "show_nat n" 0 "CHR '','' # r"] assms show_nat_chars by auto
  then show ?thesis by (simp add: parse_pid_def)
qed

lemma datestr_nonneg: "\<forall>k \<in> set datestr_chartest. 0 \<le> n_char k"
  by (simp add: datestr_chartest_def)

lemma parse_date_exact:
  assumes "date_shape s"
  shows "parse_date d (s @ r) =
    Go (d\<lparr>log_date := (c_memcpy (log_date d) s)[length s := nul]\<rparr>) r"
proof -
  have len: "length s = 19" using assms by (rule date_shape_length)
  then have ne: "s @ r \<noteq> []" by auto
  have "chartest_chunks datestr_chartest (s @ r) = (True, r)"
    using assms length_datestr len
    by (simp add: chartest_chunks_match_prefix [OF datestr_nonneg] date_shape_def
        match_prefix_exact)
  then have "chartest (Some datestr_chartest) (Some (s @ r)) = (True, Some r)"
    using ne by (simp add: chartest_def) (simp add: datestr_chartest_def)
  then show ?thesis using len ne by (simp add: parse_date_def Let_def)
qed

lemma parse_printed:
  assumes "plain_field sizeof_ipaddr dst" "plain_field sizeof_ipaddr src"
    "plain_field sizeof_uid u" "date_shape date"
    "port < 2 ^ 16" "ev < 2 ^ 16" "pid < 2 ^ 31"
    "list_all c_isspace ws" "dst = [] \<or> \<not> c_isspace (hd dst)"
  shows "log_data_parse (Some (ws @ log_data_text dst src port ev pid u date @ rest)) =
    Parsed \<lparr>dst_ipaddr = c_strncpy sizeof_ipaddr dst, src_ipaddr = c_strncpy sizeof_ipaddr src,
            src_port = of_nat port, event = of_nat ev, sshd_pid = of_nat pid,
            uid = c_strncpy sizeof_uid u, log_date = c_strncpy sizeof_log_date date\<rparr> rest"
proof -
  let ?t = "log_data_text dst src port ev pid u date @ rest"
  have hd: "?t \<noteq> []" "hd ?t \<noteq> nul" "\<not> c_isspace (hd ?t)"
    using assms(1,9) by (cases dst; auto simp: log_data_text_def plain_field_def cchar_simps)+
  then have drop: "dropWhile c_isspace (ws @ ?t) = ?t"
    using assms(8) by (cases ?t) (auto simp: dropWhile_append2 list_all_iff)
  have store: "length f < n \<Longrightarrow>
      (c_memcpy (replicate n nul) (f @ '',''))[length f := nul] = c_strncpy n f" for f n
    by (rule store_over_zero)
  have date: "length date = 19" using assms(4) by (rule date_shape_length)
  have sd: "(c_memcpy (replicate sizeof_log_date nul) date)[length date := nul] =
      c_strncpy sizeof_log_date date"
    using date by (simp add: c_memcpy_def c_strncpy_def list_update_append)
       (simp add: eval_nat_numeral)
  show ?thesis
    unfolding log_data_parse_def using hd drop assms
    by (simp add: Let_def parse_body_def log_data_text_def parse_text_plain parse_u16_number
        parse_pid_number parse_date_exact log_data_zero_def store sd plain_field_def)
qed

section \<open>What a successful parse guarantees\<close>

definition text_terminated :: "log_data \<Rightarrow> bool" where
  "text_terminated d \<longleftrightarrow>
     nul \<in> set (dst_ipaddr d) \<and> nul \<in> set (src_ipaddr d) \<and> nul \<in> set (uid d) \<and> nul \<in> set (log_date d)"

lemma step_bind_GoD: "step_bind s f = Go d p \<Longrightarrow> \<exists>d' p'. s = Go d' p' \<and> f d' p' = Go d p"
  by (cases s) auto

lemma step_result_ParsedE: "step_result s = Parsed d e \<Longrightarrow> (s = Go d e \<Longrightarrow> P) \<Longrightarrow> P"
  by (cases s) auto

lemma parse_u16_GoD: "parse_u16 upd d p = Go d' p' \<Longrightarrow> \<exists>v. d' = upd (\<lambda>_. v) d"
  by (auto simp: parse_u16_def split: prod.splits option.splits list.splits if_splits)

lemma parse_pid_GoD: "parse_pid d p = Go d' p' \<Longrightarrow> \<exists>v. d' = d\<lparr>sshd_pid := v\<rparr>"
  by (auto simp: parse_pid_def split: prod.splits option.splits list.splits if_splits)

lemma stored_field:
  "length f < length b \<Longrightarrow>
     length ((c_memcpy b (f @ [c]))[length f := nul]) = length b \<and>
     nul \<in> set ((c_memcpy b (f @ [c]))[length f := nul])"
  by (auto simp: c_memcpy_def list_update_append)

lemma stored_text:
  "length f < length b \<Longrightarrow>
     length ((c_memcpy b f)[length f := nul]) = length b \<and>
     nul \<in> set ((c_memcpy b f)[length f := nul])"
  by (auto intro!: set_update_memI)

lemma parse_date_GoD:
  assumes "parse_date d p = Go d' p'" "length (log_date d) = sizeof_log_date"
  shows "\<exists>b. d' = d\<lparr>log_date := b\<rparr> \<and> length b = sizeof_log_date \<and> nul \<in> set b"
proof -
  let ?f = "take (length p - length p') p"
  from assms(1) have "d' = d\<lparr>log_date := (c_memcpy (log_date d) ?f)[length ?f := nul]\<rparr>"
    and "length ?f + 1 \<le> sizeof_log_date"
    by (auto simp: parse_date_def Let_def split: prod.splits bool.splits option.splits if_splits)
  with assms(2) stored_text [of ?f "log_date d"] show ?thesis by auto
qed

lemma parse_body_GoD:
  assumes "parse_body p = Go d e"
  shows "log_data_wf d \<and> text_terminated d"
proof -
  from assms obtain d1 p1 d2 p2 d3 p3 d4 p4 d5 p5 d6 p6 where
      s1: "parse_text dst_ipaddr_update sizeof_ipaddr log_data_zero p = Go d1 p1"
    and s2: "parse_text src_ipaddr_update sizeof_ipaddr d1 p1 = Go d2 p2"
    and s3: "parse_u16 src_port_update d2 p2 = Go d3 p3"
    and s4: "parse_u16 event_update d3 p3 = Go d4 p4"
    and s5: "parse_pid d4 p4 = Go d5 p5"
    and s6: "parse_text uid_update sizeof_uid d5 p5 = Go d6 p6"
    and s7: "parse_date d6 p6 = Go d e"
    unfolding parse_body_def by (blast dest!: step_bind_GoD)
  from s1 have d1: "log_data_wf d1 \<and> nul \<in> set (dst_ipaddr d1)"
    by (rule parse_text_GoD) (simp add: log_data_wf_def log_data_zero_def stored_field)
  from s2 have d2: "log_data_wf d2 \<and> nul \<in> set (dst_ipaddr d2) \<and> nul \<in> set (src_ipaddr d2)"
    by (rule parse_text_GoD) (use d1 in \<open>simp add: log_data_wf_def stored_field\<close>)
  have d5: "log_data_wf d5 \<and> nul \<in> set (dst_ipaddr d5) \<and> nul \<in> set (src_ipaddr d5)"
    using d2 s3 s4 s5 by (auto simp: log_data_wf_def dest!: parse_u16_GoD parse_pid_GoD)
  from s6 have d6: "log_data_wf d6 \<and> nul \<in> set (dst_ipaddr d6) \<and> nul \<in> set (src_ipaddr d6) \<and>
      nul \<in> set (uid d6)"
    by (rule parse_text_GoD) (use d5 in \<open>simp add: log_data_wf_def stored_field\<close>)
  with parse_date_GoD [OF s7] show ?thesis
    by (auto simp: log_data_wf_def text_terminated_def)
qed

lemma log_data_parse_ParsedD:
  "log_data_parse s = Parsed d e \<Longrightarrow> log_data_wf d \<and> text_terminated d"
  by (auto simp: log_data_parse_def Let_def split: option.splits if_splits
      dest: parse_body_GoD elim!: step_result_ParsedE)

section \<open>Behaviour at the edges of the number and date formats\<close>

lemma show_nat_unfold: "10 \<le> n \<Longrightarrow> show_nat n = show_nat (n div 10) @ [digit_char (n mod 10)]"
  by (subst show_nat.simps) simp

text \<open>
  The overflow test compares a value with its predecessor; a value that wraps past its
  predecessor is not noticed.
\<close>

lemma parse_u16_wraps:
  assumes "72818 \<le> n" "n \<le> 99999"
  shows "parse_u16 upd d (show_nat n @ CHR '','' # r) = Go (upd (\<lambda>_. of_nat (n - 65536)) d) r"
proof -
  let ?q = "n div 10" and ?d = "n mod 10"
  let ?c = "CHR '','' # r"
  have q: "?q < 2 ^ 16" "6553 \<le> ?q" using assms by auto
  have n: "n = 10 * ?q + ?d" by simp
  have step: "10 * (of_nat ?q :: 16 word) + of_nat ?d = of_nat (n - 65536)"
  proof -
    have "10 * (of_nat ?q :: 16 word) + of_nat ?d = of_nat (10 * ?q + ?d)"
      by (simp only: of_nat_add of_nat_mult of_nat_numeral)
    also have "\<dots> = of_nat (65536 + (n - 65536))" using n assms by simp
    also have "\<dots> = of_nat (n - 65536)" by (simp only: of_nat_add of_nat_numeral) simp
    finally show ?thesis .
  qed
  have u: "unat (of_nat ?q :: 16 word) = ?q" "unat (of_nat (n - 65536) :: 16 word) = n - 65536"
    by (rule unat_of_nat_small, use q assms in simp)+
  have ge: "\<not> (ucast (of_nat (n - 65536) :: 16 word) :: 32 word) < ucast (of_nat ?q :: 16 word)"
    using u assms by (simp add: word_less_nat_alt unat_ucast_16_32)
  have "u16_digits 0 0 (show_nat n @ ?c) = u16_digits 0 (ucast (0 :: 16 word)) (show_nat ?q @ digit_char ?d # ?c)"
    using assms by (simp add: show_nat_unfold)
  also have "\<dots> = u16_digits (of_nat ?q) (ucast (of_nat ?q :: 16 word)) (digit_char ?d # ?c)"
    using u16_digits_append [of "show_nat ?q" 0 "digit_char ?d # ?c"] show_nat_chars q by auto
  also have "\<dots> = (of_nat (n - 65536), Some ?c)"
    using ge by (simp add: Let_def step)
  finally show ?thesis by (simp add: parse_u16_def)
qed

lemma match_prefix_take:
  "list_all2 (\<lambda>t c. t c) ts s \<Longrightarrow> k \<le> length s \<Longrightarrow> match_prefix ts (take k s) = (True, [])"
proof (induction ts s arbitrary: k rule: list_all2_induct)
  case (Cons t ts c s)
  then show ?case by (cases k) auto
qed simp

lemma parse_date_truncated:
  assumes "date_shape s" "0 < k" "k \<le> 19" "length (log_date d) = sizeof_log_date"
  shows "parse_date d (take k s) =
    Go (d\<lparr>log_date := (c_memcpy (log_date d) (take k s))[k := nul]\<rparr>) []"
proof -
  have len: "length s = 19" using assms(1) by (rule date_shape_length)
  then have ne: "take k s \<noteq> []" using assms(2) by auto
  have "chartest_chunks datestr_chartest (take k s) = (True, [])"
    using assms(1,3) len
    by (simp add: chartest_chunks_match_prefix [OF datestr_nonneg] date_shape_def match_prefix_take)
  then have "chartest (Some datestr_chartest) (Some (take k s)) = (True, Some [])"
    using ne by (simp add: chartest_def) (simp add: datestr_chartest_def)
  then show ?thesis using len ne assms(3) by (simp add: parse_date_def Let_def)
qed

section \<open>The properties of the record\<close>

lemma word_bytes_bytes_word: "length bs = n \<Longrightarrow> word_bytes n (bytes_word bs) = bs"
proof (induction n arbitrary: bs)
  case (Suc n)
  then obtain b bs' where b: "bs = b # bs'" "length bs' = n" by (cases bs) auto
  have "(of_char b :: nat) < 256" by (rule nat_of_char_less_256)
  then have "bytes_word bs mod 256 = of_char b" "bytes_word bs div 256 = bytes_word bs'"
    by (simp_all add: b bytes_word_def)
  then show ?case using Suc.IH [OF b(2)] by (simp add: word_bytes_Suc b)
qed simp

lemma bytes_word_bound: "bytes_word bs < 256 ^ length bs"
proof (induction bs)
  case (Cons b bs)
  have "(of_char b :: nat) < 256" by (rule nat_of_char_less_256)
  moreover have "bytes_word (b # bs) = of_char b + 256 * bytes_word bs" by (simp add: bytes_word_def)
  ultimately show ?case using Cons unfolding length_Cons power_Suc by linarith
qed (simp add: bytes_word_def)

lemma log_data_of_bytes_inverse:
  assumes "length bs = sizeof_log_data" shows "log_data_bytes (log_data_of_bytes bs) = bs"
proof -
  have w16: "word_bytes 2 (unat (of_nat (bytes_word xs) :: 16 word)) = xs" if "length xs = 2" for xs
    using bytes_word_bound [of xs] word_bytes_bytes_word [OF that] that by (simp add: unat_of_nat_small)
  have w32: "word_bytes 4 (unat (of_nat (bytes_word xs) :: 32 word)) = xs" if "length xs = 4" for xs
    using bytes_word_bound [of xs] word_bytes_bytes_word [OF that] that by (simp add: unat_of_nat_small)
  have glue: "take n (drop k bs) @ drop (n + k) bs = drop k bs" for n k
    by (metis append_take_drop_id drop_drop)
  have "log_data_bytes (log_data_of_bytes bs) =
      take 16 bs @ take 16 (drop 16 bs) @ take 2 (drop 32 bs) @ take 2 (drop 34 bs) @
      take 4 (drop 36 bs) @ take 60 (drop 40 bs) @ take 28 (drop 100 bs)"
    using assms by (simp add: log_data_bytes_def log_data_of_bytes_def w16 w32)
  also have "take 28 (drop 100 bs) = drop 100 bs" using assms by simp
  finally show ?thesis
    using glue [of 60 40] glue [of 4 36] glue [of 2 34] glue [of 2 32] glue [of 16 16]
      append_take_drop_id [of 16 bs] by simp
qed

text \<open>
  C27: the memory image. Every record has exactly 128 bytes, reading an image back gives the
  record, and every sequence of 128 bytes is the image of the record read from it, so what
  the daemon takes from the socket is what the peer wrote.
\<close>

theorem log_data_image_roundtrip:
  "(log_data_wf d \<longrightarrow> length (log_data_bytes d) = sizeof_log_data \<and>
      log_data_of_bytes (log_data_bytes d) = d) \<and>
   (length bs = sizeof_log_data \<longrightarrow> log_data_wf (log_data_of_bytes bs) \<and>
      log_data_bytes (log_data_of_bytes bs) = bs)"
  using log_data_bytes_length log_data_bytes_inverse log_data_of_bytes_wf log_data_of_bytes_inverse
  by blast

theorem log_data_image_roundtrip_witness:
  "length (log_data_bytes log_data_zero) = 128 \<and> log_data_bytes (log_data_of_bytes (replicate 128 nul)) = replicate 128 nul"
  using log_data_image_roundtrip [of log_data_zero "replicate 128 nul"] by simp

text \<open>
  C25: \<open>log_data_is_valid\<close>. For a record in memory it holds exactly when the event is one of
  the enumeration below \<open>log_event_max\<close> (then it has a name, which parses back to it) and
  each of the four texts is not empty and ends within its field.
\<close>

theorem log_data_validity:
  assumes "log_data_wf d"
  shows "log_data_is_valid (Some d) \<longleftrightarrow>
    (\<exists>s. log_event_to_str (event d) = Some s \<and> log_event_parse_str s = event d) \<and>
    (\<forall>(b, n) \<in> {(dst_ipaddr d, sizeof_ipaddr), (src_ipaddr d, sizeof_ipaddr),
        (uid d, sizeof_uid), (log_date d, sizeof_log_date)}.
       cstr_of b \<noteq> [] \<and> length (cstr_of b) < n)"
proof -
  have "event d < log_event_value log_event_max \<longleftrightarrow>
      (\<exists>s. log_event_to_str (event d) = Some s \<and> log_event_parse_str s = event d)"
    using log_event_to_str_defined [of "event d"] log_event_str_roundtrip [of "event d"] by auto
  then show ?thesis
    using assms by (simp add: log_data_is_valid_def log_data_wf_def field_ok_iff)
qed

theorem log_data_validity_witness:
  "\<not> log_data_is_valid (Some log_data_zero)"
proof -
  have "cstr_of (uid log_data_zero) = []" by (simp add: log_data_zero_def cstr_of_replicate)
  then show ?thesis unfolding log_data_validity [OF log_data_wf_zero] by blast
qed

text \<open>
  C26: what a successful parse guarantees, for any text: the record has the declared sizes and
  every text field is terminated, so that it is valid exactly when the event is known and no
  field is empty.
\<close>

theorem log_data_parse_guarantees:
  assumes "log_data_parse s = Parsed d e"
  shows "log_data_wf d \<and> text_terminated d \<and>
    (log_data_is_valid (Some d) \<longleftrightarrow> event d < log_event_value log_event_max \<and>
      (\<forall>b \<in> {dst_ipaddr d, src_ipaddr d, uid d, log_date d}. cstr_of b \<noteq> []))"
proof -
  have d: "log_data_wf d" "text_terminated d" using log_data_parse_ParsedD [OF assms] by auto
  have f: "field_ok b \<longleftrightarrow> cstr_of b \<noteq> []" if "nul \<in> set b" for b
    using that by (cases b) (auto simp: field_ok_def cstr_of_def)
  show ?thesis using d by (simp add: log_data_is_valid_def text_terminated_def f)
qed

lemma sample_date: "date_shape ''2024-05-01 10:00:00''"
  by (simp add: date_shape_def chunk_tests_datestr Let_def cchar_simps)

lemma sample_text_ok:
  "plain_field sizeof_ipaddr ''10.0.0.1''" "plain_field sizeof_ipaddr ''10.1.2.3''"
  "plain_field sizeof_uid ''bob''"
  by (simp_all add: plain_field_def)

text \<open>
  C24: reading the documented text form. The comma-separated text of a record, after any white
  space, parses to exactly that record, with the texts NUL-padded and the numbers at their
  widths, and the parser stops right after the date.
\<close>

theorem log_data_parse_text:
  assumes "plain_field sizeof_ipaddr dst" "plain_field sizeof_ipaddr src"
    "plain_field sizeof_uid u" "date_shape date"
    "port < 2 ^ 16" "ev < 2 ^ 16" "pid < 2 ^ 31"
    "list_all c_isspace ws" "dst = [] \<or> \<not> c_isspace (hd dst)"
  shows "log_data_parse (Some (ws @ log_data_text dst src port ev pid u date @ rest)) =
    Parsed \<lparr>dst_ipaddr = c_strncpy sizeof_ipaddr dst, src_ipaddr = c_strncpy sizeof_ipaddr src,
            src_port = of_nat port, event = of_nat ev, sshd_pid = of_nat pid,
            uid = c_strncpy sizeof_uid u, log_date = c_strncpy sizeof_log_date date\<rparr> rest"
  by (rule parse_printed [OF assms])

theorem log_data_parse_text_witness:
  "log_data_parse (Some ('' '' @ log_data_text ''10.0.0.1'' ''10.1.2.3'' 50022 1 4242 ''bob''
      ''2024-05-01 10:00:00'' @ ''x'')) =
    Parsed \<lparr>dst_ipaddr = c_strncpy sizeof_ipaddr ''10.0.0.1'', src_ipaddr = c_strncpy sizeof_ipaddr ''10.1.2.3'',
            src_port = of_nat 50022, event = of_nat 1, sshd_pid = of_nat 4242,
            uid = c_strncpy sizeof_uid ''bob'', log_date = c_strncpy sizeof_log_date ''2024-05-01 10:00:00''\<rparr> ''x''"
  by (rule log_data_parse_text) (simp_all add: sample_text_ok sample_date cchar_simps)

theorem log_data_parse_guarantees_witness:
  "\<exists>d. log_data_parse (Some (log_data_text ''10.0.0.1'' ''10.1.2.3'' 50022 9 4242 ''bob''
      ''2024-05-01 10:00:00'')) = Parsed d [] \<and> text_terminated d \<and> \<not> log_data_is_valid (Some d)"
proof -
  let ?t = "log_data_text ''10.0.0.1'' ''10.1.2.3'' 50022 9 4242 ''bob'' ''2024-05-01 10:00:00''"
  have "log_data_parse (Some ([] @ ?t @ [])) =
    Parsed \<lparr>dst_ipaddr = c_strncpy sizeof_ipaddr ''10.0.0.1'', src_ipaddr = c_strncpy sizeof_ipaddr ''10.1.2.3'',
            src_port = of_nat 50022, event = of_nat 9, sshd_pid = of_nat 4242,
            uid = c_strncpy sizeof_uid ''bob'', log_date = c_strncpy sizeof_log_date ''2024-05-01 10:00:00''\<rparr> []"
    (is "_ = Parsed ?d []")
    by (rule parse_printed) (simp_all add: sample_text_ok sample_date cchar_simps)
  then have p: "log_data_parse (Some ?t) = Parsed ?d []" by simp
  from log_data_parse_guarantees [OF p] have "text_terminated ?d" "\<not> log_data_is_valid (Some ?d)"
    by simp_all
  with p show ?thesis by blast
qed

text \<open>
  Numbers that do not fit. A port or event field of five digits from 72818 to 99999 is
  accepted, reduced modulo 65536: the overflow test compares a value with its predecessor and
  the wrapped value is still larger.
\<close>

theorem log_data_number_wraps:
  assumes "72818 \<le> n" "n \<le> 99999"
  shows "parse_u16 upd d (show_nat n @ CHR '','' # r) = Go (upd (\<lambda>_. of_nat (n - 65536)) d) r"
  by (rule parse_u16_wraps [OF assms])

theorem log_data_number_wraps_witness:
  "parse_u16 src_port_update log_data_zero (show_nat 99999 @ CHR '','' # ''x'') =
    Go (log_data_zero\<lparr>src_port := 34463\<rparr>) ''x''"
  using log_data_number_wraps [of 99999 src_port_update log_data_zero "''x''"] by simp

text \<open>
  A date cut short. The test of the date's characters stops when the text ends, so every
  non-empty prefix of a date at the end of the text is taken as the date.
\<close>

theorem log_data_date_truncated:
  assumes "date_shape s" "0 < k" "k \<le> 19" "length (log_date d) = sizeof_log_date"
  shows "parse_date d (take k s) =
    Go (d\<lparr>log_date := (c_memcpy (log_date d) (take k s))[k := nul]\<rparr>) []"
  by (rule parse_date_truncated [OF assms])

theorem log_data_date_truncated_witness:
  "parse_date log_data_zero ''2024-'' =
    Go (log_data_zero\<lparr>log_date := (c_memcpy (log_date log_data_zero) ''2024-'')[5 := nul]\<rparr>) []"
proof -
  have "take 5 ''2024-05-01 10:00:00'' = ''2024-''" by simp
  then show ?thesis
    using log_data_date_truncated [OF sample_date, of 5 log_data_zero]
    by (simp add: log_data_zero_def)
qed

end
