(* ===== verification/Logging.thy ===== *)
theory Logging
  imports Prelude
begin

text \<open>
  \<open>src/libiptracking/logging.c\<close>: the level threshold, the lines written to \<open>stderr\<close> and
  the exit on a fatal message; and the handling of the \<open>-v\<close>/\<open>-q\<close> options, which both
  daemons share. The time stamp, the process id and the formatted message of a line are
  inputs.
\<close>

section \<open>The code\<close>

abbreviation logging_level_fatal :: int where "logging_level_fatal \<equiv> 0"
abbreviation logging_level_error :: int where "logging_level_error \<equiv> 1"
abbreviation logging_level_warn :: int where "logging_level_warn \<equiv> 2"
abbreviation logging_level_info :: int where "logging_level_info \<equiv> 3"
abbreviation logging_level_debug :: int where "logging_level_debug \<equiv> 4"

definition logging_level_strs :: "cstr list" where
  "logging_level_strs = [''FATAL'', ''ERROR'', ''WARN '', ''INFO '', ''DEBUG'']"

record log_state =
  logging_level :: int
  stderr_lines :: "cstr list"

definition log_state_init :: log_state where
  "log_state_init = \<lparr>logging_level = logging_level_error, stderr_lines = []\<rparr>"

definition logging_get_level :: "log_state \<Rightarrow> int" where
  "logging_get_level st = logging_level st"

definition logging_set_level :: "int \<Rightarrow> log_state \<Rightarrow> log_state" where
  "logging_set_level level st =
     (let level' = (if level < logging_level_fatal then logging_level_fatal
                    else if level > logging_level_debug then logging_level_debug
                    else level)
      in st\<lparr>logging_level := level'\<rparr>)"

text \<open>Whether the process goes on after the call, or \<open>exit\<close> was called.\<close>

datatype 'a proc = Running 'a | Exited 'a

definition log_line :: "cstr \<Rightarrow> nat \<Rightarrow> int \<Rightarrow> cstr \<Rightarrow> cstr" where
  "log_line now_s pid level msg =
     ''['' @ now_s @ ''] '' @ logging_level_strs ! nat level @ '' ('' @ show_nat pid @ '')  '' @ msg"

definition logging_printf :: "cstr \<Rightarrow> nat \<Rightarrow> int \<Rightarrow> cstr \<Rightarrow> log_state \<Rightarrow> log_state proc" where
  "logging_printf now_s pid level msg st =
     (let st' = (if level \<le> logging_level st
                 then st\<lparr>stderr_lines := stderr_lines st @ [log_line now_s pid level msg]\<rparr>
                 else st)
      in if level = logging_level_fatal then Exited st' else Running st')"

text \<open>
  The option loop of both \<open>main\<close> functions, for the two options that change the level:
  \<open>logging_set_level(logging_get_level() + ++verbose - quiet)\<close> and its mirror image.
\<close>

datatype verbosity_option = Opt_verbose | Opt_quiet

fun cli_verbosity :: "verbosity_option list \<Rightarrow> int \<Rightarrow> int \<Rightarrow> log_state \<Rightarrow> log_state" where
  "cli_verbosity [] verbose quiet st = st"
| "cli_verbosity (Opt_verbose # os) verbose quiet st =
     cli_verbosity os (verbose + 1) quiet
       (logging_set_level (logging_get_level st + (verbose + 1) - quiet) st)"
| "cli_verbosity (Opt_quiet # os) verbose quiet st =
     cli_verbosity os verbose (quiet + 1)
       (logging_set_level (logging_get_level st + verbose - (quiet + 1)) st)"

section \<open>Properties\<close>

definition level_ok :: "log_state \<Rightarrow> bool" where
  "level_ok st \<longleftrightarrow> logging_level_fatal \<le> logging_level st \<and> logging_level st \<le> logging_level_debug"

lemma level_ok_init [simp]: "level_ok log_state_init"
  by (simp add: level_ok_def log_state_init_def)

lemma level_ok_set [simp]: "level_ok (logging_set_level l st)"
  by (simp add: level_ok_def logging_set_level_def)

lemma stderr_lines_set [simp]: "stderr_lines (logging_set_level l st) = stderr_lines st"
  by (simp add: logging_set_level_def)

lemma level_ok_cli: "level_ok st \<Longrightarrow> level_ok (cli_verbosity os v q st)"
  by (induction os v q st rule: cli_verbosity.induct) auto

lemma stderr_lines_cli: "stderr_lines (cli_verbosity os v q st) = stderr_lines st"
  by (induction os v q st rule: cli_verbosity.induct) auto

text \<open>Whatever \<open>-v\<close> and \<open>-q\<close> options a daemon is given, in whatever order, the
  logging level stays inside the enumeration, so a message that is printed indexes the table of
  level names inside its bounds; a message is printed exactly when its level does not exceed
  the threshold, and the process exits exactly on a fatal message, which is always printed.\<close>

theorem logging_after_options:
  assumes "logging_level_fatal \<le> level" "level \<le> logging_level_debug"
  shows "let st = cli_verbosity os 0 0 log_state_init;
             line = log_line now_s pid level msg
         in level_ok st \<and> nat level < length logging_level_strs \<and>
            logging_printf now_s pid level msg st =
              (if level = logging_level_fatal then Exited (st\<lparr>stderr_lines := [line]\<rparr>)
               else if level \<le> logging_level st then Running (st\<lparr>stderr_lines := [line]\<rparr>)
               else Running st)"
proof -
  let ?st = "cli_verbosity os 0 0 log_state_init"
  have ok: "level_ok ?st" by (rule level_ok_cli) simp
  have lines: "stderr_lines ?st = []" by (simp add: stderr_lines_cli log_state_init_def)
  from assms ok lines show ?thesis
    by (auto simp: logging_printf_def logging_level_strs_def level_ok_def Let_def)
qed

theorem logging_after_options_witness:
  "let st = cli_verbosity [Opt_verbose] 0 0 log_state_init
   in logging_printf ''t'' 7 logging_level_warn ''m'' st =
        Running (st\<lparr>stderr_lines := [log_line ''t'' 7 logging_level_warn ''m'']\<rparr>)"
  using logging_after_options [of logging_level_warn "[Opt_verbose]" "''t''" 7 "''m''"]
  by (simp add: Let_def logging_set_level_def logging_get_level_def log_state_init_def)

text \<open>
  The two options accumulate: the second \<open>-v\<close> adds two levels, so two of them go from
  \<open>ERROR\<close> to \<open>DEBUG\<close>.
\<close>

lemma two_verbose_is_debug:
  "logging_level (cli_verbosity [Opt_verbose, Opt_verbose] 0 0 log_state_init) = logging_level_debug"
  by (simp add: logging_set_level_def logging_get_level_def log_state_init_def)

end
