(* ===== verification/Yaml_Helpers.thy ===== *)
theory Yaml_Helpers
  imports Prelude C_Numbers
begin

text \<open>
  \<open>src/libiptracking/yaml_helpers.c\<close>: following a path through a loaded YAML document and
  reading scalars. The document belongs to libyaml: it enters the model as the function
  \<open>yaml_document_get_node\<close>, from a node's index to the node or NULL, so every definition
  takes it as its argument \<open>doc\<close>. Nodes carry the fields the code reads: the bytes of a
  scalar, the item indices of a sequence, the key and value indices of a mapping's pairs.
\<close>

section \<open>The code\<close>

datatype yaml_node =
    YAML_NO_NODE
  | YAML_SCALAR_NODE "char list"
  | YAML_SEQUENCE_NODE "int list"
  | YAML_MAPPING_NODE "(int \<times> int) list"

type_synonym yaml_document = "int \<Rightarrow> yaml_node option"

text \<open>The pair loop: the value index of the first pair whose key is the given scalar.\<close>

fun find_pair :: "yaml_document \<Rightarrow> char list \<Rightarrow> (int \<times> int) list \<Rightarrow> int option" where
  "find_pair doc key [] = None"
| "find_pair doc key ((k, v) # ps) =
     (case doc k of
        Some (YAML_SCALAR_NODE s) \<Rightarrow> if s = key then Some v else find_pair doc key ps
      | _ \<Rightarrow> find_pair doc key ps)"

abbreviation key_char :: "char \<Rightarrow> bool" where
  "key_char c \<equiv> c \<noteq> CHR ''.'' \<and> c \<noteq> CHR ''[''"

text \<open>
  One turn of the loop on a node with a path that is not empty: \<open>None\<close> for
  \<open>return NULL\<close> (or a node that becomes NULL), otherwise the next node and the rest of the
  path. In the sequence case \<open>path\<close> has been moved past the bracket when the digits are
  read, and \<open>*path\<close> is compared with the closing bracket there.
\<close>

definition path_step ::
  "yaml_document \<Rightarrow> bool \<Rightarrow> yaml_node \<Rightarrow> cstr \<Rightarrow> (yaml_node \<times> cstr) option" where
  "path_step doc inner node path =
     (case node of
        YAML_NO_NODE \<Rightarrow> None
      | YAML_SCALAR_NODE _ \<Rightarrow> None
      | YAML_SEQUENCE_NODE items \<Rightarrow>
          if hd path \<noteq> CHR ''['' then None
          else (let path1 = tl path in
                case c_strtol path1 of
                  None \<Rightarrow> None
                | Some (idx, _) \<Rightarrow>
                    if idx < 0 then None
                    else if path1 = [] \<or> hd path1 \<noteq> CHR '']'' then None
                    else if nat idx < length items
                         then map_option (\<lambda>n. (n, tl path1)) (doc (items ! nat idx))
                         else None)
      | YAML_MAPPING_NODE pairs \<Rightarrow>
          if inner \<and> hd path \<noteq> CHR ''.'' then None
          else (let path1 = (if inner then tl path else path);
                    key = takeWhile key_char path1
                in if key = [] then None
                   else case find_pair doc key pairs of
                          None \<Rightarrow> None
                        | Some v \<Rightarrow> map_option (\<lambda>n. (n, dropWhile key_char path1)) (doc v)))"

lemma path_step_shorter:
  "path_step doc inner node path = Some (n, rest) \<Longrightarrow> path \<noteq> [] \<Longrightarrow> length rest < length path"
proof (cases node)
  case (YAML_SEQUENCE_NODE items)
  assume "path_step doc inner node path = Some (n, rest)" "path \<noteq> []"
  then have "rest = tl (tl path)" "tl path \<noteq> []"
    using YAML_SEQUENCE_NODE
    by (auto simp: path_step_def Let_def split: option.splits if_splits)
  then show ?thesis by (cases path; cases "tl path") auto
next
  case (YAML_MAPPING_NODE pairs)
  assume a: "path_step doc inner node path = Some (n, rest)" "path \<noteq> []"
  let ?p = "if inner then tl path else path"
  from a have r: "rest = dropWhile key_char ?p" "takeWhile key_char ?p \<noteq> []"
    using YAML_MAPPING_NODE
    by (auto simp: path_step_def Let_def split: option.splits if_splits)
  have "length (takeWhile key_char ?p) + length (dropWhile key_char ?p) = length ?p"
    by (metis length_append takeWhile_dropWhile_id)
  with r have "length rest < length ?p" by (cases "takeWhile key_char ?p") auto
  also have "\<dots> \<le> length path" by simp
  finally show ?thesis .
qed (simp_all add: path_step_def)

text \<open>
  The loop. \<open>inner\<close> is \<open>level > 0\<close>; only a mapping raises \<open>level\<close>. The path gets
  shorter in every turn, so the walk ends on any document, cyclic ones included.
\<close>

function node_at_path ::
  "yaml_document \<Rightarrow> bool \<Rightarrow> yaml_node option \<Rightarrow> cstr \<Rightarrow> yaml_node option" where
  "node_at_path doc inner node path =
     (case node of
        None \<Rightarrow> None
      | Some n \<Rightarrow>
          if path = [] then Some n
          else (case path_step doc inner n path of
                  None \<Rightarrow> None
                | Some (n', path') \<Rightarrow>
                    node_at_path doc (inner \<or> (case n of YAML_MAPPING_NODE _ \<Rightarrow> True | _ \<Rightarrow> False))
                      (Some n') path'))"
  by pat_completeness auto
termination
  by (relation "measure (\<lambda>(doc, inner, node, path). length path)") (auto simp: path_step_shorter)

declare node_at_path.simps [simp del]

definition yaml_helper_doc_node_at_path ::
  "yaml_document \<Rightarrow> yaml_node option \<Rightarrow> cstr \<Rightarrow> yaml_node option" where
  "yaml_helper_doc_node_at_path doc node path = node_at_path doc False node path"

definition yaml_helper_get_scalar_value :: "yaml_node \<Rightarrow> cstr option" where
  "yaml_helper_get_scalar_value node =
     (case node of YAML_SCALAR_NODE s \<Rightarrow> Some (cstr_of s) | _ \<Rightarrow> None)"

text \<open>The result is \<open>None\<close> for \<open>false\<close>, with \<open>*value\<close> untouched.\<close>

definition yaml_helper_get_scalar_int_value :: "yaml_node \<Rightarrow> int option" where
  "yaml_helper_get_scalar_int_value node =
     (case node of
        YAML_SCALAR_NODE s \<Rightarrow>
          (case c_strtol (cstr_of s) of
             Some (v, []) \<Rightarrow> if v \<ge> INT_MIN \<and> v \<le> INT_MAX then Some v else None
           | _ \<Rightarrow> None)
      | _ \<Rightarrow> None)"

definition yaml_helper_get_scalar_uint32_value :: "yaml_node \<Rightarrow> 32 word option" where
  "yaml_helper_get_scalar_uint32_value node =
     (case node of
        YAML_SCALAR_NODE s \<Rightarrow>
          (case c_strtol (cstr_of s) of
             Some (v, []) \<Rightarrow> if v \<ge> 0 \<and> v \<le> UINT32_MAX then Some (word_of_int v) else None
           | _ \<Rightarrow> None)
      | _ \<Rightarrow> None)"

section \<open>Paths of keys\<close>

text \<open>
  The reference: descending through nested mappings along a list of keys. A node that is not
  a mapping has no entries.
\<close>

definition mapping_entry :: "yaml_document \<Rightarrow> yaml_node \<Rightarrow> char list \<Rightarrow> yaml_node option" where
  "mapping_entry doc node key =
     (case node of
        YAML_MAPPING_NODE pairs \<Rightarrow> Option.bind (find_pair doc key pairs) doc
      | _ \<Rightarrow> None)"

fun lookup_keys :: "yaml_document \<Rightarrow> yaml_node \<Rightarrow> char list list \<Rightarrow> yaml_node option" where
  "lookup_keys doc node [] = Some node"
| "lookup_keys doc node (k # ks) =
     (case mapping_entry doc node k of None \<Rightarrow> None | Some n \<Rightarrow> lookup_keys doc n ks)"

text \<open>The path that names a list of keys.\<close>

fun key_path :: "char list list \<Rightarrow> cstr" where
  "key_path [] = []"
| "key_path [k] = k"
| "key_path (k # ks) = k @ ''.'' @ key_path ks"

definition key_ok :: "char list \<Rightarrow> bool" where
  "key_ok k \<longleftrightarrow> k \<noteq> [] \<and> list_all key_char k"

fun dotted :: "char list list \<Rightarrow> cstr" where
  "dotted [] = []"
| "dotted (k # ks) = CHR ''.'' # k @ dotted ks"

lemma key_path_dotted: "key_path (k # ks) = k @ dotted ks"
  by (induction ks arbitrary: k) auto

lemma dotted_end: "dotted ks = [] \<or> hd (dotted ks) = CHR ''.''"
  by (cases ks) auto

lemma takeWhile_key:
  assumes "key_ok k"
  shows "takeWhile key_char (k @ dotted ks) = k" "dropWhile key_char (k @ dotted ks) = dotted ks"
proof -
  have all: "\<forall>c \<in> set k. key_char c" using assms by (auto simp: key_ok_def list_all_iff)
  have stop: "takeWhile key_char (dotted ks) = []" "dropWhile key_char (dotted ks) = dotted ks"
    by (cases ks; simp)+
  show "takeWhile key_char (k @ dotted ks) = k" "dropWhile key_char (k @ dotted ks) = dotted ks"
    using all stop by (simp_all add: takeWhile_append dropWhile_append)
qed

lemma path_step_key:
  assumes "key_ok k"
  shows "path_step doc inner node ((if inner then ''.'' else []) @ k @ dotted ks) =
    map_option (\<lambda>n. (n, dotted ks)) (mapping_entry doc node k)"
proof -
  have ne: "k \<noteq> []" "hd k \<noteq> CHR ''[''" using assms by (cases k; simp add: key_ok_def)+
  then show ?thesis using takeWhile_key [OF assms, of ks]
    by (cases node) (auto simp: path_step_def mapping_entry_def Let_def split: option.splits)
qed

lemma mapping_entry_Some_mapping:
  "mapping_entry doc node k = Some n \<Longrightarrow> \<exists>ps. node = YAML_MAPPING_NODE ps"
  by (auto simp: mapping_entry_def split: yaml_node.splits)

lemma node_at_path_keys:
  "\<forall>k \<in> set ks. key_ok k \<Longrightarrow>
     node_at_path doc True (Some node) (dotted ks) = lookup_keys doc node ks"
proof (induction ks arbitrary: node)
  case Nil
  then show ?case by (simp add: node_at_path.simps)
next
  case (Cons k ks)
  have step: "path_step doc True node (dotted (k # ks)) =
      map_option (\<lambda>n. (n, dotted ks)) (mapping_entry doc node k)"
    using path_step_key [of k doc True node ks] Cons.prems by simp
  show ?case
    by (subst node_at_path.simps, cases "mapping_entry doc node k")
      (use step Cons in \<open>simp_all\<close>)
qed

lemma node_at_path_root:
  assumes "\<forall>k \<in> set (k # ks). key_ok k"
  shows "node_at_path doc False (Some node) (key_path (k # ks)) = lookup_keys doc node (k # ks)"
proof -
  have step: "path_step doc False node (k @ dotted ks) =
      map_option (\<lambda>n. (n, dotted ks)) (mapping_entry doc node k)"
    using path_step_key [of k doc False node ks] assms by simp
  have ne: "k \<noteq> []" using assms by (simp add: key_ok_def)
  show ?thesis
  proof (cases "mapping_entry doc node k")
    case None
    then show ?thesis using step ne unfolding key_path_dotted
      by (subst node_at_path.simps) simp
  next
    case (Some n)
    with mapping_entry_Some_mapping obtain ps where "node = YAML_MAPPING_NODE ps" by blast
    then show ?thesis using step ne Some assms node_at_path_keys [of ks doc n]
      unfolding key_path_dotted by (subst node_at_path.simps) simp
  qed
qed

section \<open>Sequences\<close>

lemma c_strtol_bracket: "c_strtol (CHR '']'' # s) = None"
  by (simp add: c_strtol_def cchar_simps scan_magnitude_def digit_in_base_def Let_def)

lemma path_step_sequence: "path_step doc inner (YAML_SEQUENCE_NODE items) path = None"
proof (cases "tl path")
  case Nil
  then show ?thesis by (simp add: path_step_def c_strtol_def Let_def)
next
  case (Cons c s)
  then show ?thesis
    by (cases "c = CHR '']''") (auto simp: path_step_def c_strtol_bracket Let_def split: option.splits)
qed

lemma path_step_consumes_no_bracket:
  assumes "path_step doc inner node path = Some (n, rest)" "CHR ''['' \<in> set path" "path \<noteq> []"
  shows "CHR ''['' \<in> set rest"
proof (cases node)
  case (YAML_MAPPING_NODE pairs)
  let ?p = "if inner then tl path else path"
  from assms(1) have r: "rest = dropWhile key_char ?p" "inner \<longrightarrow> hd path = CHR ''.''"
    using YAML_MAPPING_NODE
    by (auto simp: path_step_def Let_def split: option.splits if_splits)
  have "CHR ''['' \<in> set ?p" using r(2) assms(2,3) by (cases path) auto
  moreover have "CHR ''['' \<notin> set (takeWhile key_char ?p)" by (auto dest: set_takeWhileD)
  ultimately show ?thesis
    unfolding r(1) by (metis Un_iff set_append takeWhile_dropWhile_id)
qed (use assms path_step_sequence in \<open>auto simp: path_step_def\<close>)

lemma node_at_path_bracket:
  "CHR ''['' \<in> set path \<Longrightarrow> node_at_path doc inner node path = None"
proof (induction doc inner node path rule: node_at_path.induct)
  case (1 doc inner node path)
  show ?case
  proof (cases node)
    case None
    then show ?thesis by (simp add: node_at_path.simps)
  next
    case (Some n)
    have ne: "path \<noteq> []" using "1.prems" by auto
    show ?thesis
    proof (cases "path_step doc inner n path")
      case None
      then show ?thesis using Some ne by (subst node_at_path.simps) simp
    next
      case (Some q)
      obtain n' path' where q: "q = (n', path')" by (cases q)
      from Some q "1.prems" ne have "CHR ''['' \<in> set path'"
        by (auto intro: path_step_consumes_no_bracket)
      with "1.IH" [OF \<open>node = Some n\<close> ne Some q [symmetric]] \<open>node = Some n\<close> ne Some q
      show ?thesis by (subst node_at_path.simps) simp
    qed
  qed
qed

section \<open>Properties\<close>

text \<open>C38: A path of dot-separated keys, walked over the text of the path, is the successive
  lookup of the keys in nested mappings, the first pair with the key winning at each level; a
  missing key or a node that is not a mapping gives NULL. This is how both daemons read every
  item of their configuration.\<close>

theorem yaml_path_of_keys:
  assumes "ks \<noteq> []" "\<forall>k \<in> set ks. key_ok k"
  shows "yaml_helper_doc_node_at_path doc (Some node) (key_path ks) = lookup_keys doc node ks"
  using assms node_at_path_root [of "hd ks" "tl ks" doc node]
  by (cases ks) (simp_all add: yaml_helper_doc_node_at_path_def)

text \<open>A small document: \<open>pamd: {log-pool: 7}\<close>.\<close>

definition sample_doc :: yaml_document where
  "sample_doc i =
     (if i = 1 then Some (YAML_MAPPING_NODE [(2, 3)])
      else if i = 2 then Some (YAML_SCALAR_NODE ''pamd'')
      else if i = 3 then Some (YAML_MAPPING_NODE [(4, 5)])
      else if i = 4 then Some (YAML_SCALAR_NODE ''log-pool'')
      else if i = 5 then Some (YAML_SCALAR_NODE ''7'')
      else None)"

theorem yaml_path_of_keys_witness:
  "yaml_helper_doc_node_at_path sample_doc (Some (YAML_MAPPING_NODE [(2, 3)])) ''pamd.log-pool'' =
     Some (YAML_SCALAR_NODE ''7'')"
  using yaml_path_of_keys [of "[''pamd'', ''log-pool'']" sample_doc "YAML_MAPPING_NODE [(2, 3)]"]
  by (simp add: key_ok_def mapping_entry_def sample_doc_def)

text \<open>No path that contains an opening bracket resolves, on any document and from any
  node: the sequence case compares the closing bracket with the first character of the index
  instead of the character behind it. The header documents \<open>ipv4.addr[2]\<close> as the third item
  of the sequence.\<close>

theorem yaml_path_index_never_resolves:
  assumes "CHR ''['' \<in> set path"
  shows "yaml_helper_doc_node_at_path doc node path = None"
  using node_at_path_bracket [OF assms] by (simp add: yaml_helper_doc_node_at_path_def)

theorem yaml_path_index_never_resolves_witness:
  "yaml_helper_doc_node_at_path
     (\<lambda>i. if i = 1 then Some (YAML_SCALAR_NODE ''10.10.10.10'') else None)
     (Some (YAML_SEQUENCE_NODE [1])) ''[0]'' = None"
  by (rule yaml_path_index_never_resolves) simp

lemma cstr_of_show [simp]: "cstr_of (show_nat m) = show_nat m" "cstr_of (show_int i) = show_int i"
  by (auto simp: show_int_def intro!: cstr_of_no_nul)

lemma c_strtol_show_nat: "int n \<le> LONG_MAX \<Longrightarrow> c_strtol (show_nat n) = Some (int n, [])"
  using c_strtol_show_int [of "int n"] by (simp add: show_int_def)

lemma scalar_int_value_SomeD:
  "yaml_helper_get_scalar_int_value node = Some v \<Longrightarrow>
     INT_MIN \<le> v \<and> v \<le> INT_MAX \<and>
     (\<exists>s. node = YAML_SCALAR_NODE s \<and> c_strtol (cstr_of s) = Some (v, []))"
  by (auto simp: yaml_helper_get_scalar_int_value_def
      split: yaml_node.splits option.splits prod.splits list.splits if_splits)

text \<open>Reading an integer item: a scalar that is the decimal text of a number in the range of
  the C type yields exactly that number, and whatever node is accepted, it is a scalar whose
  whole text \<open>strtol\<close> converts to the value read, which lies in the range of \<open>int\<close>.\<close>

theorem yaml_scalar_numbers:
  assumes "INT_MIN \<le> i" "i \<le> INT_MAX" "n < 2 ^ 32"
  shows "yaml_helper_get_scalar_int_value (YAML_SCALAR_NODE (show_int i)) = Some i \<and>
    yaml_helper_get_scalar_uint32_value (YAML_SCALAR_NODE (show_nat n)) = Some (of_nat n) \<and>
    (\<forall>node v. yaml_helper_get_scalar_int_value node = Some v \<longrightarrow>
       INT_MIN \<le> v \<and> v \<le> INT_MAX \<and>
       (\<exists>s. node = YAML_SCALAR_NODE s \<and> c_strtol (cstr_of s) = Some (v, [])))"
proof -
  have "c_strtol (show_int i) = Some (i, [])" using assms by (intro c_strtol_show_int) auto
  then have 1: "yaml_helper_get_scalar_int_value (YAML_SCALAR_NODE (show_int i)) = Some i"
    using assms by (simp add: yaml_helper_get_scalar_int_value_def)
  have "c_strtol (show_nat n) = Some (int n, [])" using assms by (intro c_strtol_show_nat) simp
  then have 2: "yaml_helper_get_scalar_uint32_value (YAML_SCALAR_NODE (show_nat n)) = Some (of_nat n)"
    using assms by (simp add: yaml_helper_get_scalar_uint32_value_def)
  show ?thesis using 1 2 scalar_int_value_SomeD by blast
qed

theorem yaml_scalar_numbers_witness:
  "yaml_helper_get_scalar_int_value (YAML_SCALAR_NODE (show_int (-5))) = Some (-5) \<and>
   yaml_helper_get_scalar_uint32_value (YAML_SCALAR_NODE (show_nat 300)) = Some 300"
  using yaml_scalar_numbers [of "-5" 300] by simp

end
