(* ===== verification/Queue_Interface.thy ===== *)
theory Queue_Interface
  imports Prelude
begin

text \<open>
  What the threads of \<open>iptracking-pamd\<close> rely on when they share the event queue: an
  interface of a bounded FIFO queue whose operations may fail to get memory, and the
  behaviour of any sequence of operations under the laws. The provider is the queue of
  \<open>src/pam-daemon/log_queue.c\<close>.
\<close>

datatype ('m, 'a) queue_op = Offer 'm 'a | Take

text \<open>
  A sequence of operations on a queue: the final state, what was accepted and what was taken,
  in order.
\<close>

fun run_ops ::
  "('m \<Rightarrow> 's \<Rightarrow> 'a \<Rightarrow> (bool \<times> 's) option) \<Rightarrow> ('s \<Rightarrow> ('a option \<times> 's) option) \<Rightarrow>
     ('m, 'a) queue_op list \<Rightarrow> 's \<Rightarrow> ('s \<times> 'a list \<times> 'a list) option" where
  "run_ops offer poll [] s = Some (s, [], [])"
| "run_ops offer poll (Offer m x # ops) s =
     (case offer m s x of
        None \<Rightarrow> None
      | Some (ok, s') \<Rightarrow>
          (case run_ops offer poll ops s' of
             None \<Rightarrow> None
           | Some (s'', acc, tk) \<Rightarrow> Some (s'', (if ok then x # acc else acc), tk)))"
| "run_ops offer poll (Take # ops) s =
     (case poll s of
        None \<Rightarrow> None
      | Some (r, s') \<Rightarrow>
          (case run_ops offer poll ops s' of
             None \<Rightarrow> None
           | Some (s'', acc, tk) \<Rightarrow>
               Some (s'', acc, (case r of None \<Rightarrow> tk | Some y \<Rightarrow> y # tk))))"

locale bounded_queue =
  fixes inv :: "'s \<Rightarrow> bool"
    and contents :: "'s \<Rightarrow> 'a list"
    and capacity :: "'s \<Rightarrow> nat"
    and offer :: "'m \<Rightarrow> 's \<Rightarrow> 'a \<Rightarrow> (bool \<times> 's) option"
    and poll :: "'s \<Rightarrow> ('a option \<times> 's) option"
  assumes within_capacity: "inv s \<Longrightarrow> length (contents s) \<le> capacity s"
    and offer_law: "inv s \<Longrightarrow> \<exists>ok s'. offer m s x = Some (ok, s') \<and> inv s' \<and>
      capacity s' = capacity s \<and> contents s' = (if ok then contents s @ [x] else contents s)"
    and poll_law: "inv s \<Longrightarrow> \<exists>s'. poll s =
        Some (case contents s of [] \<Rightarrow> None | x # _ \<Rightarrow> Some x, s') \<and> inv s' \<and>
      capacity s' = capacity s \<and> contents s' = tl (contents s)"
begin

lemma offer_cases:
  assumes "inv s"
  obtains s' where "offer m s x = Some (True, s')" "inv s'" "capacity s' = capacity s"
      "contents s' = contents s @ [x]"
  | s' where "offer m s x = Some (False, s')" "inv s'" "capacity s' = capacity s"
      "contents s' = contents s"
  using offer_law [OF assms, of m x] by (auto split: if_splits)

lemma poll_empty:
  assumes "inv s" "contents s = []"
  obtains s' where "poll s = Some (None, s')" "inv s'" "capacity s' = capacity s" "contents s' = []"
  using poll_law [OF assms(1)] assms(2) by auto

lemma poll_Cons:
  assumes "inv s" "contents s = x # xs"
  obtains s' where "poll s = Some (Some x, s')" "inv s'" "capacity s' = capacity s" "contents s' = xs"
  using poll_law [OF assms(1)] assms(2) by auto

text \<open>
  First in, first out: what was in the queue followed by what was accepted is what was taken
  followed by what is left. No operation fails.
\<close>

theorem run_fifo:
  assumes "inv s"
  shows "\<exists>s' acc tk. run_ops offer poll ops s = Some (s', acc, tk) \<and> inv s' \<and>
    capacity s' = capacity s \<and> contents s @ acc = tk @ contents s'"
  using assms
proof (induction ops arbitrary: s)
  case (Cons op ops)
  show ?case
  proof (cases op)
    case (Offer m x)
    from Cons.prems show ?thesis
      by (cases rule: offer_cases [where m = m and x = x]) (use Cons.IH Offer in fastforce)+
  next
    case Take
    show ?thesis
    proof (cases "contents s")
      case Nil
      from poll_empty [OF Cons.prems Nil] obtain s' where
        "poll s = Some (None, s')" "inv s'" "capacity s' = capacity s" "contents s' = []" .
      with Cons.IH [of s'] Nil Take show ?thesis by auto
    next
      case (Cons y ys)
      from poll_Cons [OF Cons.prems Cons] obtain s' where
        "poll s = Some (Some y, s')" "inv s'" "capacity s' = capacity s" "contents s' = ys" .
      with Cons.IH [of s'] Cons Take show ?thesis by auto
    qed
  qed
qed simp

text \<open>At least as many takes as the queue ever held empty it, in order.\<close>

lemma run_drain:
  assumes "inv s" "length (contents s) \<le> n"
  shows "\<exists>s'. run_ops offer poll (replicate n Take) s = Some (s', [], contents s) \<and> inv s' \<and>
    contents s' = []"
  using assms
proof (induction n arbitrary: s)
  case (Suc n)
  show ?case
  proof (cases "contents s")
    case Nil
    from poll_empty [OF Suc.prems(1) Nil] obtain s' where
      "poll s = Some (None, s')" "inv s'" "capacity s' = capacity s" "contents s' = []" .
    with Suc.IH [of s'] Nil show ?thesis by auto
  next
    case (Cons y ys)
    from poll_Cons [OF Suc.prems(1) Cons] obtain s' where
      "poll s = Some (Some y, s')" "inv s'" "capacity s' = capacity s" "contents s' = ys" .
    with Suc.IH [of s'] Suc.prems(2) Cons show ?thesis by auto
  qed
qed simp

end

end
