(* ===== verification/Log_Queue.thy ===== *)
theory Log_Queue
  imports Prelude Log_Data "HOL-Library.Monad_Syntax"
begin

text \<open>
  \<open>src/pam-daemon/log_queue.c\<close> and \<open>log_queue.h\<close>: the event queue between the socket
  reader and the database thread. Records live in pools obtained with \<open>calloc\<close>; every record
  is linked either into the free chain or into the used chain, which is the queue.

  A record's address is the number of its pool's memory block and its index in the block. The
  heap maps the addresses of live records to their contents. An access through NULL or to a
  record that is not live, and a loop that does not return, is the outcome \<open>None\<close>; the
  results of \<open>calloc\<close> and \<open>realloc\<close> are inputs. The address of the queue itself is not part of
  the state: what a \<open>realloc\<close> that moves it does to a waiting thread is in the theory Pamd.
\<close>

section \<open>The state\<close>

datatype addr = Addr (addr_block: nat) (addr_index: nat)

record log_record =
  link :: "addr option"
  data :: log_data

record log_queue_params =
  records_min :: "32 word"
  records_max :: "32 word"
  records_delta :: "32 word"
  wait_min :: int
  wait_max :: int
  wait_delta :: int
  wait_grow_threshold :: int

record log_queue =
  params :: log_queue_params
  n_rec_free :: "32 word"
  n_rec_used :: "32 word"
  free_head :: "addr option"
  used_head :: "addr option"
  used_tail :: "addr option"
  n_rec_pools :: "32 word"
  rec_pools :: "nat list"
  heap :: "addr \<Rightarrow> log_record option"
  next_block :: nat

text \<open>The compiled-in defaults of \<open>src/libiptracking/CMakeLists.txt\<close>.\<close>

definition log_queue_default_params :: log_queue_params where
  "log_queue_default_params =
     \<lparr>records_min = 32, records_max = 0, records_delta = 32,
      wait_min = 5, wait_max = 600, wait_delta = 5, wait_grow_threshold = 4\<rparr>"

section \<open>Memory\<close>

definition set_link :: "addr \<Rightarrow> addr option \<Rightarrow> log_queue \<Rightarrow> log_queue option" where
  "set_link a l lq =
     (case heap lq a of
        None \<Rightarrow> None
      | Some r \<Rightarrow> Some (lq\<lparr>heap := (heap lq)(a \<mapsto> r\<lparr>link := l\<rparr>)\<rparr>))"

definition set_data :: "addr \<Rightarrow> log_data \<Rightarrow> log_queue \<Rightarrow> log_queue option" where
  "set_data a d lq =
     (case heap lq a of
        None \<Rightarrow> None
      | Some r \<Rightarrow> Some (lq\<lparr>heap := (heap lq)(a \<mapsto> r\<lparr>data := d\<rparr>)\<rparr>))"

definition log_record_zero :: log_record where
  "log_record_zero = \<lparr>link = None, data = log_data_zero\<rparr>"

text \<open>A fresh block of zeroed records.\<close>

definition log_record_create :: "bool \<Rightarrow> nat \<Rightarrow> log_queue \<Rightarrow> (nat \<times> log_queue) option" where
  "log_record_create calloc_ok n_records lq =
     (if calloc_ok
      then Some (next_block lq,
        lq\<lparr>heap := (\<lambda>a. if addr_block a = next_block lq
                        then (if addr_index a < n_records then Some log_record_zero else None)
                        else heap lq a),
           next_block := Suc (next_block lq)\<rparr>)
      else None)"

section \<open>Pools\<close>

text \<open>\<open>while ( n_records-- )\<close>: push the records of the pool on the free chain.\<close>

fun link_pool :: "nat \<Rightarrow> addr \<Rightarrow> log_queue \<Rightarrow> log_queue option" where
  "link_pool 0 p lq = Some lq"
| "link_pool (Suc n) p lq = do {
     lq' \<leftarrow> set_link p (free_head lq) lq;
     link_pool n (Addr (addr_block p) (Suc (addr_index p))) (lq'\<lparr>free_head := Some p\<rparr>)
   }"

text \<open>The inner \<open>None\<close> is the NULL the code returns when memory runs out.\<close>

definition log_queue_add_pool ::
  "bool \<Rightarrow> bool \<Rightarrow> log_queue \<Rightarrow> 32 word \<Rightarrow> log_queue option option" where
  "log_queue_add_pool calloc_ok realloc_ok lq n_records =
     (case log_record_create calloc_ok (unat n_records) lq of
        None \<Rightarrow> Some None
      | Some (next_pool, lq1) \<Rightarrow>
          if realloc_ok then do {
            lq2 \<leftarrow> link_pool (unat n_records) (Addr next_pool 0)
              (lq1\<lparr>rec_pools := rec_pools lq1 @ [next_pool],
                   n_rec_pools := n_rec_pools lq1 + 1,
                   n_rec_free := n_rec_free lq1 + n_records\<rparr>);
            Some (Some lq2)
          }
          else Some None)"

section \<open>Allocating and releasing a record\<close>

text \<open>How many records the next pool gets; \<open>None\<close> when the limit is reached.\<close>

definition grow_count :: "log_queue \<Rightarrow> 32 word option" where
  "grow_count lq =
     (if n_rec_pools lq = 0 then Some (records_min (params lq))
      else (let n = n_rec_free lq + n_rec_used lq;
                m = (if records_max (params lq) \<noteq> 0 then records_max (params lq) - n
                     else (- 1) - n)
            in if m = 0 then None
               else if m > records_delta (params lq) then Some (records_delta (params lq))
               else Some m))"

text \<open>Remove the head of the free chain and append it to the used chain.\<close>

definition take_free :: "log_queue \<Rightarrow> (addr \<times> log_queue) option" where
  "take_free lq = do {
     new_rec \<leftarrow> free_head lq;
     r \<leftarrow> heap lq new_rec;
     lq1 \<leftarrow> set_link new_rec None
              (lq\<lparr>free_head := link r, n_rec_free := n_rec_free lq - 1\<rparr>);
     lq2 \<leftarrow> (case used_tail lq1 of
               Some t \<Rightarrow> do {
                 l \<leftarrow> set_link t (Some new_rec) lq1;
                 Some (l\<lparr>used_tail := Some new_rec\<rparr>)
               }
             | None \<Rightarrow> Some (lq1\<lparr>used_head := Some new_rec, used_tail := Some new_rec\<rparr>));
     Some (new_rec, lq2\<lparr>n_rec_used := n_rec_used lq2 + 1\<rparr>)
   }"

text \<open>The record or NULL, \<open>*at_limit\<close>, and the queue.\<close>

definition log_queue_alloc_record ::
  "bool \<Rightarrow> bool \<Rightarrow> log_queue \<Rightarrow> (addr option \<times> bool \<times> log_queue) option" where
  "log_queue_alloc_record calloc_ok realloc_ok lq =
     (if n_rec_free lq = 0
      then (case grow_count lq of
              None \<Rightarrow> Some (None, True, lq)
            | Some n \<Rightarrow> do {
                grown \<leftarrow> log_queue_add_pool calloc_ok realloc_ok lq n;
                case grown of
                  None \<Rightarrow> Some (None, False, lq)
                | Some lq1 \<Rightarrow> do { (a, lq2) \<leftarrow> take_free lq1; Some (Some a, False, lq2) }
              })
      else do { (a, lq2) \<leftarrow> take_free lq; Some (Some a, False, lq2) })"

text \<open>
  The search for a record in the used chain: its predecessor and the record itself, or no
  record when the end of the chain is reached.
\<close>

partial_function (option) find_used ::
  "log_queue \<Rightarrow> addr \<Rightarrow> addr option \<Rightarrow> addr option \<Rightarrow> (addr option \<times> addr option) option" where
  "find_used lq old_rec cur_rec last_rec =
     (case cur_rec of
        None \<Rightarrow> Some (last_rec, None)
      | Some c \<Rightarrow>
          if c = old_rec then Some (last_rec, Some c)
          else (case heap lq c of None \<Rightarrow> None | Some r \<Rightarrow> find_used lq old_rec (link r) (Some c)))"

definition log_queue_dealloc_record :: "log_queue \<Rightarrow> addr \<Rightarrow> log_queue option" where
  "log_queue_dealloc_record lq old_rec = do {
     (last_rec, cur_rec) \<leftarrow> find_used lq old_rec (used_head lq) None;
     case cur_rec of
       None \<Rightarrow> Some lq
     | Some c \<Rightarrow> do {
         r \<leftarrow> heap lq c;
         lq1 \<leftarrow> (case last_rec of Some l \<Rightarrow> set_link l (link r) lq | None \<Rightarrow> Some lq);
         let lq2 = (if used_tail lq1 = Some c then lq1\<lparr>used_tail := last_rec\<rparr> else lq1);
         r' \<leftarrow> heap lq2 c;
         let lq3 = (if used_head lq2 = Some c then lq2\<lparr>used_head := link r'\<rparr> else lq2);
         lq4 \<leftarrow> set_link c (free_head lq3) lq3;
         Some (lq4\<lparr>free_head := Some c, n_rec_free := n_rec_free lq4 + 1,
                   n_rec_used := n_rec_used lq4 - 1\<rparr>)
       }
   }"

section \<open>The queue operations\<close>

definition log_queue_create :: "bool \<Rightarrow> log_queue_params option \<Rightarrow> log_queue option" where
  "log_queue_create malloc_ok ps =
     (if malloc_ok
      then Some \<lparr>params = (case ps of Some p \<Rightarrow> p | None \<Rightarrow> log_queue_default_params),
                 n_rec_free = 0, n_rec_used = 0, free_head = None, used_head = None,
                 used_tail = None, n_rec_pools = 0, rec_pools = [], heap = (\<lambda>_. None),
                 next_block = 0\<rparr>
      else None)"

text \<open>The heap that is left when the pools have been freed, the last one first.\<close>

fun free_pools :: "nat list \<Rightarrow> (addr \<Rightarrow> log_record option) \<Rightarrow> (addr \<Rightarrow> log_record option)" where
  "free_pools [] h = h"
| "free_pools (b # bs) h = free_pools bs (\<lambda>a. if addr_block a = b then None else h a)"

definition log_queue_destroy ::
  "log_queue option \<Rightarrow> log_queue option \<times> (addr \<Rightarrow> log_record option)" where
  "log_queue_destroy lq =
     (case lq of
        None \<Rightarrow> (None, \<lambda>_. None)
      | Some q \<Rightarrow> (None, free_pools (rev (take (unat (n_rec_pools q)) (rec_pools q))) (heap q)))"

text \<open>The wait before the next attempt and the number of waits since it last grew.\<close>

definition push_wait_next :: "log_queue_params \<Rightarrow> int \<times> int \<Rightarrow> int \<times> int" where
  "push_wait_next ps w =
     (case w of (wait_sec, n_waits) \<Rightarrow>
        if n_waits \<ge> wait_grow_threshold ps
        then (let wait_sec' = wait_sec + wait_delta ps
              in (if wait_sec' > wait_max ps then wait_max ps else wait_sec', 0))
        else (wait_sec, n_waits + 1))"

text \<open>
  One attempt of \<open>log_queue_push\<close> under the lock: the data is stored, or the limit is
  reached and the caller sleeps, or memory ran out and the caller gives up.
\<close>

datatype attempt = Stored | At_Limit | No_Memory

definition push_attempt ::
  "bool \<Rightarrow> bool \<Rightarrow> log_queue \<Rightarrow> log_data \<Rightarrow> (attempt \<times> log_queue) option" where
  "push_attempt calloc_ok realloc_ok lq d = do {
     (new_record, at_limit, lq1) \<leftarrow> log_queue_alloc_record calloc_ok realloc_ok lq;
     case new_record of
       Some a \<Rightarrow> do { lq2 \<leftarrow> set_data a d lq1; Some (Stored, lq2) }
     | None \<Rightarrow> Some (if at_limit then At_Limit else No_Memory, lq1)
   }"

text \<open>
  The whole call. Each round has the results of \<open>calloc\<close> and \<open>realloc\<close> of its attempt and
  what the other threads do to the queue while this one sleeps behind it. The result is the
  value returned (\<open>None\<close> when the rounds are used up and the call is still waiting), the
  sleeps taken and the queue.
\<close>

type_synonym push_round = "bool \<times> bool \<times> (log_queue \<Rightarrow> log_queue)"

fun push_loop ::
  "push_round list \<Rightarrow> log_data \<Rightarrow> int \<times> int \<Rightarrow> int list \<Rightarrow> log_queue \<Rightarrow>
     (bool option \<times> int list \<times> log_queue) option" where
  "push_loop [] d w sleeps lq = Some (None, sleeps, lq)"
| "push_loop ((calloc_ok, realloc_ok, others) # rounds) d w sleeps lq = do {
     (a, lq1) \<leftarrow> push_attempt calloc_ok realloc_ok lq d;
     case a of
       Stored \<Rightarrow> Some (Some True, sleeps, lq1)
     | No_Memory \<Rightarrow> Some (Some False, sleeps, lq1)
     | At_Limit \<Rightarrow>
         push_loop rounds d (push_wait_next (params lq1) w) (sleeps @ [fst w]) (others lq1)
   }"

definition log_queue_push ::
  "push_round list \<Rightarrow> log_queue \<Rightarrow> log_data \<Rightarrow> (bool option \<times> int list \<times> log_queue) option" where
  "log_queue_push rounds lq d = push_loop rounds d (wait_min (params lq), 1) [] lq"

text \<open>
  \<open>log_queue_pop\<close>: \<open>others\<close> is what happens to the queue while the caller waits on the
  condition variable, when it has to.
\<close>

definition log_queue_pop ::
  "(log_queue \<Rightarrow> log_queue) \<Rightarrow> log_queue \<Rightarrow> (log_data option \<times> log_queue) option" where
  "log_queue_pop others lq =
     (let lq1 = (if used_head lq = None then others lq else lq)
      in case used_head lq1 of
           None \<Rightarrow> Some (None, lq1)
         | Some a \<Rightarrow> do {
             r \<leftarrow> heap lq1 a;
             lq2 \<leftarrow> log_queue_dealloc_record lq1 a;
             Some (Some (data r), lq2)
           })"

text \<open>
  \<open>log_queue_summary\<close>: the lines it prints. \<open>%-15s\<close> and \<open>%15s\<close> pad to 15 characters; the text
  \<open>%p\<close> gives for the queue's address is an input. The relation signs are one UTF-8 character each.
\<close>

definition pad_right :: "nat \<Rightarrow> cstr \<Rightarrow> cstr" where
  "pad_right n s = s @ replicate (n - length s) CHR '' ''"

definition pad_left :: "nat \<Rightarrow> cstr \<Rightarrow> cstr" where
  "pad_left n s = replicate (n - length s) CHR '' '' @ s"

definition summary_line :: "log_data \<Rightarrow> cstr" where
  "summary_line d =
     ''        ['' @ cstr_of (log_date d) @ ''] '' @ pad_right 15 (cstr_of (dst_ipaddr d)) @ '' <= '' @
     pad_left 15 (cstr_of (src_ipaddr d)) @ '':'' @ show_nat (unat (src_port d)) @ '' ('' @ cstr_of (uid d) @ '')''"

definition summary_head :: "cstr \<Rightarrow> log_queue \<Rightarrow> cstr list" where
  "summary_head self lq =
     (let le = '' '' @ [CHR 0xE2, CHR 0x89, CHR 0xA4] @ '' ''
      in [''log_queue@'' @ self @ '' {'',
          ''    n_rec = '' @ show_nat (unat (n_rec_used lq)) @ '' / ('' @
            show_nat (unat (records_min (params lq))) @ le @
            show_nat (unat (n_rec_free lq + n_rec_used lq)) @ le @
            show_nat (unat (records_max (params lq))) @ '')'',
          ''    n_rec_pools = '' @ show_nat (unat (n_rec_pools lq)),
          ''    records = {''])"

partial_function (option) summary_walk ::
  "log_queue \<Rightarrow> addr option \<Rightarrow> cstr list \<Rightarrow> cstr list option" where
  "summary_walk lq lrp printed =
     (case lrp of
        None \<Rightarrow> Some printed
      | Some a \<Rightarrow>
          (case heap lq a of
             None \<Rightarrow> None
           | Some r \<Rightarrow> summary_walk lq (link r) (printed @ [summary_line (data r)])))"

definition log_queue_summary :: "cstr \<Rightarrow> log_queue \<Rightarrow> cstr list option" where
  "log_queue_summary self lq = do {
     printed \<leftarrow> summary_walk lq (used_head lq) (summary_head self lq);
     Some (printed @ [''}''])
   }"

end
