(* ===== verification/Log_Queue_Correct.thy ===== *)
theory Log_Queue_Correct
  imports Log_Queue Queue_Interface
begin

text \<open>
  The event queue is a FIFO queue. The free and the used chain of the heap are related to two
  lists of addresses that share the live records between them; every operation is shown to
  keep that relation and to act on the queue's contents as an operation on a list does. The
  interface of a bounded queue is a locale, interpreted on the operations of the code.
\<close>

section \<open>Chains in the heap\<close>

fun chain :: "(addr \<Rightarrow> log_record option) \<Rightarrow> addr option \<Rightarrow> addr list \<Rightarrow> bool" where
  "chain h p [] \<longleftrightarrow> p = None"
| "chain h p (a # as) \<longleftrightarrow>
     p = Some a \<and> (case h a of None \<Rightarrow> False | Some r \<Rightarrow> chain h (link r) as)"

lemma chain_None [simp]: "chain h None as \<longleftrightarrow> as = []"
  by (cases as) auto

lemma chain_ConsE:
  assumes "chain h p (a # as)"
  obtains r where "p = Some a" "h a = Some r" "chain h (link r) as"
  using assms by (auto split: option.splits)

lemma chain_dom: "chain h p as \<Longrightarrow> set as \<subseteq> dom h"
  by (induction as arbitrary: p) (auto split: option.splits)

lemma chain_frame [simp]: "a \<notin> set as \<Longrightarrow> chain (h(a \<mapsto> r)) p as = chain h p as"
  by (induction as arbitrary: p) (auto split: option.splits)

lemma chain_cong: "chain h p as \<Longrightarrow> (\<And>a. a \<in> set as \<Longrightarrow> h' a = h a) \<Longrightarrow> chain h' p as"
  by (induction as arbitrary: p) (auto split: option.splits)

text \<open>Only the links matter: contents may be overwritten.\<close>

lemma chain_same_links:
  "chain h p as \<Longrightarrow> (\<And>a. a \<in> set as \<Longrightarrow> map_option link (h' a) = map_option link (h a)) \<Longrightarrow>
     chain h' p as"
proof (induction as arbitrary: p)
  case (Cons a as)
  from Cons.prems(1) obtain r where r: "p = Some a" "h a = Some r" "chain h (link r) as"
    by (rule chain_ConsE)
  from Cons.prems(2) [of a] r(2) obtain r' where "h' a = Some r'" "link r' = link r" by auto
  with r Cons show ?case by simp
qed simp

lemma chain_set_data:
  "h a = Some r \<Longrightarrow> chain (h(a \<mapsto> r\<lparr>data := d\<rparr>)) p as = chain h p as"
  by (auto elim!: chain_same_links)

lemma chain_snoc:
  assumes "chain h p (xs @ [t])" "distinct (xs @ [t])" "h t = Some rt"
    "h n = Some rn" "link rn = None" "n \<notin> set (xs @ [t])"
  shows "chain (h(t \<mapsto> rt\<lparr>link := Some n\<rparr>)) p (xs @ [t, n])"
  using assms(1,2,6)
proof (induction xs arbitrary: p)
  let ?h = "h(t \<mapsto> rt\<lparr>link := Some n\<rparr>)"
  case Nil
  then have "p = Some t" "n \<noteq> t" by auto
  then show "chain ?h p ([] @ [t, n])" using assms(4,5) by simp
next
  let ?h = "h(t \<mapsto> rt\<lparr>link := Some n\<rparr>)"
  case (Cons x xs)
  from Cons.prems(1) obtain r where r: "h x = Some r" "chain h (link r) (xs @ [t])" "p = Some x"
    unfolding append_Cons by (rule chain_ConsE)
  have "chain ?h (link r) (xs @ [t, n])" using r(2) Cons.prems by (intro Cons.IH) auto
  moreover have "x \<noteq> t" using Cons.prems by auto
  ultimately show "chain ?h p ((x # xs) @ [t, n])" using r by simp
qed

lemma chain_unlink:
  assumes "chain h p (xs @ l # c # ys)" "distinct (xs @ l # c # ys)"
    "h l = Some rl" "h c = Some rc"
  shows "chain (h(l \<mapsto> rl\<lparr>link := link rc\<rparr>)) p (xs @ l # ys)"
  using assms(1,2)
proof (induction xs arbitrary: p)
  let ?h = "h(l \<mapsto> rl\<lparr>link := link rc\<rparr>)"
  case Nil
  then have "p = Some l" "chain h (link rc) ys" "l \<notin> set ys" using assms(3,4) by auto
  then show "chain ?h p ([] @ l # ys)" by simp
next
  let ?h = "h(l \<mapsto> rl\<lparr>link := link rc\<rparr>)"
  case (Cons x xs)
  from Cons.prems(1) obtain r where r: "h x = Some r" "chain h (link r) (xs @ l # c # ys)" "p = Some x"
    unfolding append_Cons by (rule chain_ConsE)
  have "chain ?h (link r) (xs @ l # ys)" using r(2) Cons.prems by (intro Cons.IH) auto
  moreover have "x \<noteq> l" using Cons.prems by auto
  ultimately show "chain ?h p ((x # xs) @ l # ys)" using r by simp
qed

section \<open>The invariant\<close>

text \<open>
  Parameters the queue works with: the first pool and every later one get at least one
  record, and the first pool is within the limit.
\<close>

definition params_ok :: "log_queue_params \<Rightarrow> bool" where
  "params_ok ps \<longleftrightarrow> records_min ps \<noteq> 0 \<and> records_delta ps \<noteq> 0 \<and>
     (records_max ps \<noteq> 0 \<longrightarrow> records_min ps \<le> records_max ps)"

text \<open>The largest number of records; \<open>records.max = 0\<close> leaves only the counter's range.\<close>

definition records_limit :: "log_queue_params \<Rightarrow> nat" where
  "records_limit ps = (if records_max ps = 0 then 2 ^ 32 - 1 else unat (records_max ps))"

definition lq_rel :: "log_queue \<Rightarrow> addr list \<Rightarrow> addr list \<Rightarrow> bool" where
  "lq_rel lq fs us \<longleftrightarrow>
     chain (heap lq) (free_head lq) fs \<and> chain (heap lq) (used_head lq) us \<and>
     used_tail lq = (if us = [] then None else Some (last us)) \<and>
     distinct (fs @ us) \<and> dom (heap lq) = set (fs @ us) \<and>
     n_rec_free lq = of_nat (length fs) \<and> n_rec_used lq = of_nat (length us) \<and>
     length fs + length us \<le> records_limit (params lq) \<and>
     n_rec_pools lq = of_nat (length (rec_pools lq)) \<and>
     length (rec_pools lq) \<le> length fs + length us \<and>
     (\<forall>a \<in> dom (heap lq). addr_block a \<in> set (rec_pools lq)) \<and>
     (\<forall>b \<in> set (rec_pools lq). b < next_block lq)"

definition lq_inv :: "log_queue \<Rightarrow> bool" where
  "lq_inv lq \<longleftrightarrow> params_ok (params lq) \<and> (\<exists>fs us. lq_rel lq fs us)"

text \<open>The contents of the queue: the data along the used chain.\<close>

fun walk :: "nat \<Rightarrow> (addr \<Rightarrow> log_record option) \<Rightarrow> addr option \<Rightarrow> log_data list" where
  "walk 0 h p = []"
| "walk (Suc n) h None = []"
| "walk (Suc n) h (Some a) = (case h a of None \<Rightarrow> [] | Some r \<Rightarrow> data r # walk n h (link r))"

definition lq_abs :: "log_queue \<Rightarrow> log_data list" where
  "lq_abs lq = walk (unat (n_rec_used lq)) (heap lq) (used_head lq)"

definition data_at :: "log_queue \<Rightarrow> addr \<Rightarrow> log_data option" where
  "data_at lq a = map_option data (heap lq a)"

lemma records_limit_bound: "records_limit ps < 2 ^ 32"
  using unat_less_32 [of "records_max ps"] by (simp add: records_limit_def)

lemma walk_chain: "chain h p as \<Longrightarrow> walk (length as) h p = map (\<lambda>a. data (the (h a))) as"
  by (induction as arbitrary: p) (auto split: option.splits)

lemma lq_abs_rel:
  assumes "lq_rel lq fs us"
  shows "map Some (lq_abs lq) = map (data_at lq) us"
proof -
  have "length us < 2 ^ 32"
    using assms records_limit_bound [of "params lq"] by (simp add: lq_rel_def)
  then have "unat (n_rec_used lq) = length us"
    using assms by (simp add: lq_rel_def unat_of_nat_small)
  moreover have c: "chain (heap lq) (used_head lq) us" using assms by (simp add: lq_rel_def)
  ultimately have "lq_abs lq = map (\<lambda>a. data (the (heap lq a))) us"
    by (simp add: lq_abs_def walk_chain)
  moreover have "data_at lq a = Some (data (the (heap lq a)))" if "a \<in> set us" for a
    using chain_dom [OF c] that by (auto simp: data_at_def)
  ultimately show ?thesis by simp
qed

lemma lq_abs_unique: "lq_rel lq fs us \<Longrightarrow> map Some ds = map (data_at lq) us \<Longrightarrow> lq_abs lq = ds"
  using lq_abs_rel [of lq fs us] by (metis inj_Some inj_map_eq_map)

lemma length_lq_abs: "lq_rel lq fs us \<Longrightarrow> length (lq_abs lq) = length us"
  using lq_abs_rel [of lq fs us] by (metis length_map)

section \<open>Taking a free record\<close>

lemma set_link_simps:
  "set_link a l lq = Some lq' \<longleftrightarrow>
     (\<exists>r. heap lq a = Some r \<and> lq' = lq\<lparr>heap := (heap lq)(a \<mapsto> r\<lparr>link := l\<rparr>)\<rparr>)"
  by (auto simp: set_link_def split: option.splits)

lemma take_free_rel:
  assumes "lq_rel lq (a # fs) us"
  shows "\<exists>lq'. take_free lq = Some (a, lq') \<and> lq_rel lq' fs (us @ [a]) \<and>
    params lq' = params lq \<and> data_at lq' = data_at lq"
proof -
  let ?h = "heap lq"
  from assms obtain r where fh: "free_head lq = Some a" "?h a = Some r" "chain ?h (link r) fs"
    by (auto simp: lq_rel_def split: option.splits)
  let ?h1 = "?h(a \<mapsto> r\<lparr>link := None\<rparr>)"
  have nin: "a \<notin> set fs" "a \<notin> set us" using assms by (auto simp: lq_rel_def)
  have us: "chain ?h (used_head lq) us" using assms by (simp add: lq_rel_def)
  have cnt: "n_rec_free lq - 1 = of_nat (length fs)"
    using assms by (simp add: lq_rel_def)
  show ?thesis
  proof (cases "us = []")
    case True
    then have t: "used_tail lq = None" using assms by (simp add: lq_rel_def)
    show ?thesis using fh t True nin cnt assms
      by (auto simp: take_free_def set_link_def lq_rel_def data_at_def)
  next
    case False
    then obtain xs t where u: "us = xs @ [t]" by (cases us rule: rev_cases) auto
    then have t: "used_tail lq = Some t" using assms by (simp add: lq_rel_def)
    obtain rt where rt: "?h t = Some rt" using chain_dom [OF us] u by auto
    have ne: "t \<noteq> a" using nin u by auto
    let ?h2 = "?h1(t \<mapsto> rt\<lparr>link := Some a\<rparr>)"
    have tf: "take_free lq = Some (a, lq\<lparr>free_head := link r, n_rec_free := n_rec_free lq - 1,
        heap := ?h2, used_tail := Some a, n_rec_used := n_rec_used lq + 1\<rparr>)"
      using fh t rt ne by (simp add: take_free_def set_link_def)
    have dist: "distinct us" using assms by (simp add: lq_rel_def)
    have "chain ?h1 (used_head lq) (xs @ [t])" using us u nin by simp
    then have "chain ?h2 (used_head lq) (xs @ [t, a])"
      by (rule chain_snoc) (use dist u rt ne nin in auto)
    moreover have "chain ?h2 (link r) fs"
      using fh nin assms u by (auto simp: lq_rel_def)
    ultimately show ?thesis using tf fh rt ne cnt assms u
      by (auto simp: lq_rel_def data_at_def)
  qed
qed

section \<open>Adding a pool\<close>

lemma link_pool_chain:
  assumes "chain (heap lq) (free_head lq) fs"
    "\<And>j. j < n \<Longrightarrow> Addr b (i + j) \<in> dom (heap lq)" "\<And>j. j < n \<Longrightarrow> Addr b (i + j) \<notin> set fs"
  shows "\<exists>h f. link_pool n (Addr b i) lq = Some (lq\<lparr>heap := h, free_head := f\<rparr>) \<and>
    chain h f (rev (map (\<lambda>j. Addr b (i + j)) [0..<n]) @ fs) \<and> dom h = dom (heap lq) \<and>
    (\<forall>a. addr_block a \<noteq> b \<longrightarrow> h a = heap lq a) \<and>
    (\<forall>a. map_option data (h a) = map_option data (heap lq a))"
  using assms
proof (induction n arbitrary: i lq fs)
  case 0
  then show ?case by (intro exI [of _ "heap lq"] exI [of _ "free_head lq"]) simp
next
  case (Suc n)
  let ?a = "Addr b i"
  obtain r where r: "heap lq ?a = Some r" using Suc.prems(2) [of 0] by auto
  let ?h1 = "(heap lq)(?a \<mapsto> r\<lparr>link := free_head lq\<rparr>)"
  let ?lq1 = "lq\<lparr>heap := ?h1, free_head := Some ?a\<rparr>"
  have nin: "?a \<notin> set fs" using Suc.prems(3) [of 0] by simp
  have idx: "[0..<Suc n] = 0 # map Suc [0..<n]" by (simp add: upt_conv_Cons map_Suc_upt)
  have "\<exists>h f. link_pool n (Addr b (Suc i)) ?lq1 = Some (?lq1\<lparr>heap := h, free_head := f\<rparr>) \<and>
    chain h f (rev (map (\<lambda>j. Addr b (Suc i + j)) [0..<n]) @ ?a # fs) \<and> dom h = dom (heap ?lq1) \<and>
    (\<forall>a. addr_block a \<noteq> b \<longrightarrow> h a = heap ?lq1 a) \<and>
    (\<forall>a. map_option data (h a) = map_option data (heap ?lq1 a))"
  proof (rule Suc.IH)
    show "chain (heap ?lq1) (free_head ?lq1) (?a # fs)" using Suc.prems(1) nin by simp
    show "Addr b (Suc i + j) \<in> dom (heap ?lq1)" if "j < n" for j
      using Suc.prems(2) [of "Suc j"] that by auto
    show "Addr b (Suc i + j) \<notin> set (?a # fs)" if "j < n" for j
      using Suc.prems(3) [of "Suc j"] that by auto
  qed
  then obtain h f where IH: "link_pool n (Addr b (Suc i)) ?lq1 = Some (lq\<lparr>heap := h, free_head := f\<rparr>)"
    "chain h f (rev (map (\<lambda>j. Addr b (Suc i + j)) [0..<n]) @ ?a # fs)"
    "dom h = dom ?h1" "\<forall>a. addr_block a \<noteq> b \<longrightarrow> h a = ?h1 a"
    "\<forall>a. map_option data (h a) = map_option data (?h1 a)"
    by auto
  have "link_pool (Suc n) ?a lq = Some (lq\<lparr>heap := h, free_head := f\<rparr>)"
    using r IH(1) by (simp add: set_link_def)
  moreover have "chain h f (rev (map (\<lambda>j. Addr b (i + j)) [0..<Suc n]) @ fs)"
    using IH(2) by (simp add: idx comp_def del: upt_Suc)
  moreover have "dom h = dom (heap lq)" using IH(3) r by auto
  moreover have "\<forall>a. addr_block a \<noteq> b \<longrightarrow> h a = heap lq a" using IH(4) by auto
  moreover have "\<forall>a. map_option data (h a) = map_option data (heap lq a)" using IH(5) r by auto
  ultimately show ?case by (intro exI [of _ h] exI [of _ f]) blast
qed

lemma add_pool_rel:
  assumes rel: "lq_rel lq [] us" and k: "0 < unat n"
    and lim: "length us + unat n \<le> records_limit (params lq)"
  shows "\<exists>lq' fs. log_queue_add_pool True True lq n = Some (Some lq') \<and> length fs = unat n \<and>
    lq_rel lq' fs us \<and> params lq' = params lq \<and>
    (\<forall>a \<in> dom (heap lq). data_at lq' a = data_at lq a)"
proof -
  let ?b = "next_block lq"
  let ?k = "unat n"
  let ?h = "\<lambda>a. if addr_block a = ?b then (if addr_index a < ?k then Some log_record_zero else None)
                else heap lq a"
  let ?lq1 = "lq\<lparr>heap := ?h, next_block := Suc ?b, rec_pools := rec_pools lq @ [?b],
                 n_rec_pools := n_rec_pools lq + 1, n_rec_free := n_rec_free lq + n\<rparr>"
  let ?fs = "rev (map (\<lambda>j. Addr ?b (0 + j)) [0..<?k])"
  have dom: "dom (heap lq) = set us" using rel by (simp add: lq_rel_def)
  have us_old: "addr_block a \<noteq> ?b" if "a \<in> set us" for a
    using that rel dom unfolding lq_rel_def by force
  have "\<exists>h f. link_pool ?k (Addr ?b 0) ?lq1 = Some (?lq1\<lparr>heap := h, free_head := f\<rparr>) \<and>
    chain h f (?fs @ []) \<and> dom h = dom (heap ?lq1) \<and>
    (\<forall>a. addr_block a \<noteq> ?b \<longrightarrow> h a = heap ?lq1 a) \<and>
    (\<forall>a. map_option data (h a) = map_option data (heap ?lq1 a))"
    by (rule link_pool_chain) (use rel in \<open>auto simp: lq_rel_def\<close>)
  then obtain h f where lp: "link_pool ?k (Addr ?b 0) ?lq1 = Some (?lq1\<lparr>heap := h, free_head := f\<rparr>)"
    "chain h f ?fs" "dom h = dom ?h" "\<forall>a. addr_block a \<noteq> ?b \<longrightarrow> h a = heap lq a"
    "\<forall>a. map_option data (h a) = map_option data (?h a)"
    by auto
  let ?lq' = "?lq1\<lparr>heap := h, free_head := f\<rparr>"
  have add: "log_queue_add_pool True True lq n = Some (Some ?lq')"
    using lp(1) by (simp add: log_queue_add_pool_def log_record_create_def)
  have set_fs: "set ?fs = {a. addr_block a = ?b \<and> addr_index a < ?k}"
    by (force simp: image_iff intro: addr.expand)
  have dom_new: "dom h = set (?fs @ us)"
  proof (rule set_eqI)
    fix a
    have "heap lq a \<noteq> None \<longleftrightarrow> a \<in> set us" using dom by blast
    then show "a \<in> dom h \<longleftrightarrow> a \<in> set (?fs @ us)"
      unfolding lp(3) set_append set_fs using us_old [of a] by (auto simp: dom_def)
  qed
  have "lq_rel ?lq' ?fs us"
    unfolding lq_rel_def
  proof (intro conjI)
    show "chain (heap ?lq') (free_head ?lq') ?fs" using lp(2) by simp
    show "chain (heap ?lq') (used_head ?lq') us"
      using rel lp(4) us_old by (auto simp: lq_rel_def elim!: chain_cong)
    show "used_tail ?lq' = (if us = [] then None else Some (last us))"
      using rel by (simp add: lq_rel_def)
    have "distinct ?fs" by (simp add: distinct_map inj_on_def)
    moreover have "set ?fs \<inter> set us = {}" unfolding set_fs using us_old by auto
    ultimately show "distinct (?fs @ us)" using rel by (simp add: lq_rel_def)
    show "dom (heap ?lq') = set (?fs @ us)" using dom_new by simp
    show "n_rec_free ?lq' = of_nat (length ?fs)" using rel by (simp add: lq_rel_def)
    show "n_rec_used ?lq' = of_nat (length us)" using rel by (simp add: lq_rel_def)
    show "length ?fs + length us \<le> records_limit (params ?lq')" using lim by simp
    show "n_rec_pools ?lq' = of_nat (length (rec_pools ?lq'))" using rel by (simp add: lq_rel_def)
    show "length (rec_pools ?lq') \<le> length ?fs + length us" using rel k by (simp add: lq_rel_def)
    show "\<forall>a \<in> dom (heap ?lq'). addr_block a \<in> set (rec_pools ?lq')"
    proof
      fix a assume "a \<in> dom (heap ?lq')"
      then have "addr_block a = ?b \<or> a \<in> dom (heap lq)" using lp(3) by (auto split: if_splits)
      then show "addr_block a \<in> set (rec_pools ?lq')" using rel by (auto simp: lq_rel_def)
    qed
    show "\<forall>b \<in> set (rec_pools ?lq'). b < next_block ?lq'"
      using rel by (auto simp: lq_rel_def less_Suc_eq)
  qed
  moreover have "data_at ?lq' a = data_at lq a" if "a \<in> dom (heap lq)" for a
    using that us_old dom lp(4) by (auto simp: data_at_def)
  ultimately show ?thesis using add by (intro exI [of _ ?lq'] exI [of _ ?fs]) simp
qed

section \<open>Allocating a record\<close>

lemma rel_counts:
  assumes "lq_rel lq fs us"
  shows "unat (n_rec_free lq) = length fs" "unat (n_rec_used lq) = length us"
    "unat (n_rec_pools lq) = length (rec_pools lq)"
  using assms records_limit_bound [of "params lq"] by (simp_all add: lq_rel_def unat_of_nat_small)

lemma rel_no_pool:
  assumes "lq_rel lq fs us" "n_rec_pools lq = 0" shows "us = []"
proof -
  have "length (rec_pools lq) = 0" using rel_counts(3) [OF assms(1)] assms(2) by simp
  then have "dom (heap lq) = {}" using assms(1) by (force simp: lq_rel_def)
  then show ?thesis using assms(1) by (simp add: lq_rel_def)
qed

lemma records_limit_pos: "params_ok ps \<Longrightarrow> 0 < records_limit ps"
  by (auto simp: records_limit_def unat_gt_0)

lemma records_min_le:
  assumes "params_ok ps" shows "unat (records_min ps) \<le> records_limit ps"
proof (cases "records_max ps = 0")
  case True
  have "unat (records_min ps) \<le> 2 ^ 32 - 1"
    using unat_less_32 [of "records_min ps"] by linarith
  with True show ?thesis by (simp add: records_limit_def)
next
  case False
  with assms show ?thesis by (simp add: params_ok_def records_limit_def word_le_nat_alt)
qed

lemma room_unat:
  assumes "k \<le> records_limit ps"
  shows "unat ((if records_max ps \<noteq> 0 then records_max ps - of_nat k else - 1 - of_nat k) :: 32 word)
    = records_limit ps - k"
proof -
  have k: "unat (of_nat k :: 32 word) = k"
    using assms records_limit_bound [of ps] by (simp add: unat_of_nat_small)
  have "unat (- 1 :: 32 word) = 2 ^ 32 - 1" by (simp add: unsigned_minus_1_eq_mask mask_eq_exp_minus_1)
  then show ?thesis
    using assms k by (auto simp: records_limit_def unat_sub word_le_nat_alt)
qed

lemma grow_count_rel:
  assumes rel: "lq_rel lq [] us" and ps: "params_ok (params lq)"
  shows "length us = records_limit (params lq) \<Longrightarrow> grow_count lq = None"
    "length us < records_limit (params lq) \<Longrightarrow>
       \<exists>n. grow_count lq = Some n \<and> 0 < unat n \<and> length us + unat n \<le> records_limit (params lq)"
proof -
  let ?ps = "params lq"
  let ?m = "if records_max ?ps \<noteq> 0 then records_max ?ps - of_nat (length us)
            else - 1 - of_nat (length us)"
  have le: "length us \<le> records_limit ?ps" using rel by (simp add: lq_rel_def)
  have m: "unat ?m = records_limit ?ps - length us" by (rule room_unat [OF le])
  have n: "n_rec_free lq + n_rec_used lq = of_nat (length us)" using rel by (simp add: lq_rel_def)
  have gc: "grow_count lq = (if n_rec_pools lq = 0 then Some (records_min ?ps)
      else if ?m = 0 then None
      else if ?m > records_delta ?ps then Some (records_delta ?ps) else Some ?m)"
    unfolding grow_count_def n Let_def by simp
  {
    assume "length us = records_limit ?ps"
    moreover from this have "n_rec_pools lq \<noteq> 0"
      using rel_no_pool [OF rel] records_limit_pos [OF ps] by fastforce
    ultimately show "grow_count lq = None" using m unfolding gc by (simp add: unat_eq_0 del: if_split)
  next
    assume l: "length us < records_limit ?ps"
    show "\<exists>n. grow_count lq = Some n \<and> 0 < unat n \<and> length us + unat n \<le> records_limit ?ps"
    proof (cases "n_rec_pools lq = 0")
      case True
      then have "us = []" by (rule rel_no_pool [OF rel])
      moreover have "unat (records_min ?ps) \<le> records_limit ?ps" by (rule records_min_le [OF ps])
      moreover have "0 < unat (records_min ?ps)" using ps by (simp add: params_ok_def unat_gt_0)
      moreover have "grow_count lq = Some (records_min ?ps)" using True unfolding gc by (rule if_P)
      ultimately show ?thesis by (metis add_0 list.size(3))
    next
      case False
      have "unat ?m \<noteq> 0" using m l by simp
      then have "?m \<noteq> 0" by (rule unat_nonzero)
      have d: "0 < unat (records_delta ?ps)" using ps by (simp add: params_ok_def unat_gt_0)
      show ?thesis
      proof (cases "?m > records_delta ?ps")
        case True
        have "grow_count lq = Some (records_delta ?ps)"
          unfolding gc if_not_P [OF False] if_not_P [OF \<open>?m \<noteq> 0\<close>] by (rule if_P [OF True])
        moreover from True have "unat (records_delta ?ps) < unat ?m" by (simp only: word_less_nat_alt)
        moreover have "length us + unat (records_delta ?ps) \<le> records_limit ?ps"
          using m l calculation(2) by linarith
        ultimately show ?thesis using d by blast
      next
        case le: False
        have "grow_count lq = Some ?m"
          unfolding gc if_not_P [OF False] if_not_P [OF \<open>?m \<noteq> 0\<close>] by (rule if_not_P [OF le])
        moreover have "0 < unat ?m \<and> length us + unat ?m \<le> records_limit ?ps"
          using m l by linarith
        ultimately show ?thesis by blast
      qed
    qed
  }
qed

text \<open>What one call of the allocator does, by the state of the two chains and of memory.\<close>

lemma alloc_record_free:
  assumes "lq_rel lq (a # fs) us"
  shows "\<exists>lq'. log_queue_alloc_record c r lq = Some (Some a, False, lq') \<and>
    lq_rel lq' fs (us @ [a]) \<and> params lq' = params lq \<and> data_at lq' = data_at lq"
proof -
  have "n_rec_free lq \<noteq> 0" using rel_counts(1) [OF assms] by auto
  with take_free_rel [OF assms] show ?thesis by (auto simp: log_queue_alloc_record_def)
qed

lemma alloc_record_limit:
  assumes "lq_rel lq [] us" "params_ok (params lq)" "length us = records_limit (params lq)"
  shows "log_queue_alloc_record c r lq = Some (None, True, lq)"
  using assms grow_count_rel(1) [OF assms]
  by (simp add: log_queue_alloc_record_def lq_rel_def)

lemma alloc_record_no_memory:
  assumes "lq_rel lq [] us" "params_ok (params lq)" "length us < records_limit (params lq)" "\<not> (c \<and> r)"
  shows "log_queue_alloc_record c r lq = Some (None, False, lq)"
  using assms grow_count_rel(2) [OF assms(1-3)]
  by (auto simp: log_queue_alloc_record_def lq_rel_def log_queue_add_pool_def log_record_create_def)

lemma alloc_record_grow:
  assumes "lq_rel lq [] us" "params_ok (params lq)" "length us < records_limit (params lq)"
  shows "\<exists>a fs lq'. log_queue_alloc_record True True lq = Some (Some a, False, lq') \<and>
    lq_rel lq' fs (us @ [a]) \<and> params lq' = params lq \<and>
    (\<forall>b \<in> dom (heap lq). data_at lq' b = data_at lq b)"
proof -
  obtain n where n: "grow_count lq = Some n" "0 < unat n"
    "length us + unat n \<le> records_limit (params lq)"
    using grow_count_rel(2) [OF assms] by auto
  obtain lq1 fs where g: "log_queue_add_pool True True lq n = Some (Some lq1)" "length fs = unat n"
    "lq_rel lq1 fs us" "params lq1 = params lq" "\<forall>b \<in> dom (heap lq). data_at lq1 b = data_at lq b"
    using add_pool_rel [OF assms(1) n(2,3)] by auto
  from g(2) n(2) obtain a fs' where f: "fs = a # fs'" by (cases fs) auto
  from take_free_rel [OF g(3) [unfolded f]] obtain lq2 where
    t: "take_free lq1 = Some (a, lq2)" "lq_rel lq2 fs' (us @ [a])" "params lq2 = params lq1"
    "data_at lq2 = data_at lq1" by auto
  have "n_rec_free lq = 0" using assms(1) by (simp add: lq_rel_def)
  with n(1) g t show ?thesis
    by (intro exI [of _ a] exI [of _ fs'] exI [of _ lq2]) (simp add: log_queue_alloc_record_def)
qed

section \<open>Releasing a record\<close>

lemma find_used_chain:
  "chain (heap lq) p (xs @ old # ys) \<Longrightarrow> old \<notin> set xs \<Longrightarrow>
     find_used lq old p l = Some (if xs = [] then l else Some (last xs), Some old)"
proof (induction xs arbitrary: p l)
  case Nil
  then show ?case by (subst find_used.simps) (auto split: option.splits)
next
  case (Cons x xs)
  then obtain r where "p = Some x" "heap lq x = Some r" "chain (heap lq) (link r) (xs @ old # ys)"
    by (auto split: option.splits)
  with Cons show ?case by (subst find_used.simps) auto
qed

lemma find_used_absent:
  "chain (heap lq) p us \<Longrightarrow> old \<notin> set us \<Longrightarrow> \<exists>l'. find_used lq old p l = Some (l', None)"
proof (induction us arbitrary: p l)
  case Nil
  then show ?case by (subst find_used.simps) auto
next
  case (Cons x us)
  then obtain r where "p = Some x" "heap lq x = Some r" "chain (heap lq) (link r) us"
    by (auto split: option.splits)
  with Cons show ?case by (subst find_used.simps) auto
qed

lemma dealloc_absent:
  assumes "lq_rel lq fs us" "old \<notin> set us"
  shows "log_queue_dealloc_record lq old = Some lq"
  using find_used_absent [of lq "used_head lq" us old None] assms
  by (auto simp: log_queue_dealloc_record_def lq_rel_def)

lemma dealloc_head:
  assumes "lq_rel lq fs (c # ys)"
  shows "\<exists>lq'. log_queue_dealloc_record lq c = Some lq' \<and> lq_rel lq' (c # fs) ys \<and>
    params lq' = params lq \<and> data_at lq' = data_at lq"
proof -
  from assms obtain r where h: "used_head lq = Some c" "heap lq c = Some r" "chain (heap lq) (link r) ys"
    by (auto simp: lq_rel_def split: option.splits)
  have f: "find_used lq c (used_head lq) None = Some (None, Some c)"
    using find_used_chain [of lq "used_head lq" "[]" c ys None] assms by (simp add: lq_rel_def)
  let ?tail = "if used_tail lq = Some c then None else used_tail lq"
  let ?lq' = "lq\<lparr>used_tail := ?tail, used_head := link r,
      heap := (heap lq)(c \<mapsto> r\<lparr>link := free_head lq\<rparr>), free_head := Some c,
      n_rec_free := n_rec_free lq + 1, n_rec_used := n_rec_used lq - 1\<rparr>"
  have "log_queue_dealloc_record lq c = Some ?lq'"
    using f h by (simp add: log_queue_dealloc_record_def set_link_def Let_def)
  moreover have "lq_rel ?lq' (c # fs) ys"
    using assms h by (auto simp: lq_rel_def)
  moreover have "data_at ?lq' = data_at lq" using h by (auto simp: data_at_def)
  ultimately show ?thesis by (intro exI [of _ ?lq']) simp
qed

lemma dealloc_inner:
  assumes "lq_rel lq fs (xs @ l # c # ys)"
  shows "\<exists>lq'. log_queue_dealloc_record lq c = Some lq' \<and> lq_rel lq' (c # fs) (xs @ l # ys) \<and>
    params lq' = params lq \<and> data_at lq' = data_at lq"
proof -
  have used: "chain (heap lq) (used_head lq) (xs @ l # c # ys)" using assms by (simp add: lq_rel_def)
  have dist: "distinct (xs @ l # c # ys)" using assms by (simp add: lq_rel_def)
  obtain rl rc where r: "heap lq l = Some rl" "heap lq c = Some rc"
    using chain_dom [OF used] by auto
  have ne: "l \<noteq> c" "used_head lq \<noteq> Some c" using used dist by (cases xs; auto)+
  have f: "find_used lq c (used_head lq) None = Some (Some l, Some c)"
    using find_used_chain [of lq "used_head lq" "xs @ [l]" c ys None] used dist by auto
  let ?h1 = "(heap lq)(l \<mapsto> rl\<lparr>link := link rc\<rparr>)"
  let ?tail = "if used_tail lq = Some c then Some l else used_tail lq"
  let ?h2 = "?h1(c \<mapsto> rc\<lparr>link := free_head lq\<rparr>)"
  let ?lq' = "lq\<lparr>used_tail := ?tail, heap := ?h2, free_head := Some c,
      n_rec_free := n_rec_free lq + 1, n_rec_used := n_rec_used lq - 1\<rparr>"
  have "log_queue_dealloc_record lq c = Some ?lq'"
    using f r ne by (auto simp: log_queue_dealloc_record_def set_link_def Let_def)
  moreover have "chain ?h2 (used_head lq) (xs @ l # ys)"
    by (subst chain_frame) (use chain_unlink [OF used dist r] dist in auto)
  moreover have "chain ?h2 (free_head lq) fs" using assms by (auto simp: lq_rel_def)
  ultimately show ?thesis using assms ne r dist
    by (intro exI [of _ ?lq']) (auto simp: lq_rel_def data_at_def)
qed

lemma dealloc_rel:
  assumes "lq_rel lq fs us" "c \<in> set us"
  shows "\<exists>lq'. log_queue_dealloc_record lq c = Some lq' \<and> lq_rel lq' (c # fs) (remove1 c us) \<and>
    params lq' = params lq \<and> data_at lq' = data_at lq"
proof -
  from assms(2) obtain xs ys where us: "us = xs @ c # ys" and nin: "c \<notin> set xs"
    by (auto dest: split_list_first)
  then have rm: "remove1 c us = xs @ ys" by (simp add: remove1_append)
  show ?thesis
  proof (cases xs rule: rev_cases)
    case Nil
    then show ?thesis using dealloc_head [of lq fs c ys] assms(1) us rm by simp
  next
    case (snoc xs' l)
    then show ?thesis using dealloc_inner [of lq fs xs' l c ys] assms(1) us rm by simp
  qed
qed

section \<open>Push and pop on the contents\<close>

lemma lq_abs_eqI:
  assumes "lq_rel lq fs us" "lq_rel lq' fs' us'" "map (data_at lq') us' = map (data_at lq) us"
  shows "lq_abs lq' = lq_abs lq"
  using assms lq_abs_rel [OF assms(1)] by (intro lq_abs_unique) auto

lemma inv_limit: "lq_inv lq \<Longrightarrow> length (lq_abs lq) \<le> records_limit (params lq)"
  by (auto simp: lq_inv_def length_lq_abs lq_rel_def)

lemma store_rel:
  assumes "lq_rel lq fs us" "lq_rel lq' fs' (us @ [a])"
    "\<forall>b \<in> set us. data_at lq' b = data_at lq b"
  shows "\<exists>lq''. set_data a d lq' = Some lq'' \<and> lq_rel lq'' fs' (us @ [a]) \<and>
    params lq'' = params lq' \<and> lq_abs lq'' = lq_abs lq @ [d]"
proof -
  have c: "chain (heap lq') (used_head lq') (us @ [a])" and nin: "a \<notin> set us"
    using assms(2) by (auto simp: lq_rel_def)
  obtain r where r: "heap lq' a = Some r" using chain_dom [OF c] by auto
  let ?lq = "lq'\<lparr>heap := (heap lq')(a \<mapsto> r\<lparr>data := d\<rparr>)\<rparr>"
  have rel: "lq_rel ?lq fs' (us @ [a])"
    using assms(2) r by (auto simp: lq_rel_def chain_set_data)
  have "map (data_at ?lq) us = map (data_at lq) us"
    using assms(3) nin by (auto simp: data_at_def)
  then have "map Some (lq_abs lq @ [d]) = map (data_at ?lq) (us @ [a])"
    using lq_abs_rel [OF assms(1)] by (simp add: data_at_def)
  then have "lq_abs ?lq = lq_abs lq @ [d]" by (rule lq_abs_unique [OF rel])
  with rel r show ?thesis by (auto simp: set_data_def)
qed

lemma alloc_record_rel:
  assumes "lq_rel lq fs us" "params_ok (params lq)"
  shows "(length us = records_limit (params lq) \<and>
      log_queue_alloc_record c r lq = Some (None, True, lq)) \<or>
    (length us < records_limit (params lq) \<and> fs = [] \<and> \<not> (c \<and> r) \<and>
      log_queue_alloc_record c r lq = Some (None, False, lq)) \<or>
    (length us < records_limit (params lq) \<and> (\<exists>a fs' lq'.
      log_queue_alloc_record c r lq = Some (Some a, False, lq') \<and> lq_rel lq' fs' (us @ [a]) \<and>
      params lq' = params lq \<and> (\<forall>b \<in> set us. data_at lq' b = data_at lq b)))"
proof (cases fs)
  case Nil
  have le: "length us \<le> records_limit (params lq)" and dom: "set us \<subseteq> dom (heap lq)"
    using assms(1) by (auto simp: lq_rel_def)
  consider "length us = records_limit (params lq)" | "length us < records_limit (params lq)" "\<not> (c \<and> r)"
    | "length us < records_limit (params lq)" "c" "r" using le by linarith
  then show ?thesis
  proof cases
    case 1
    then show ?thesis using alloc_record_limit assms Nil by blast
  next
    case 2
    then show ?thesis using alloc_record_no_memory assms Nil by blast
  next
    case 3
    from alloc_record_grow [OF assms(1) [unfolded Nil] assms(2) 3(1)] dom 3 show ?thesis by fastforce
  qed
next
  case (Cons a fs')
  then have "length us < records_limit (params lq)" using assms(1) by (simp add: lq_rel_def)
  with alloc_record_free [OF assms(1) [unfolded Cons], of c r] show ?thesis by auto
qed

lemma push_attempt_spec:
  assumes inv: "lq_inv lq"
  shows "\<exists>a lq'. push_attempt c r lq d = Some (a, lq') \<and> lq_inv lq' \<and> params lq' = params lq \<and>
    (a = At_Limit \<longleftrightarrow> length (lq_abs lq) = records_limit (params lq)) \<and>
    (a = No_Memory \<longrightarrow> \<not> (c \<and> r)) \<and>
    (if a = Stored then lq_abs lq' = lq_abs lq @ [d] else lq' = lq)"
proof -
  from inv obtain fs us where rel: "lq_rel lq fs us" and ps: "params_ok (params lq)"
    by (auto simp: lq_inv_def)
  from alloc_record_rel [OF rel ps, of c r] length_lq_abs [OF rel] inv show ?thesis
  proof (elim disjE exE conjE, goal_cases)
    case (3 a fs' lq')
    obtain lq'' where s: "set_data a d lq' = Some lq''" "lq_rel lq'' fs' (us @ [a])"
      "params lq'' = params lq'" "lq_abs lq'' = lq_abs lq @ [d]"
      using store_rel [OF rel 3(5,7)] by auto
    then have "lq_inv lq''" using ps 3 by (auto simp: lq_inv_def)
    with s 3 show ?case by (intro exI [of _ Stored] exI [of _ lq'']) (simp add: push_attempt_def)
  qed (auto simp: push_attempt_def)
qed

lemma lq_inv_pop:
  assumes "lq_inv lq" "lq_abs lq = d # ds"
  shows "\<exists>lq'. log_queue_pop others lq = Some (Some d, lq') \<and> lq_inv lq' \<and>
    params lq' = params lq \<and> lq_abs lq' = ds"
proof -
  from assms(1) obtain fs us where rel: "lq_rel lq fs us" and ps: "params_ok (params lq)"
    by (auto simp: lq_inv_def)
  from length_lq_abs [OF rel] assms(2) obtain a us' where us: "us = a # us'" by (cases us) auto
  from lq_abs_rel [OF rel] assms(2) us have da: "data_at lq a = Some d"
    and ds: "map Some ds = map (data_at lq) us'" by auto
  have uh: "used_head lq = Some a" using rel us by (simp add: lq_rel_def)
  from da obtain r where r: "heap lq a = Some r" "data r = d" by (auto simp: data_at_def)
  from dealloc_head [OF rel [unfolded us]] obtain lq' where
    l: "log_queue_dealloc_record lq a = Some lq'" "lq_rel lq' (a # fs) us'"
    "params lq' = params lq" "data_at lq' = data_at lq" by auto
  have "lq_abs lq' = ds" using l(4) ds by (intro lq_abs_unique [OF l(2)]) simp
  moreover have "log_queue_pop others lq = Some (Some d, lq')"
    using uh r l by (simp add: log_queue_pop_def)
  ultimately show ?thesis using l ps by (auto simp: lq_inv_def)
qed

lemma lq_empty_head:
  assumes "lq_inv lq" shows "used_head lq = None \<longleftrightarrow> lq_abs lq = []"
proof -
  from assms obtain fs us where rel: "lq_rel lq fs us" by (auto simp: lq_inv_def)
  have "lq_abs lq = [] \<longleftrightarrow> us = []" using length_lq_abs [OF rel] by auto
  with rel show ?thesis by (cases us) (auto simp: lq_rel_def)
qed

text \<open>With nothing queued the caller waits once, and takes what is there afterwards.\<close>

lemma lq_inv_pop_waits:
  assumes "lq_inv lq" "lq_abs lq = []" "lq_inv (others lq)"
  shows "log_queue_pop others lq =
    (if lq_abs (others lq) = [] then Some (None, others lq) else log_queue_pop others (others lq))"
  using assms lq_empty_head [of lq] lq_empty_head [of "others lq"]
  by (auto simp: log_queue_pop_def Let_def)

section \<open>Creation, destruction and the summary\<close>

lemma create_inv:
  assumes "log_queue_create True ps = Some lq" "params_ok (params lq)"
  shows "lq_inv lq \<and> lq_abs lq = []"
proof -
  have "lq_rel lq [] []" using assms(1) by (auto simp: log_queue_create_def lq_rel_def)
  with assms(2) length_lq_abs [OF this] show ?thesis by (auto simp: lq_inv_def)
qed

lemma free_pools_dom: "dom (free_pools bs h) = {a \<in> dom h. addr_block a \<notin> set bs}"
  by (induction bs arbitrary: h) (auto split: if_splits)

lemma destroy_frees:
  assumes "lq_inv lq" shows "log_queue_destroy (Some lq) = (None, \<lambda>_. None)"
proof -
  from assms obtain fs us where rel: "lq_rel lq fs us" by (auto simp: lq_inv_def)
  have n: "unat (n_rec_pools lq) = length (rec_pools lq)" by (rule rel_counts(3) [OF rel])
  have "dom (free_pools (rev (rec_pools lq)) (heap lq)) = {}"
    using rel by (auto simp: free_pools_dom lq_rel_def)
  then show ?thesis using n by (simp add: log_queue_destroy_def)
qed

lemma summary_walk_chain:
  "chain (heap lq) p us \<Longrightarrow>
     summary_walk lq p acc = Some (acc @ map (\<lambda>a. summary_line (data (the (heap lq a)))) us)"
proof (induction us arbitrary: p acc)
  case Nil
  then show ?case by (subst summary_walk.simps) simp
next
  case (Cons a us)
  then obtain r where "p = Some a" "heap lq a = Some r" "chain (heap lq) (link r) us"
    by (auto split: option.splits)
  with Cons.IH show ?case by (subst summary_walk.simps) simp
qed

lemma summary_abs:
  assumes "lq_inv lq"
  shows "log_queue_summary self lq = Some (summary_head self lq @ map summary_line (lq_abs lq) @ [''}'']) \<and>
    unat (n_rec_used lq) = length (lq_abs lq)"
proof -
  from assms obtain fs us where rel: "lq_rel lq fs us" by (auto simp: lq_inv_def)
  have c: "chain (heap lq) (used_head lq) us" using rel by (simp add: lq_rel_def)
  have "lq_abs lq = map (\<lambda>a. data (the (heap lq a))) us"
    using rel_counts(2) [OF rel] walk_chain [OF c] by (simp add: lq_abs_def)
  then show ?thesis
    using summary_walk_chain [OF c] rel_counts(2) [OF rel] length_lq_abs [OF rel]
    by (simp add: log_queue_summary_def comp_def)
qed

section \<open>The interface of a bounded queue\<close>

text \<open>
  One attempt of \<open>log_queue_push\<close>, and \<open>log_queue_pop\<close> from the moment it holds the lock with
  something queued or after its wait: what the threads do to the shared queue, one critical
  section at a time. The first argument of the former is the outcome of \<open>calloc\<close> and
  \<open>realloc\<close>.
\<close>

definition lq_offer :: "bool \<times> bool \<Rightarrow> log_queue \<Rightarrow> log_data \<Rightarrow> (bool \<times> log_queue) option" where
  "lq_offer m lq d =
     (case push_attempt (fst m) (snd m) lq d of
        None \<Rightarrow> None
      | Some (a, lq') \<Rightarrow> Some (a = Stored, lq'))"

definition lq_take :: "log_queue \<Rightarrow> (log_data option \<times> log_queue) option" where
  "lq_take lq = log_queue_pop id lq"

lemma lq_take_law:
  assumes "lq_inv lq"
  shows "\<exists>lq'. lq_take lq = Some (case lq_abs lq of [] \<Rightarrow> None | x # _ \<Rightarrow> Some x, lq') \<and> lq_inv lq' \<and>
    params lq' = params lq \<and> lq_abs lq' = tl (lq_abs lq)"
proof (cases "lq_abs lq")
  case Nil
  then show ?thesis using lq_inv_pop_waits [OF assms Nil, of id] assms by (simp add: lq_take_def)
next
  case (Cons d ds)
  with lq_inv_pop [OF assms Cons, of id] show ?thesis by (simp add: lq_take_def)
qed

interpretation lq: bounded_queue lq_inv lq_abs "\<lambda>lq. records_limit (params lq)" lq_offer lq_take
proof unfold_locales
  fix s :: log_queue and m :: "bool \<times> bool" and x :: log_data
  assume inv: "lq_inv s"
  show "length (lq_abs s) \<le> records_limit (params s)" by (rule inv_limit [OF inv])
  show "\<exists>ok s'. lq_offer m s x = Some (ok, s') \<and> lq_inv s' \<and>
      records_limit (params s') = records_limit (params s) \<and>
      lq_abs s' = (if ok then lq_abs s @ [x] else lq_abs s)"
    using push_attempt_spec [OF inv, of "fst m" "snd m" x] by (fastforce simp: lq_offer_def)
  show "\<exists>s'. lq_take s = Some (case lq_abs s of [] \<Rightarrow> None | x # _ \<Rightarrow> Some x, s') \<and> lq_inv s' \<and>
      records_limit (params s') = records_limit (params s) \<and> lq_abs s' = tl (lq_abs s)"
    using lq_take_law [OF inv] by fastforce
qed

section \<open>The waits of a push\<close>

text \<open>The length of the \<open>k\<close>-th sleep, counted from 0.\<close>

definition nth_wait :: "log_queue_params \<Rightarrow> nat \<Rightarrow> int" where
  "nth_wait ps k = fst ((push_wait_next ps ^^ k) (wait_min ps, 1))"

definition waits_ok :: "log_queue_params \<Rightarrow> bool" where
  "waits_ok ps \<longleftrightarrow> wait_min ps \<le> wait_max ps \<and> 0 \<le> wait_delta ps \<and> 1 \<le> wait_grow_threshold ps"

lemma wait_state:
  assumes "waits_ok ps"
  shows "(push_wait_next ps ^^ k) (wait_min ps, 1) =
    (min (wait_max ps) (wait_min ps + wait_delta ps * ((int k + 1) div (wait_grow_threshold ps + 1))),
     (int k + 1) mod (wait_grow_threshold ps + 1))"
proof (induction k)
  case 0
  have "1 div (wait_grow_threshold ps + 1) = 0" "1 mod (wait_grow_threshold ps + 1) = 1"
    using assms by (simp_all add: waits_ok_def)
  then show ?case using assms by (simp add: waits_ok_def)
next
  case (Suc k)
  let ?T = "wait_grow_threshold ps + 1"
  let ?n = "int k + 1"
  have T: "1 < ?T" using assms by (simp add: waits_ok_def)
  then have lt: "?n mod ?T < ?T" by (intro pos_mod_bound) simp
  show ?case
  proof (cases "?n mod ?T = ?T - 1")
    case True
    have "?n = ?n div ?T * ?T + (?T - 1)" using True by (metis div_mult_mod_eq)
    then have eq: "?n + 1 = (?n div ?T + 1) * ?T" by (simp add: algebra_simps)
    have "(?n + 1) mod ?T = 0" "(?n + 1) div ?T = ?n div ?T + 1"
      unfolding eq using T by simp_all
    moreover have "0 \<le> wait_delta ps" using assms by (simp add: waits_ok_def)
    ultimately show ?thesis using Suc.IH True
      by (auto simp: push_wait_next_def Let_def algebra_simps min_def)
  next
    case False
    with lt have l: "?n mod ?T + 1 < ?T" by linarith
    have "?n + 1 = ?n div ?T * ?T + (?n mod ?T + 1)"
      unfolding add.assoc [symmetric] div_mult_mod_eq by (rule refl)
    moreover have "0 \<le> ?n mod ?T + 1" using T pos_mod_sign [of ?T ?n] by linarith
    ultimately have "(?n + 1) div ?T = ?n div ?T" "(?n + 1) mod ?T = ?n mod ?T + 1"
      using l T by (metis int_div_pos_eq mult.commute, metis int_mod_pos_eq mult.commute)
    then show ?thesis using Suc.IH l
      by (simp add: push_wait_next_def algebra_simps)
  qed
qed

lemma nth_wait_closed:
  "waits_ok ps \<Longrightarrow> nth_wait ps k =
     min (wait_max ps) (wait_min ps + wait_delta ps * ((int k + 1) div (wait_grow_threshold ps + 1)))"
  by (simp add: nth_wait_def wait_state)

lemma nth_wait_bounds:
  assumes "waits_ok ps" shows "wait_min ps \<le> nth_wait ps k \<and> nth_wait ps k \<le> wait_max ps"
  using assms nth_wait_closed [OF assms, of k]
  by (auto simp: waits_ok_def pos_imp_zdiv_nonneg_iff intro!: mult_nonneg_nonneg)

text \<open>What the other threads may do while a push sleeps: anything that keeps the invariant.\<close>

definition env_ok :: "(log_queue \<Rightarrow> log_queue) \<Rightarrow> bool" where
  "env_ok f \<longleftrightarrow> (\<forall>lq. lq_inv lq \<longrightarrow> lq_inv (f lq) \<and> params (f lq) = params lq)"

lemma push_loop_spec:
  assumes "lq_inv lq" "\<forall>(c, r, f) \<in> set rounds. env_ok f"
  shows "\<exists>res n lq'. push_loop rounds d ((push_wait_next (params lq) ^^ k) w) sl lq =
      Some (res, sl @ map (\<lambda>j. fst ((push_wait_next (params lq) ^^ (k + j)) w)) [0..<n], lq') \<and>
    lq_inv lq' \<and> params lq' = params lq \<and> n \<le> length rounds \<and> (res = None \<longrightarrow> n = length rounds) \<and>
    (res = Some True \<longrightarrow> (\<exists>ds. lq_abs lq' = ds @ [d]))"
  using assms
proof (induction rounds arbitrary: lq k sl)
  case Nil
  then show ?case by auto
next
  case (Cons rd rounds)
  obtain c r f where rd: "rd = (c, r, f)" by (cases rd)
  obtain a lq1 where a: "push_attempt c r lq d = Some (a, lq1)" "lq_inv lq1" "params lq1 = params lq"
    "if a = Stored then lq_abs lq1 = lq_abs lq @ [d] else lq1 = lq"
    using push_attempt_spec [OF Cons.prems(1), of c r d] by blast
  show ?case
  proof (cases a)
    case Stored
    with a rd show ?thesis by (intro exI [of _ "Some True"] exI [of _ 0]) auto
  next
    case No_Memory
    with a rd show ?thesis by (intro exI [of _ "Some False"] exI [of _ 0]) auto
  next
    case At_Limit
    let ?ps = "params lq"
    let ?w = "\<lambda>i. (push_wait_next ?ps ^^ i) w"
    from Cons.prems rd a have f: "lq_inv (f lq1)" "params (f lq1) = ?ps" by (auto simp: env_ok_def)
    obtain res n lq' where IH: "push_loop rounds d (?w (Suc k)) (sl @ [fst (?w k)]) (f lq1) =
        Some (res, (sl @ [fst (?w k)]) @ map (\<lambda>j. fst (?w (Suc k + j))) [0..<n], lq')"
      "lq_inv lq'" "params lq' = ?ps" "n \<le> length rounds" "res = None \<longrightarrow> n = length rounds"
      "res = Some True \<longrightarrow> (\<exists>ds. lq_abs lq' = ds @ [d])"
      using Cons.IH [OF f(1), of "Suc k" "sl @ [fst (?w k)]"] Cons.prems(2) f(2) by auto
    have "map (\<lambda>j. fst (?w (k + j))) [0..<Suc n] = fst (?w k) # map (\<lambda>j. fst (?w (Suc k + j))) [0..<n]"
      by (simp add: upt_conv_Cons map_Suc_upt [symmetric] del: upt_Suc funpow.simps)
    with IH a rd At_Limit show ?thesis
      by (intro exI [of _ res] exI [of _ "Suc n"] exI [of _ lq']) (simp del: upt_Suc)
  qed
qed

lemma push_loop_At_Limit:
  "push_attempt c r lq d = Some (At_Limit, lq) \<Longrightarrow> push_loop ((c, r, f) # rounds) d w sl lq =
     push_loop rounds d (push_wait_next (params lq) w) (sl @ [fst w]) (f lq)"
  by simp

lemma push_rounds_at_limit:
  assumes "lq_inv lq" "length (lq_abs lq) = records_limit (params lq)"
  shows "push_loop (replicate k (c, r, id) @ rounds) d w sl lq =
    push_loop rounds d ((push_wait_next (params lq) ^^ k) w)
      (sl @ map (\<lambda>j. fst ((push_wait_next (params lq) ^^ j) w)) [0..<k]) lq"
proof (induction k arbitrary: w sl)
  case (Suc k)
  have a: "push_attempt c r lq d = Some (At_Limit, lq)"
    using push_attempt_spec [OF assms(1), of c r d] assms(2) by fastforce
  have "map (\<lambda>j. fst ((push_wait_next (params lq) ^^ j) w)) [0..<Suc k] =
      fst w # map (\<lambda>j. fst ((push_wait_next (params lq) ^^ j) (push_wait_next (params lq) w))) [0..<k]"
    by (simp add: upt_conv_Cons map_Suc_upt [symmetric] funpow_swap1 del: upt_Suc)
  with a Suc.IH show ?case by (simp add: funpow_swap1 del: upt_Suc)
qed simp

lemma push_stores:
  assumes "lq_inv lq" "length (lq_abs lq) < records_limit (params lq)"
  shows "\<exists>lq'. push_loop ((True, True, f) # rounds) d w sl lq = Some (Some True, sl, lq') \<and>
    lq_inv lq' \<and> lq_abs lq' = lq_abs lq @ [d]"
proof -
  obtain a lq' where a: "push_attempt True True lq d = Some (a, lq')" "lq_inv lq'"
    "a = At_Limit \<longleftrightarrow> length (lq_abs lq) = records_limit (params lq)" "a \<noteq> No_Memory"
    "if a = Stored then lq_abs lq' = lq_abs lq @ [d] else lq' = lq"
    using push_attempt_spec [OF assms(1), of True True d] by auto
  then have "a = Stored" using assms(2) by (cases a) auto
  with a show ?thesis by auto
qed

lemma push_no_first_pool:
  "log_queue_create True (Some ps) = Some lq \<Longrightarrow> records_min ps = 0 \<Longrightarrow>
     log_queue_push ((True, True, others) # rounds) lq d = None"
  by (auto simp: log_queue_create_def log_queue_push_def push_attempt_def log_queue_alloc_record_def
      grow_count_def log_queue_add_pool_def log_record_create_def take_free_def)

lemma create_inv_iff:
  assumes "log_queue_create True (Some ps) = Some lq"
  shows "params lq = ps" "lq_abs lq = []" "lq_inv lq \<longleftrightarrow> params_ok ps"
proof -
  show p: "params lq = ps" using assms by (auto simp: log_queue_create_def)
  have "n_rec_used lq = 0" using assms by (auto simp: log_queue_create_def)
  then show "lq_abs lq = []" by (simp add: lq_abs_def)
  show "lq_inv lq \<longleftrightarrow> params_ok ps" using create_inv [OF assms] p by (auto simp: lq_inv_def)
qed

section \<open>The properties of the queue\<close>

text \<open>A queue with room for one record, before its first pool and with the record in use.\<close>

definition small_params :: log_queue_params where
  "small_params = \<lparr>records_min = 1, records_max = 1, records_delta = 1, wait_min = 5,
     wait_max = 20, wait_delta = 5, wait_grow_threshold = 2\<rparr>"

definition empty_small :: log_queue where
  "empty_small = the (log_queue_create True (Some small_params))"

definition full_small :: log_queue where
  "full_small = empty_small\<lparr>n_rec_used := 1, used_head := Some (Addr 0 0),
     used_tail := Some (Addr 0 0), n_rec_pools := 1, rec_pools := [0],
     heap := [Addr 0 0 \<mapsto> \<lparr>link = None, data = log_data_zero\<rparr>], next_block := 1\<rparr>"

lemmas small_defs = small_params_def empty_small_def full_small_def log_queue_create_def

lemma small_params_ok: "params_ok small_params" "waits_ok small_params" "records_limit small_params = 1"
  by (simp_all add: small_params_def params_ok_def waits_ok_def records_limit_def)

lemma params_small [simp]: "params empty_small = small_params" "params full_small = small_params"
  by (simp_all add: empty_small_def full_small_def log_queue_create_def)

lemma empty_small_inv: "lq_inv empty_small \<and> lq_abs empty_small = []"
  by (rule create_inv [of "Some small_params"]) (simp_all add: small_params_ok, simp add: small_defs)

lemma full_small_inv: "lq_inv full_small \<and> lq_abs full_small = [log_data_zero]"
proof -
  have rel: "lq_rel full_small [] [Addr 0 0]"
    unfolding lq_rel_def params_small small_params_ok by (simp add: small_defs)
  then have "lq_abs full_small = [log_data_zero]"
    by (rule lq_abs_unique) (simp add: data_at_def small_defs)
  with rel show ?thesis unfolding lq_inv_def by (auto simp: small_params_ok)
qed

text \<open>
  C7: first in, first out. Run any sequence of push attempts and pops, whatever the outcomes
  of \<open>calloc\<close> and \<open>realloc\<close>: no operation accesses memory it must not or runs forever, and
  what was queued before followed by what was accepted is what was handed out followed by
  what is left, in order. Nothing is lost, duplicated or reordered.
\<close>

theorem log_queue_fifo:
  assumes "lq_inv lq"
  shows "\<exists>lq' accepted taken. run_ops lq_offer lq_take ops lq = Some (lq', accepted, taken) \<and>
    lq_inv lq' \<and> lq_abs lq @ accepted = taken @ lq_abs lq' \<and>
    length (lq_abs lq') \<le> records_limit (params lq')"
  using lq.run_fifo [OF assms, of ops] inv_limit by blast

theorem log_queue_fifo_witness:
  "\<exists>lq' accepted taken. run_ops lq_offer lq_take [Take, Offer (True, True) log_data_zero] full_small =
      Some (lq', accepted, taken) \<and> lq_inv lq' \<and>
    lq_abs full_small @ accepted = taken @ lq_abs lq' \<and>
    length (lq_abs lq') \<le> records_limit (params lq')"
  by (rule log_queue_fifo) (rule full_small_inv [THEN conjunct1])

text \<open>
  C28: one attempt of \<open>log_queue_push\<close>. It fails with \<open>at_limit\<close> exactly when the configured
  limit of records is in use, gives up only when \<open>calloc\<close> or \<open>realloc\<close> failed, leaves the
  queue as it was in both cases, and otherwise appends the data; the links, counters and
  pools stay consistent in every case.
\<close>

theorem log_queue_push_attempt:
  assumes "lq_inv lq"
  shows "\<exists>a lq'. push_attempt calloc_ok realloc_ok lq d = Some (a, lq') \<and> lq_inv lq' \<and>
    (a = At_Limit \<longleftrightarrow> length (lq_abs lq) = records_limit (params lq)) \<and>
    (a = No_Memory \<longrightarrow> \<not> (calloc_ok \<and> realloc_ok)) \<and>
    (if a = Stored then lq_abs lq' = lq_abs lq @ [d] else lq' = lq)"
  using push_attempt_spec [OF assms, of calloc_ok realloc_ok d] by fastforce

theorem log_queue_push_attempt_witness:
  "\<exists>a lq'. push_attempt True True empty_small log_data_zero = Some (a, lq') \<and> lq_inv lq' \<and>
    (a = At_Limit \<longleftrightarrow> length (lq_abs empty_small) = records_limit (params empty_small)) \<and>
    (a = No_Memory \<longrightarrow> \<not> (True \<and> True)) \<and>
    (if a = Stored then lq_abs lq' = lq_abs empty_small @ [log_data_zero] else lq' = empty_small)"
  by (rule log_queue_push_attempt) (rule empty_small_inv [THEN conjunct1])

text \<open>
  \<open>log_queue_pop\<close>. With something queued it returns the oldest data without waiting and
  releases the record; with nothing queued it waits once, and returns false when there is
  still nothing (the other threads' steps during the wait are any that keep the invariant).
\<close>

theorem log_queue_pop_spec:
  assumes "lq_inv lq" "env_ok others"
  shows "\<exists>r lq'. log_queue_pop others lq = Some (r, lq') \<and> lq_inv lq' \<and>
    (case lq_abs lq of
       d # ds \<Rightarrow> r = Some d \<and> lq_abs lq' = ds
     | [] \<Rightarrow> (case lq_abs (others lq) of
               d # ds \<Rightarrow> r = Some d \<and> lq_abs lq' = ds
             | [] \<Rightarrow> r = None \<and> lq' = others lq))"
proof (cases "lq_abs lq")
  case Nil
  have o: "lq_inv (others lq)" using assms by (simp add: env_ok_def)
  show ?thesis
  proof (cases "lq_abs (others lq)")
    case Nil': Nil
    then show ?thesis using Nil o by (simp add: lq_inv_pop_waits [where others = others, OF assms(1) Nil o])
  next
    case (Cons d ds)
    with lq_inv_pop [OF o Cons, of others] Nil show ?thesis
      by (auto simp: lq_inv_pop_waits [where others = others, OF assms(1) Nil o])
  qed
next
  case (Cons d ds)
  with lq_inv_pop [OF assms(1) Cons, of others] show ?thesis by auto
qed

theorem log_queue_pop_spec_witness:
  "\<exists>r lq'. log_queue_pop id full_small = Some (r, lq') \<and> lq_inv lq' \<and>
    (case lq_abs full_small of
       d # ds \<Rightarrow> r = Some d \<and> lq_abs lq' = ds
     | [] \<Rightarrow> (case lq_abs (id full_small) of
               d # ds \<Rightarrow> r = Some d \<and> lq_abs lq' = ds
             | [] \<Rightarrow> r = None \<and> lq' = id full_small))"
  by (rule log_queue_pop_spec) (simp_all add: full_small_inv env_ok_def)



text \<open>
  Releasing any record of the used chain. \<open>__log_queue_dealloc_record\<close> unlinks exactly
  that record, keeps the others in order, puts it at the head of the free chain and repairs
  the head, the tail and both counters; a record that is not in use is left alone.
\<close>

theorem log_queue_dealloc_any:
  assumes "lq_rel lq fs us"
  shows "\<exists>lq'. log_queue_dealloc_record lq a = Some lq' \<and> data_at lq' = data_at lq \<and>
    (if a \<in> set us then lq_rel lq' (a # fs) (remove1 a us) else lq' = lq)"
  using dealloc_rel [OF assms, of a] dealloc_absent [OF assms, of a] by auto

theorem log_queue_dealloc_any_witness:
  "\<exists>lq'. log_queue_dealloc_record full_small (Addr 0 0) = Some lq' \<and> data_at lq' = data_at full_small \<and>
    (if Addr 0 0 \<in> set [Addr 0 0] then lq_rel lq' (Addr 0 0 # []) (remove1 (Addr 0 0) [Addr 0 0])
     else lq' = full_small)"
proof (rule log_queue_dealloc_any)
  show "lq_rel full_small [] [Addr 0 0]"
    unfolding lq_rel_def params_small small_params_ok by (simp add: small_defs)
qed

text \<open>
  C30: \<open>log_queue_create\<close>, \<open>log_queue_summary\<close> and \<open>log_queue_destroy\<close>. A created queue is empty
  and consistent; after any operations the summary prints one line per queued record, oldest
  first, under the right count; destroying the queue frees every record's memory and clears the
  caller's pointer.
\<close>

theorem log_queue_lifecycle:
  assumes "params_ok (case ps of None \<Rightarrow> log_queue_default_params | Some p \<Rightarrow> p)"
  shows "\<exists>lq. log_queue_create True ps = Some lq \<and> lq_inv lq \<and> lq_abs lq = [] \<and>
    (\<forall>ops lq' acc tk. run_ops lq_offer lq_take ops lq = Some (lq', acc, tk) \<longrightarrow>
       log_queue_summary self lq' =
         Some (summary_head self lq' @ map summary_line (drop (length tk) acc) @ [''}'']) \<and>
       unat (n_rec_used lq') = length acc - length tk \<and>
       log_queue_destroy (Some lq') = (None, \<lambda>_. None))"
proof -
  obtain lq where lq: "log_queue_create True ps = Some lq"
    "params lq = (case ps of None \<Rightarrow> log_queue_default_params | Some p \<Rightarrow> p)"
    by (auto simp: log_queue_create_def split: option.splits)
  have inv: "lq_inv lq \<and> lq_abs lq = []" using create_inv [OF lq(1)] assms lq(2) by simp
  have "log_queue_summary self lq' =
      Some (summary_head self lq' @ map summary_line (drop (length tk) acc) @ [''}'']) \<and>
      unat (n_rec_used lq') = length acc - length tk \<and> log_queue_destroy (Some lq') = (None, \<lambda>_. None)"
    if "run_ops lq_offer lq_take ops lq = Some (lq', acc, tk)" for ops lq' acc tk
    using lq.run_fifo [of lq ops] inv that summary_abs [of lq'] destroy_frees [of lq'] by auto
  with lq inv show ?thesis by blast
qed

theorem log_queue_lifecycle_witness:
  "\<exists>lq. log_queue_create True None = Some lq \<and> lq_inv lq \<and> lq_abs lq = [] \<and>
    (\<forall>ops lq' acc tk. run_ops lq_offer lq_take ops lq = Some (lq', acc, tk) \<longrightarrow>
       log_queue_summary ''0x1'' lq' =
         Some (summary_head ''0x1'' lq' @ map summary_line (drop (length tk) acc) @ [''}'']) \<and>
       unat (n_rec_used lq') = length acc - length tk \<and>
       log_queue_destroy (Some lq') = (None, \<lambda>_. None))"
  by (rule log_queue_lifecycle) (simp add: params_ok_def log_queue_default_params_def)

text \<open>
  A configured first pool of zero records. The allocator adds an empty pool and then
  follows the NULL head of the free chain: the first push is an invalid memory access,
  whatever the other parameters.
\<close>

theorem log_queue_push_no_first_pool:
  assumes "records_min ps = 0"
  shows "\<exists>lq. log_queue_create True (Some ps) = Some lq \<and>
    log_queue_push ((True, True, others) # rounds) lq d = None"
  using push_no_first_pool [OF _ assms] by (simp add: log_queue_create_def)

theorem log_queue_push_no_first_pool_witness:
  "\<exists>lq. log_queue_create True (Some (small_params\<lparr>records_min := 0\<rparr>)) = Some lq \<and>
    log_queue_push ((True, True, id) # []) lq log_data_zero = None"
  by (rule log_queue_push_no_first_pool) (simp add: small_params_def)

text \<open>
  A push against any behaviour of the other threads. Whatever they do to the queue while
  the push sleeps, as long as they keep its invariant, the push accesses no invalid memory,
  sleeps between the configured minimum and maximum every time, and when it reports success
  its data is the newest in the queue.
\<close>

theorem log_queue_push_total:
  assumes "lq_inv lq" "waits_ok (params lq)" "\<forall>(c, r, f) \<in> set rounds. env_ok f"
  shows "\<exists>res sleeps lq'. log_queue_push rounds lq d = Some (res, sleeps, lq') \<and> lq_inv lq' \<and>
    (\<forall>t \<in> set sleeps. wait_min (params lq) \<le> t \<and> t \<le> wait_max (params lq)) \<and>
    (res = None \<longrightarrow> length sleeps = length rounds) \<and>
    (res = Some True \<longrightarrow> (\<exists>ds. lq_abs lq' = ds @ [d]))"
proof -
  obtain res n lq' where p: "push_loop rounds d (wait_min (params lq), 1) [] lq =
      Some (res, map (nth_wait (params lq)) [0..<n], lq')" "lq_inv lq'"
      "res = None \<longrightarrow> n = length rounds" "res = Some True \<longrightarrow> (\<exists>ds. lq_abs lq' = ds @ [d])"
    using push_loop_spec [OF assms(1,3), of d 0 "(wait_min (params lq), 1)" "[]"]
    by (auto simp: nth_wait_def [abs_def])
  then show ?thesis using nth_wait_bounds [OF assms(2)] by (auto simp: log_queue_push_def)
qed

theorem log_queue_push_total_witness:
  "\<exists>res sleeps lq'. log_queue_push [(True, False, id), (False, True, id)] full_small log_data_zero =
      Some (res, sleeps, lq') \<and> lq_inv lq' \<and>
    (\<forall>t \<in> set sleeps. wait_min (params full_small) \<le> t \<and> t \<le> wait_max (params full_small)) \<and>
    (res = None \<longrightarrow> length sleeps = length [(True, False, id :: log_queue \<Rightarrow> log_queue), (False, True, id)]) \<and>
    (res = Some True \<longrightarrow> (\<exists>ds. lq_abs lq' = ds @ [log_data_zero]))"
  by (rule log_queue_push_total) (simp_all add: full_small_inv small_params_ok env_ok_def)

end
