(* ===== verification/Pam_Callback.thy ===== *)
theory Pam_Callback
  imports Log_Data C_Numbers
begin

text \<open>
  \<open>src/pam-daemon/iptracking-pam-callback.c\<close>: the program PAM executes at a login. It builds
  one event record from its environment and sends the record's memory image over the daemon's
  socket. The environment, the command line (as \<open>getopt_long\<close> delivers it), the formatted
  local time and the parent's process id are inputs, as are the outcomes of the socket calls.
\<close>

section \<open>Options\<close>

datatype callback_option =
    Opt_help
  | Opt_version
  | Opt_socket cstr
  | Opt_timeout cstr
  | Opt_unknown

text \<open>The exit code, or the socket file and the timeout.\<close>

fun callback_options :: "callback_option list \<Rightarrow> cstr \<Rightarrow> int \<Rightarrow> int + cstr \<times> int" where
  "callback_options [] socket_filepath socket_timeout = Inr (socket_filepath, socket_timeout)"
| "callback_options (opt # opts) socket_filepath socket_timeout =
     (case opt of
        Opt_help \<Rightarrow> Inl 0
      | Opt_version \<Rightarrow> Inl 0
      | Opt_socket optarg \<Rightarrow> callback_options opts optarg socket_timeout
      | Opt_timeout optarg \<Rightarrow>
          (case c_strtol optarg of
             None \<Rightarrow> Inl 100
           | Some (i, endptr) \<Rightarrow>
               callback_options opts socket_filepath
                 (if i < 0 then 0 else if i > INT_MAX then INT_MAX else i))
      | Opt_unknown \<Rightarrow> callback_options opts socket_filepath socket_timeout)"

section \<open>The record\<close>

record callback_env =
  PAM_TYPE :: "cstr option"
  PAM_USER :: "cstr option"
  SSH_CONNECTION :: "cstr option"
  PAM_RHOST :: "cstr option"

text \<open>\<open>p && *p\<close>.\<close>

definition given :: "cstr option \<Rightarrow> bool" where
  "given v \<longleftrightarrow> v \<noteq> None \<and> v \<noteq> Some []"

text \<open>
  The digit loop of the port. Its overflow test compares with \<open>prev_port_val\<close>, which stays 0.
\<close>

fun port_digits :: "16 word \<Rightarrow> 16 word \<Rightarrow> cstr \<Rightarrow> int + 16 word \<times> cstr" where
  "port_digits port_val prev_port_val [] = Inr (port_val, [])"
| "port_digits port_val prev_port_val (c # s) =
     (if c_isdigit c
      then (let v = of_nat (unat port_val * 10 + digit_value c)
            in if v < prev_port_val then Inl 105 else port_digits v prev_port_val s)
      else Inr (port_val, c # s))"

abbreviation skip_space :: "cstr \<Rightarrow> cstr" where
  "skip_space s \<equiv> dropWhile c_isspace s"

abbreviation word_of :: "cstr \<Rightarrow> cstr" where
  "word_of s \<equiv> takeWhile (\<lambda>c. \<not> c_isspace c) s"

abbreviation after_word :: "cstr \<Rightarrow> cstr" where
  "after_word s \<equiv> dropWhile (\<lambda>c. \<not> c_isspace c) s"

text \<open>The fields of \<open>SSH_CONNECTION\<close>: client address and port, server address.\<close>

definition ssh_fields :: "cstr \<Rightarrow> log_data \<Rightarrow> int + log_data" where
  "ssh_fields ssh_connection d =
     (let s1 = skip_space ssh_connection;
          src = word_of s1
      in if length src = 0 \<or> length src \<ge> sizeof_ipaddr then Inl 104
         else case port_digits 0 0 (skip_space (after_word s1)) of
                Inl code \<Rightarrow> Inl code
              | Inr (port_val, s2) \<Rightarrow>
                  if s2 = [] \<or> \<not> c_isspace (hd s2) then Inl 106
                  else (let s3 = skip_space s2;
                            dst = word_of s3
                        in if length dst = 0 \<or> length dst \<ge> sizeof_ipaddr then Inl 107
                           else Inr (d\<lparr>src_ipaddr := c_memcpy (src_ipaddr d) src, src_port := port_val,
                                       dst_ipaddr := c_memcpy (dst_ipaddr d) dst\<rparr>)))"

text \<open>\<open>now\<close> is the text \<open>strftime\<close> writes, \<open>ppid\<close> the result of \<open>getppid\<close>.\<close>

definition callback_record :: "callback_env \<Rightarrow> cstr \<Rightarrow> 32 word \<Rightarrow> int + log_data" where
  "callback_record env now ppid =
     (let d0 = log_data_zero\<lparr>log_date := c_memcpy (log_date log_data_zero) (now @ [nul])\<rparr>
      in if \<not> given (PAM_TYPE env) then Inl 101
         else (let d1 = d0\<lparr>event := log_event_parse_str (the (PAM_TYPE env)), sshd_pid := ppid,
                           uid := c_strncpy sizeof_uid
                             (if given (PAM_USER env) then the (PAM_USER env) else ''<<EMPTY>>'')\<rparr>
               in if given (SSH_CONNECTION env) then ssh_fields (the (SSH_CONNECTION env)) d1
                  else if \<not> given (PAM_RHOST env) then Inl 102
                  else if length (the (PAM_RHOST env)) \<ge> sizeof_ipaddr then Inl 103
                  else Inr (d1\<lparr>src_ipaddr := c_strncpy sizeof_ipaddr (the (PAM_RHOST env)),
                               dst_ipaddr := c_strncpy sizeof_ipaddr ''0.0.0.0'', src_port := 0\<rparr>)))"

section \<open>Sending\<close>

text \<open>
  What the kernel answers in one turn of the loop: the alarm goes off, or the pending call
  (\<open>connect\<close> when there is no connection, \<open>send\<close> otherwise) returns. \<open>Broken_pipe\<close> is a
  \<open>send\<close> after the peer has closed the connection, made without \<open>MSG_NOSIGNAL\<close> by a program that has not
  set the action for \<open>SIGPIPE\<close>: the signal ends it. Where the program was started with that signal
  ignored, the same call is \<open>Send_errno\<close> of \<open>EPIPE\<close>.
\<close>

datatype send_result = Sent nat | EINTR | ENOBUFS | ECONNRESET | Broken_pipe | Send_errno int

record round =
  alarm_rings :: bool
  connected :: bool
  send_returns :: send_result

datatype callback_result =
    Exit_code int
  | Killed_by_SIGPIPE
  | Still_sending

abbreviation ETIME :: int where "ETIME \<equiv> 62"

text \<open>
  The state of the loop: whether there is a connection, the offset of \<open>data_buffer_ptr\<close> in
  bytes from the record, \<open>data_buffer_len\<close>, and the offsets of the bytes the peer got over
  the current connection. \<open>data_buffer_ptr\<close> points to records of 128 bytes, so adding
  \<open>nbytes\<close> to it moves it by \<open>128 * nbytes\<close> bytes.
\<close>

record send_state =
  is_connected :: bool
  buffer_off :: nat
  buffer_len :: nat
  received :: "nat list"

definition send_init :: send_state where
  "send_init = \<lparr>is_connected = False, buffer_off = 0, buffer_len = sizeof_log_data, received = []\<rparr>"

text \<open>One turn: the next state, or how the program ended: by \<open>exit(109)\<close> or the signal.\<close>

definition send_turn :: "round \<Rightarrow> send_state \<Rightarrow> callback_result + send_state" where
  "send_turn r st =
     (if \<not> is_connected st
      then Inr (if connected r then st\<lparr>is_connected := True, received := []\<rparr> else st)
      else case send_returns r of
             EINTR \<Rightarrow> Inr st
           | ENOBUFS \<Rightarrow> Inr st
           | ECONNRESET \<Rightarrow>
               Inr (st\<lparr>buffer_off := 0, buffer_len := sizeof_log_data, is_connected := False\<rparr>)
           | Broken_pipe \<Rightarrow> Inl Killed_by_SIGPIPE
           | Send_errno _ \<Rightarrow> Inl (Exit_code 109)
           | Sent nbytes \<Rightarrow>
               Inr (st\<lparr>buffer_off := buffer_off st + sizeof_log_data * nbytes,
                       buffer_len := buffer_len st - nbytes,
                       received := received st @ [buffer_off st ..< buffer_off st + nbytes]\<rparr>))"

fun send_loop :: "int \<Rightarrow> round list \<Rightarrow> send_state \<Rightarrow> callback_result \<times> send_state" where
  "send_loop socket_timeout [] st = (if buffer_len st = 0 then (Exit_code 0, st) else (Still_sending, st))"
| "send_loop socket_timeout (r # rounds) st =
     (if buffer_len st = 0 then (Exit_code 0, st)
      else if socket_timeout > 0 \<and> alarm_rings r then (Exit_code ETIME, st)
      else case send_turn r st of
             Inl res \<Rightarrow> (res, st)
           | Inr st' \<Rightarrow> send_loop socket_timeout rounds st')"

section \<open>The program\<close>

abbreviation sizeof_sun_path :: nat where "sizeof_sun_path \<equiv> 108"
abbreviation SOCKET_TIMEOUT_DEFAULT :: int where "SOCKET_TIMEOUT_DEFAULT \<equiv> 5"

text \<open>
  The result, the record that was built (when the program got that far) and the bytes the
  peer received over the last connection, as offsets from the record.
\<close>

definition callback_main ::
  "cstr \<Rightarrow> callback_option list \<Rightarrow> callback_env \<Rightarrow> cstr \<Rightarrow> 32 word \<Rightarrow> bool \<Rightarrow> round list \<Rightarrow>
     callback_result \<times> log_data option \<times> nat list" where
  "callback_main default_socket opts env now ppid socket_ok rounds =
     (case callback_options opts default_socket SOCKET_TIMEOUT_DEFAULT of
        Inl code \<Rightarrow> (Exit_code code, None, [])
      | Inr (socket_filepath, socket_timeout) \<Rightarrow>
          if length socket_filepath \<ge> sizeof_sun_path then (Exit_code 100, None, [])
          else case callback_record env now ppid of
                 Inl code \<Rightarrow> (Exit_code code, None, [])
               | Inr d \<Rightarrow>
                   if \<not> socket_ok then (Exit_code 108, Some d, [])
                   else (case send_loop socket_timeout rounds send_init of
                           (res, st) \<Rightarrow> (res, Some d, received st)))"

section \<open>The fields of the record\<close>

lemma port_digits_number:
  "list_all c_isdigit ds \<Longrightarrow> digits_value (unat v) ds < 2 ^ 16 \<Longrightarrow>
     (s = [] \<or> \<not> c_isdigit (hd s)) \<Longrightarrow>
     port_digits v 0 (ds @ s) = Inr (of_nat (digits_value (unat v) ds), s)"
proof (induction ds arbitrary: v)
  case Nil
  then show ?case by (cases s) auto
next
  case (Cons c ds)
  let ?n = "unat v * 10 + digit_value c"
  have n: "?n < 2 ^ 16"
    using Cons.prems(2) digits_value_ge [of ?n ds] by (simp add: mult.commute)
  then have "unat (of_nat ?n :: 16 word) = ?n" by (intro unat_of_nat_small) simp
  with Cons show ?case by (simp add: Let_def mult.commute)
qed

lemma port_digits_never_105: "port_digits v 0 s \<noteq> Inl e"
  by (induction s arbitrary: v) (auto simp: Let_def)

lemma memcpy_zero_strncpy:
  "length s \<le> n \<Longrightarrow> c_memcpy (replicate n nul) s = c_strncpy n s"
  by (simp add: c_memcpy_def c_strncpy_def)

lemma memcpy_zero_terminated:
  assumes "length s < n"
  shows "c_memcpy (replicate n nul) (s @ [nul]) = c_strncpy n s"
proof -
  from assms obtain k where "n = length s + Suc k" using less_iff_Suc_add by auto
  then show ?thesis by (simp add: c_memcpy_def c_strncpy_def)
qed

lemma takeWhile_word:
  "\<forall>c \<in> set w. \<not> c_isspace c \<Longrightarrow> r = [] \<or> c_isspace (hd r) \<Longrightarrow> word_of (w @ r) = w \<and> after_word (w @ r) = r"
  by (cases r) (auto simp: takeWhile_append2 dropWhile_append2)

lemma skip_space_append:
  "\<forall>c \<in> set ws. c_isspace c \<Longrightarrow> r = [] \<or> \<not> c_isspace (hd r) \<Longrightarrow> skip_space (ws @ r) = r"
  by (cases r) (auto simp: dropWhile_append2)

text \<open>An address as \<open>sshd\<close> writes it: not empty, without spaces, within the record's field.\<close>

definition address_word :: "cstr \<Rightarrow> bool" where
  "address_word a \<longleftrightarrow> a \<noteq> [] \<and> length a < sizeof_ipaddr \<and> nul \<notin> set a \<and> (\<forall>c \<in> set a. \<not> c_isspace c)"

lemma ssh_fields_text:
  assumes "address_word src" "address_word dst" "port < 2 ^ 16"
    "src_ipaddr d = replicate sizeof_ipaddr nul" "dst_ipaddr d = replicate sizeof_ipaddr nul"
  shows "ssh_fields (src @ '' '' @ show_nat port @ '' '' @ dst @ '' '' @ rest) d =
    Inr (d\<lparr>src_ipaddr := c_strncpy sizeof_ipaddr src, src_port := of_nat port,
           dst_ipaddr := c_strncpy sizeof_ipaddr dst\<rparr>)"
proof -
  let ?r3 = "CHR '' '' # dst @ CHR '' '' # rest"
  let ?r2 = "show_nat port @ ?r3"
  let ?r1 = "CHR '' '' # ?r2"
  have sp: "c_isspace CHR '' ''" "\<not> c_isdigit CHR '' ''" by (simp_all add: cchar_simps)
  have ne: "src \<noteq> []" "dst \<noteq> []" "\<not> c_isspace (hd src)" "\<not> c_isspace (hd dst)"
    using assms(1,2) by (cases src; cases dst; simp add: address_word_def)+
  have s1: "skip_space (src @ ?r1) = src @ ?r1" "word_of (src @ ?r1) = src" "after_word (src @ ?r1) = ?r1"
    using assms(1) ne sp takeWhile_word [of src ?r1] skip_space_append [of "[]" "src @ ?r1"]
    by (auto simp: address_word_def)
  have hd2: "\<not> c_isspace (hd (show_nat port @ ?r3))"
    using hd_show_nat_digit [of port] by (simp add: isdigit_not_isspace hd_append)
  have s2: "skip_space ?r1 = ?r2"
    using sp hd2 skip_space_append [of "'' ''" ?r2] by simp
  have p: "port_digits 0 0 ?r2 = Inr (of_nat port, ?r3)"
    using port_digits_number [of "show_nat port" 0 ?r3] assms(3) sp show_nat_chars
    by (auto simp: list_all_iff)
  have s3: "skip_space ?r3 = dst @ CHR '' '' # rest" "word_of (dst @ CHR '' '' # rest) = dst"
    using sp ne assms(2) skip_space_append [of "'' ''" "dst @ CHR '' '' # rest"]
      takeWhile_word [of dst "CHR '' '' # rest"]
    by (auto simp: address_word_def)
  have len: "length src < 16" "length dst < 16" using assms(1,2) by (simp_all add: address_word_def)
  show ?thesis
    using s1 s2 p s3 sp ne len assms(4,5)
    by (simp add: ssh_fields_def Let_def memcpy_zero_strncpy)
qed

section \<open>Validity of what is built\<close>

lemma field_ok_strncpy:
  assumes "nul \<notin> set s" "s \<noteq> []" "0 < n"
  shows "field_ok (c_strncpy n s) \<longleftrightarrow> length s < n"
proof -
  from assms obtain c s' k where "s = c # s'" "n = Suc k" by (cases s; cases n) auto
  then have "c_strncpy n s ! 0 = c" by (simp add: c_strncpy_def)
  with assms(1) \<open>s = c # s'\<close> nul_in_strncpy [OF assms(1), of n] show ?thesis
    by (auto simp: field_ok_def)
qed

lemma event_parsed_valid:
  "log_event_value log_event_unknown \<le> log_event_parse_str s \<and>
   log_event_parse_str s < log_event_value log_event_max"
  by (simp add: log_event_parse_str_def)

definition callback_uid :: "callback_env \<Rightarrow> cstr" where
  "callback_uid env = (if given (PAM_USER env) then the (PAM_USER env) else ''<<EMPTY>>'')"

definition callback_base :: "callback_env \<Rightarrow> cstr \<Rightarrow> 32 word \<Rightarrow> log_data" where
  "callback_base env now ppid =
     log_data_zero\<lparr>log_date := c_strncpy sizeof_log_date now,
       event := log_event_parse_str (the (PAM_TYPE env)), sshd_pid := ppid,
       uid := c_strncpy sizeof_uid (callback_uid env)\<rparr>"

lemma callback_record_unfold:
  assumes "length now < sizeof_log_date"
  shows "callback_record env now ppid =
    (if \<not> given (PAM_TYPE env) then Inl 101
     else if given (SSH_CONNECTION env)
     then ssh_fields (the (SSH_CONNECTION env)) (callback_base env now ppid)
     else if \<not> given (PAM_RHOST env) then Inl 102
     else if length (the (PAM_RHOST env)) \<ge> sizeof_ipaddr then Inl 103
     else Inr ((callback_base env now ppid)
       \<lparr>src_ipaddr := c_strncpy sizeof_ipaddr (the (PAM_RHOST env)),
        dst_ipaddr := c_strncpy sizeof_ipaddr ''0.0.0.0'', src_port := 0\<rparr>))"
proof -
  have "c_memcpy (log_date log_data_zero) (now @ [nul]) = c_strncpy sizeof_log_date now"
    using memcpy_zero_terminated [OF assms] by (simp add: log_data_zero_def)
  then show ?thesis
    by (simp add: callback_record_def callback_base_def callback_uid_def Let_def)
qed

lemma ssh_fields_InrD:
  assumes "ssh_fields s d = Inr d'"
    "src_ipaddr d = replicate sizeof_ipaddr nul" "dst_ipaddr d = replicate sizeof_ipaddr nul"
  shows "\<exists>src dst port. set src \<subseteq> set s \<and> set dst \<subseteq> set s \<and> src \<noteq> [] \<and> dst \<noteq> [] \<and>
    length src < sizeof_ipaddr \<and> length dst < sizeof_ipaddr \<and>
    d' = d\<lparr>src_ipaddr := c_strncpy sizeof_ipaddr src, src_port := port,
           dst_ipaddr := c_strncpy sizeof_ipaddr dst\<rparr>"
proof -
  let ?s1 = "skip_space s"
  let ?src = "word_of ?s1"
  from assms(1) obtain port s2 where p: "port_digits 0 0 (skip_space (after_word ?s1)) = Inr (port, s2)"
    and src: "?src \<noteq> []" "length ?src < sizeof_ipaddr"
    and dst: "word_of (skip_space s2) \<noteq> []" "length (word_of (skip_space s2)) < sizeof_ipaddr"
    and d': "d' = d\<lparr>src_ipaddr := c_memcpy (src_ipaddr d) ?src, src_port := port,
           dst_ipaddr := c_memcpy (dst_ipaddr d) (word_of (skip_space s2))\<rparr>"
    by (auto simp: ssh_fields_def Let_def split: if_splits sum.splits prod.splits)
  have "port_digits v 0 t = Inr (port, s2) \<Longrightarrow> set s2 \<subseteq> set t" for v t
    by (induction t arbitrary: v) (auto simp: Let_def split: if_splits)
  then have "set s2 \<subseteq> set s" using p by (meson order_trans set_dropWhileD subsetI)
  then have "set (word_of (skip_space s2)) \<subseteq> set s" "set ?src \<subseteq> set s"
    by (auto dest!: set_takeWhileD set_dropWhileD)
  with src dst d' assms(2,3) show ?thesis
    by (intro exI [of _ ?src] exI [of _ "word_of (skip_space s2)"] exI [of _ port])
      (simp add: memcpy_zero_strncpy)
qed

section \<open>The properties of the callback\<close>

definition cstr_env :: "callback_env \<Rightarrow> bool" where
  "cstr_env env \<longleftrightarrow> (\<forall>v \<in> {PAM_TYPE env, PAM_USER env, SSH_CONNECTION env, PAM_RHOST env}.
     case v of None \<Rightarrow> True | Some s \<Rightarrow> nul \<notin> set s)"

definition ssh_login :: "cstr \<Rightarrow> nat \<Rightarrow> callback_env" where
  "ssh_login user port =
     \<lparr>PAM_TYPE = Some ''auth'', PAM_USER = Some user,
      SSH_CONNECTION = Some (''10.1.2.3 '' @ show_nat port @ '' 10.0.0.1 22''), PAM_RHOST = None\<rparr>"

text \<open>
  What the callback reports of an SSH login. From \<open>SSH_CONNECTION\<close> as \<open>sshd\<close> sets it,
  the record has the client's address and port, the server's address, the event, the parent's
  process id, the time and the user name (cut at the field's 60 bytes), each NUL-padded.
\<close>

theorem callback_record_ssh:
  assumes "address_word src" "address_word dst" "port < 2 ^ 16"
    "PAM_TYPE env = Some type" "type \<noteq> []" "PAM_USER env = Some user" "user \<noteq> []"
    "SSH_CONNECTION env = Some (src @ '' '' @ show_nat port @ '' '' @ dst @ '' '' @ rest)"
    "length now < sizeof_log_date"
  shows "callback_record env now ppid =
    Inr \<lparr>dst_ipaddr = c_strncpy sizeof_ipaddr dst, src_ipaddr = c_strncpy sizeof_ipaddr src,
         src_port = of_nat port, event = log_event_parse_str type, sshd_pid = ppid,
         uid = c_strncpy sizeof_uid user, log_date = c_strncpy sizeof_log_date now\<rparr>"
proof -
  have g: "given (PAM_TYPE env)" "given (SSH_CONNECTION env)" "callback_uid env = user"
    using assms by (simp_all add: given_def callback_uid_def)
  have "ssh_fields (the (SSH_CONNECTION env)) (callback_base env now ppid) =
      Inr ((callback_base env now ppid)\<lparr>src_ipaddr := c_strncpy sizeof_ipaddr src,
        src_port := of_nat port, dst_ipaddr := c_strncpy sizeof_ipaddr dst\<rparr>)"
    unfolding assms(8) option.sel
    by (rule ssh_fields_text [OF assms(1-3)]) (simp_all add: callback_base_def log_data_zero_def)
  with g assms(4) show ?thesis
    unfolding callback_record_unfold [OF assms(9)]
    by (simp add: callback_base_def log_data_zero_def)
qed

theorem callback_record_ssh_witness:
  "callback_record (ssh_login ''alice'' 50022) ''2024-05-01 10:00:00'' 4242 =
    Inr \<lparr>dst_ipaddr = c_strncpy sizeof_ipaddr ''10.0.0.1'', src_ipaddr = c_strncpy sizeof_ipaddr ''10.1.2.3'',
         src_port = of_nat 50022, event = log_event_parse_str ''auth'', sshd_pid = 4242,
         uid = c_strncpy sizeof_uid ''alice'', log_date = c_strncpy sizeof_log_date ''2024-05-01 10:00:00''\<rparr>"
  by (rule callback_record_ssh [where rest = "''22''"])
    (simp_all add: ssh_login_def address_word_def cchar_simps)

text \<open>
  What the callback builds and what the daemon accepts. Every record the callback gets as
  far as sending has fields of the declared sizes and survives the trip through its memory
  image; it passes \<open>log_data_is_valid\<close> exactly when the user name is shorter than its field,
  since a longer one is copied without a terminator.
\<close>

lemma callback_record_valid:
  assumes "callback_record env now ppid = Inr d" "cstr_env env"
    "now \<noteq> []" "nul \<notin> set now" "length now < sizeof_log_date"
  shows "log_data_wf d \<and> log_data_of_bytes (log_data_bytes d) = d \<and>
    (log_data_is_valid (Some d) \<longleftrightarrow> length (callback_uid env) < sizeof_uid)"
proof -
  let ?b = "callback_base env now ppid"
  have z: "src_ipaddr ?b = replicate sizeof_ipaddr nul" "dst_ipaddr ?b = replicate sizeof_ipaddr nul"
    by (simp_all add: callback_base_def log_data_zero_def)
  have "\<exists>src dst port. nul \<notin> set src \<and> nul \<notin> set dst \<and> src \<noteq> [] \<and> dst \<noteq> [] \<and>
      length src < sizeof_ipaddr \<and> length dst < sizeof_ipaddr \<and>
      d = ?b\<lparr>src_ipaddr := c_strncpy sizeof_ipaddr src, src_port := port,
            dst_ipaddr := c_strncpy sizeof_ipaddr dst\<rparr>"
  proof (cases "given (SSH_CONNECTION env)")
    case True
    then have "ssh_fields (the (SSH_CONNECTION env)) ?b = Inr d"
      using assms(1) unfolding callback_record_unfold [OF assms(5)] by (simp split: if_splits)
    moreover have "nul \<notin> set (the (SSH_CONNECTION env))"
      using True assms(2) by (auto simp: cstr_env_def given_def)
    ultimately show ?thesis using ssh_fields_InrD [OF _ z, of _ d] by blast
  next
    case False
    let ?h = "the (PAM_RHOST env)"
    have h: "given (PAM_RHOST env)" "length ?h < sizeof_ipaddr"
      "d = ?b\<lparr>src_ipaddr := c_strncpy sizeof_ipaddr ?h,
             dst_ipaddr := c_strncpy sizeof_ipaddr ''0.0.0.0'', src_port := 0\<rparr>"
      using assms(1) False unfolding callback_record_unfold [OF assms(5)] by (auto split: if_splits)
    moreover have "nul \<notin> set ?h" "?h \<noteq> []" using h(1) assms(2) by (auto simp: cstr_env_def given_def)
    ultimately show ?thesis by (intro exI [of _ ?h] exI [of _ "''0.0.0.0''"] exI [of _ 0]) simp
  qed
  then obtain src dst port where s: "nul \<notin> set src" "nul \<notin> set dst" "src \<noteq> []" "dst \<noteq> []"
      "length src < sizeof_ipaddr" "length dst < sizeof_ipaddr"
      "d = ?b\<lparr>src_ipaddr := c_strncpy sizeof_ipaddr src, src_port := port,
            dst_ipaddr := c_strncpy sizeof_ipaddr dst\<rparr>"
    by blast
  have u: "nul \<notin> set (callback_uid env)" "callback_uid env \<noteq> []"
    using assms(2) by (auto simp: callback_uid_def cstr_env_def given_def)
  have wf: "log_data_wf d" using s(7) by (simp add: log_data_wf_def callback_base_def)
  moreover have "log_data_is_valid (Some d) \<longleftrightarrow> length (callback_uid env) < sizeof_uid"
    using s u assms(3-5) event_parsed_valid
    by (simp add: log_data_is_valid_def callback_base_def field_ok_strncpy)
  ultimately show ?thesis by (simp add: log_data_bytes_inverse)
qed

lemma callback_record_valid_sample:
  "\<exists>d. callback_record (ssh_login (replicate 60 CHR ''a'') 50022) ''2024-05-01 10:00:00'' 4242 = Inr d \<and>
    log_data_wf d \<and> \<not> log_data_is_valid (Some d)"
proof -
  let ?env = "ssh_login (replicate 60 CHR ''a'') 50022"
  let ?now = "''2024-05-01 10:00:00''"
  have uid60: "callback_uid ?env = replicate 60 CHR ''a''"
    by (simp add: callback_uid_def ssh_login_def given_def)
  have "ssh_fields (''10.1.2.3'' @ '' '' @ show_nat 50022 @ '' '' @ ''10.0.0.1'' @ '' '' @ ''22'')
      (callback_base ?env ?now 4242) =
      Inr ((callback_base ?env ?now 4242)\<lparr>src_ipaddr := c_strncpy sizeof_ipaddr ''10.1.2.3'',
        src_port := of_nat 50022, dst_ipaddr := c_strncpy sizeof_ipaddr ''10.0.0.1''\<rparr>)" (is "_ = Inr ?d")
    by (rule ssh_fields_text)
      (simp_all add: address_word_def cchar_simps callback_base_def log_data_zero_def)
  then have r: "callback_record ?env ?now 4242 = Inr ?d"
    by (subst callback_record_unfold) (simp_all add: ssh_login_def given_def)
  moreover have "cstr_env ?env"
    by (simp add: cstr_env_def ssh_login_def)
  ultimately show ?thesis
    using callback_record_valid [OF r] by (simp add: uid60)
qed

section \<open>Delivery\<close>

text \<open>The peer takes the whole record at once, or the call is interrupted or reset.\<close>

definition whole_sends :: "round \<Rightarrow> bool" where
  "whole_sends r \<longleftrightarrow> (case send_returns r of
     Sent n \<Rightarrow> n = sizeof_log_data | Broken_pipe \<Rightarrow> False | Send_errno _ \<Rightarrow> False | _ \<Rightarrow> True)"

definition at_start :: "send_state \<Rightarrow> bool" where
  "at_start st \<longleftrightarrow> buffer_off st = 0 \<and> buffer_len st = sizeof_log_data \<and> (is_connected st \<longrightarrow> received st = [])"

lemma send_turn_whole:
  assumes "at_start st" "whole_sends r"
  shows "(\<exists>st'. send_turn r st = Inr st' \<and> at_start st') \<or>
    (\<exists>st'. send_turn r st = Inr st' \<and> buffer_len st' = 0 \<and> received st' = [0 ..< sizeof_log_data])"
  using assms by (auto simp: send_turn_def at_start_def whole_sends_def split: send_result.splits)

lemma send_loop_done: "buffer_len st = 0 \<Longrightarrow> send_loop t rounds st = (Exit_code 0, st)"
  by (cases rounds) auto

lemma send_loop_whole:
  assumes "at_start st" "\<forall>r \<in> set rounds. whole_sends r" "send_loop t rounds st = (res, st')"
  shows "(res = Exit_code 0 \<and> received st' = [0 ..< sizeof_log_data]) \<or>
    ((res = Exit_code ETIME \<or> res = Still_sending) \<and> at_start st')"
  using assms
proof (induction rounds arbitrary: st)
  case Nil
  then show ?case by (auto simp: at_start_def)
next
  case (Cons r rounds)
  have len: "buffer_len st \<noteq> 0" using Cons.prems(1) by (simp add: at_start_def)
  show ?case
  proof (cases "t > 0 \<and> alarm_rings r")
    case True
    then show ?thesis using Cons.prems len by auto
  next
    case False
    have "whole_sends r" using Cons.prems(2) by simp
    from send_turn_whole [OF Cons.prems(1) this] show ?thesis
    proof (elim disjE exE conjE)
      fix st1 assume "send_turn r st = Inr st1" "at_start st1"
      then show ?thesis using Cons.IH [of st1] Cons.prems(2,3) False len by simp
    next
      fix st1 assume "send_turn r st = Inr st1" "buffer_len st1 = 0" "received st1 = [0 ..< sizeof_log_data]"
      then show ?thesis using Cons.prems(3) False len by (auto simp: send_loop_done)
    qed
  qed
qed

lemma send_init_start [simp]: "at_start send_init"
  by (simp add: at_start_def send_init_def)

lemma send_loop_connecting:
  assumes "\<forall>r \<in> set rounds. \<not> connected r \<and> \<not> (t > 0 \<and> alarm_rings r)" "\<not> is_connected st" "buffer_len st \<noteq> 0"
  shows "send_loop t (rounds @ later) st = send_loop t later st"
  using assms by (induction rounds) (auto simp: send_turn_def)

lemma send_loop_interrupted:
  assumes "\<forall>r \<in> set rounds. send_returns r \<in> {EINTR, ENOBUFS} \<and> \<not> (t > 0 \<and> alarm_rings r)"
    "is_connected st" "buffer_len st \<noteq> 0"
  shows "send_loop t (rounds @ later) st = send_loop t later st"
  using assms by (induction rounds) (auto simp: send_turn_def)

text \<open>The callback got as far as the socket.\<close>

lemma callback_main_sends:
  assumes "callback_options opts dflt SOCKET_TIMEOUT_DEFAULT = Inr (path, t)"
    "length path < sizeof_sun_path" "callback_record env now ppid = Inr d"
  shows "callback_main dflt opts env now ppid True rounds =
    (case send_loop t rounds send_init of (res, st) \<Rightarrow> (res, Some d, received st))"
  using assms by (simp add: callback_main_def)

definition quiet_round :: "bool \<Rightarrow> send_result \<Rightarrow> round" where
  "quiet_round c s = \<lparr>alarm_rings = False, connected = c, send_returns = s\<rparr>"

text \<open>
  C37: delivery. When the daemon is there after any number of refused connections, and the
  transfer is interrupted any number of times before the kernel takes the record, the callback
  exits with 0 and the daemon has received exactly the 128 bytes of the record, in order; and
  as long as sends are all-or-nothing, no exit with 0 means anything else.
\<close>

theorem callback_delivers:
  assumes "callback_options opts dflt SOCKET_TIMEOUT_DEFAULT = Inr (path, t)"
    "length path < sizeof_sun_path" "callback_record env now ppid = Inr d"
  shows "callback_main dflt opts env now ppid True
      (replicate j (quiet_round False EINTR) @ quiet_round True EINTR #
       replicate k (quiet_round False EINTR) @ [quiet_round False (Sent sizeof_log_data)]) =
      (Exit_code 0, Some d, [0 ..< sizeof_log_data]) \<and>
    (\<forall>rounds d' offs. (\<forall>r \<in> set rounds. whole_sends r) \<longrightarrow>
       callback_main dflt opts env now ppid True rounds = (Exit_code 0, d', offs) \<longrightarrow>
       d' = Some d \<and> offs = [0 ..< sizeof_log_data])"
proof
  let ?st = "send_init\<lparr>is_connected := True\<rparr>"
  let ?sent = "quiet_round False (Sent sizeof_log_data)"
  let ?fin = "?st\<lparr>buffer_off := sizeof_log_data * sizeof_log_data, buffer_len := 0,
                 received := [0 ..< sizeof_log_data]\<rparr>"
  have l1: "send_loop t (replicate k (quiet_round False EINTR) @ [?sent]) ?st = send_loop t [?sent] ?st"
    by (rule send_loop_interrupted) (auto simp: quiet_round_def send_init_def)
  have l2: "send_loop t (replicate j (quiet_round False EINTR) @ quiet_round True EINTR # later) send_init =
      send_loop t (quiet_round True EINTR # later) send_init" for later
    by (rule send_loop_connecting) (auto simp: quiet_round_def send_init_def)
  have l3: "send_loop t (quiet_round True EINTR # later) send_init = send_loop t later ?st" for later
    by (simp add: send_turn_def quiet_round_def) (simp add: send_init_def)
  have l4: "send_loop t [?sent] ?st = (Exit_code 0, ?fin)"
    by (simp add: send_turn_def quiet_round_def send_init_def)
  show "callback_main dflt opts env now ppid True
      (replicate j (quiet_round False EINTR) @ quiet_round True EINTR #
       replicate k (quiet_round False EINTR) @ [?sent]) =
      (Exit_code 0, Some d, [0 ..< sizeof_log_data])"
    unfolding callback_main_sends [OF assms] l2 l3 l1 l4 by simp
next
  show "\<forall>rounds d' offs. (\<forall>r \<in> set rounds. whole_sends r) \<longrightarrow>
       callback_main dflt opts env now ppid True rounds = (Exit_code 0, d', offs) \<longrightarrow>
       d' = Some d \<and> offs = [0 ..< sizeof_log_data]"
    using send_loop_whole [OF send_init_start]
    by (fastforce simp: callback_main_sends [OF assms] split: prod.splits)
qed

text \<open>
  A daemon that closes the connection, at whatever turn: where \<open>send\<close> reports that as a reset, the
  callback starts over with the whole record; where it raises \<open>SIGPIPE\<close>, the callback is dead, with
  the record not delivered and no exit code of its own.
\<close>

lemma callback_connection_closed:
  assumes "callback_options opts dflt SOCKET_TIMEOUT_DEFAULT = Inr (path, t)"
    "length path < sizeof_sun_path" "callback_record env now ppid = Inr d"
  shows "callback_main dflt opts env now ppid True
      (quiet_round True EINTR # replicate k (quiet_round False EINTR) @ quiet_round False Broken_pipe # later) =
      (Killed_by_SIGPIPE, Some d, []) \<and>
    callback_main dflt opts env now ppid True
      (quiet_round True EINTR # replicate k (quiet_round False EINTR) @ quiet_round False ECONNRESET # later) =
      callback_main dflt opts env now ppid True later"
proof -
  let ?st = "send_init\<lparr>is_connected := True\<rparr>"
  have l1: "send_loop t (quiet_round True EINTR # later) send_init = send_loop t later ?st" for later
    by (simp add: send_turn_def quiet_round_def) (simp add: send_init_def)
  have l2: "send_loop t (replicate k (quiet_round False EINTR) @ later) ?st = send_loop t later ?st" for later
    by (rule send_loop_interrupted) (auto simp: quiet_round_def send_init_def)
  have l3: "send_loop t (quiet_round False Broken_pipe # later) ?st = (Killed_by_SIGPIPE, ?st)"
    by (simp add: send_turn_def quiet_round_def send_init_def)
  have l4: "send_loop t (quiet_round False ECONNRESET # later) ?st = send_loop t later send_init"
    by (simp add: send_turn_def quiet_round_def send_init_def)
  show ?thesis
    unfolding callback_main_sends [OF assms] l1 l2 l3 l4 by (simp add: send_init_def)
qed

lemma sample_record:
  "callback_record (ssh_login ''bob'' 22) ''2024-05-01 10:00:00'' 7 = Inr
     \<lparr>dst_ipaddr = c_strncpy sizeof_ipaddr ''10.0.0.1'', src_ipaddr = c_strncpy sizeof_ipaddr ''10.1.2.3'',
      src_port = of_nat 22, event = log_event_value log_event_auth, sshd_pid = 7,
      uid = c_strncpy sizeof_uid ''bob'', log_date = c_strncpy sizeof_log_date ''2024-05-01 10:00:00''\<rparr>"
proof -
  have "ssh_fields (''10.1.2.3'' @ '' '' @ show_nat 22 @ '' '' @ ''10.0.0.1'' @ '' '' @ ''22'')
      (callback_base (ssh_login ''bob'' 22) ''2024-05-01 10:00:00'' 7) =
      Inr ((callback_base (ssh_login ''bob'' 22) ''2024-05-01 10:00:00'' 7)
        \<lparr>src_ipaddr := c_strncpy sizeof_ipaddr ''10.1.2.3'', src_port := of_nat 22,
         dst_ipaddr := c_strncpy sizeof_ipaddr ''10.0.0.1''\<rparr>)"
    by (rule ssh_fields_text)
      (simp_all add: address_word_def cchar_simps callback_base_def log_data_zero_def)
  then show ?thesis
    by (subst callback_record_unfold)
      (simp_all add: ssh_login_def given_def callback_base_def callback_uid_def log_data_zero_def
        log_event_parse_str_def)
qed

theorem callback_delivers_witness:
  "\<exists>d. callback_main ''/var/run/sock'' [Opt_timeout ''0''] (ssh_login ''bob'' 22)
      ''2024-05-01 10:00:00'' 7 True
      [quiet_round False EINTR, quiet_round True EINTR, quiet_round False (Sent sizeof_log_data)] =
      (Exit_code 0, Some d, [0 ..< sizeof_log_data])"
proof -
  have "c_strtol ''0'' = Some (0, [])" using c_strtol_show_int [of 0] by (simp add: show_int_def show_nat_0)
  then show ?thesis
    using callback_delivers [where opts = "[Opt_timeout ''0'']" and dflt = "''/var/run/sock''" and
        path = "''/var/run/sock''" and t = 0 and j = 1 and k = 0, OF _ _ sample_record]
    by simp
qed

text \<open>
  A partial send. The pointer to the unsent rest is moved in units of whole records, so
  after a send of \<open>n\<close> bytes the next bytes sent are those at offset \<open>128 * n\<close>, behind the
  record; the callback still exits with 0.
\<close>

theorem callback_partial_send:
  assumes "callback_options opts dflt SOCKET_TIMEOUT_DEFAULT = Inr (path, t)"
    "length path < sizeof_sun_path" "callback_record env now ppid = Inr d"
    "0 < n" "n < sizeof_log_data"
  shows "\<exists>offs. callback_main dflt opts env now ppid True
      [quiet_round True EINTR, quiet_round True (Sent n), quiet_round True (Sent (sizeof_log_data - n))] =
      (Exit_code 0, Some d, [0 ..< n] @ offs) \<and> offs \<noteq> [] \<and> (\<forall>k \<in> set offs. sizeof_log_data \<le> k)"
proof -
  let ?offs = "[sizeof_log_data * n ..< sizeof_log_data * n + (sizeof_log_data - n)]"
  have "callback_main dflt opts env now ppid True
      [quiet_round True EINTR, quiet_round True (Sent n), quiet_round True (Sent (sizeof_log_data - n))] =
      (Exit_code 0, Some d, [0 ..< n] @ ?offs)"
    using assms(4,5)
    by (simp add: callback_main_sends [OF assms(1-3)] send_turn_def quiet_round_def send_init_def)
  moreover have "?offs \<noteq> []" "\<forall>k \<in> set ?offs. sizeof_log_data \<le> k" using assms(4,5) by auto
  ultimately show ?thesis by blast
qed

theorem callback_partial_send_witness:
  "\<exists>d offs. callback_main ''/var/run/sock'' [] (ssh_login ''bob'' 22) ''2024-05-01 10:00:00'' 7 True
      [quiet_round True EINTR, quiet_round True (Sent 100), quiet_round True (Sent (sizeof_log_data - 100))] =
      (Exit_code 0, Some d, [0 ..< 100] @ offs) \<and> offs \<noteq> [] \<and> (\<forall>k \<in> set offs. sizeof_log_data \<le> k)"
  by (rule exI, rule callback_partial_send [where path = "''/var/run/sock''" and t = 5, OF _ _ sample_record])
    simp_all

text \<open>
  No daemon to connect to. With a timeout the callback exits with \<open>ETIME\<close> when the alarm
  rings; with \<open>--timeout 0\<close> there is no alarm and it retries \<open>connect\<close> without end.
\<close>

theorem callback_without_daemon:
  assumes "callback_options opts dflt SOCKET_TIMEOUT_DEFAULT = Inr (path, t)"
    "length path < sizeof_sun_path" "callback_record env now ppid = Inr d"
    "\<forall>r \<in> set rounds. \<not> connected r"
  shows "callback_main dflt opts env now ppid True rounds =
    (if t > 0 \<and> (\<exists>r \<in> set rounds. alarm_rings r) then Exit_code ETIME else Still_sending, Some d, [])"
proof -
  have "send_loop t rounds send_init =
      (if t > 0 \<and> (\<exists>r \<in> set rounds. alarm_rings r) then Exit_code ETIME else Still_sending, send_init)"
    using assms(4) by (induction rounds) (auto simp: send_turn_def send_init_def)
  then show ?thesis by (simp add: callback_main_sends [OF assms(1-3)] send_init_def)
qed

theorem callback_without_daemon_witness:
  "\<exists>d. callback_main ''/var/run/sock'' [] (ssh_login ''bob'' 22) ''2024-05-01 10:00:00'' 7 True
      (replicate 2 (quiet_round False EINTR)) = (Still_sending, Some d, [])"
  using callback_without_daemon [where opts = "[]" and dflt = "''/var/run/sock''" and
      path = "''/var/run/sock''" and t = 5 and rounds = "replicate 2 (quiet_round False EINTR)",
      OF _ _ sample_record]
  by (simp add: quiet_round_def)

end
