(* ===== verification/Db_Instance.thy ===== *)
theory Db_Instance
  imports Yaml_Helpers Log_Data Asprintf
begin

unbundle bit_operations_syntax

text \<open>
  The part of \<open>src/libiptracking/db_interface.c\<close> every driver builds on: the base record of
  an instance, its last error message, and the calls the drivers make of the libraries they
  stand on. The C library's streams, SQLite, libmysqlclient and libpq are parameters: a
  library answers each call with a return code and possibly a text, depending on everything
  it was asked before. A driver operation is a function of the library, of the history of
  calls, of the instance and of the caller's \<open>error_msg\<close>, so its result shows exactly which
  calls it makes, in which order, with which arguments.
\<close>

section \<open>Library calls\<close>

datatype stmt = Log_stmt | Blocklist_stmt

text \<open>libpq: the connection of the instance and the notification thread's own.\<close>

datatype pgconn = Main_conn | Async_conn

datatype db_call =
    Malloc
  | Fopen cstr
  | Fprintf cstr
  | Fflush
  | Fclose
  | Sqlite3_open_v2 cstr "32 word"
  | Sqlite3_prepare_v2 stmt cstr
  | Sqlite3_bind_text nat cstr
  | Sqlite3_bind_int nat int
  | Sqlite3_step stmt
  | Sqlite3_clear_bindings
  | Sqlite3_reset
  | Sqlite3_column_text nat
  | Sqlite3_finalize stmt
  | Sqlite3_close
  | Sqlite3_errstr int
  | Sqlite3_errmsg
  | Mysql_init
  | Mysql_real_connect "cstr option" "cstr option" "cstr option" "cstr option" "32 word" "cstr option"
  | Mysql_stmt_init stmt
  | Mysql_stmt_prepare stmt cstr
  | Mysql_stmt_param_count
  | Mysql_stmt_reset
  | Mysql_stmt_bind_param "cstr list"
  | Mysql_stmt_bind_result
  | Mysql_stmt_execute stmt
  | Mysql_stmt_fetch
  | Mysql_stmt_close stmt
  | Mysql_close
  | Mysql_error
  | Mysql_stmt_error
  | PQconnectdbParams pgconn "(cstr \<times> cstr) list"
  | PQprepare pgconn cstr cstr nat
  | PQexecPrepared pgconn cstr "cstr option list"
  | PQexec pgconn cstr
  | PQntuples
  | PQgetvalue nat nat
  | PQclear
  | PQfinish pgconn
  | PQsocket pgconn
  | PQerrorMessage pgconn
  | Pthread_create
  | Pthread_cancel
  | Pthread_join

text \<open>
  A reply: the integer returned (for a call that returns a pointer, 0 for NULL; for one that
  returns a \<open>PGresult\<close>, the status of the result, 0 for NULL) and the text, where there is
  one.
\<close>

record reply =
  ret :: int
  str :: "cstr option"

type_synonym db_library = "db_call list \<Rightarrow> db_call \<Rightarrow> reply"

text \<open>The world of an operation: the calls made so far, the instance, \<open>*error_msg\<close>.\<close>

record 'i dbs =
  calls :: "db_call list"
  inst :: 'i
  err :: errp

definition lib_call :: "db_library \<Rightarrow> db_call \<Rightarrow> 'i dbs \<Rightarrow> reply \<times> 'i dbs" where
  "lib_call lib c s = (lib (calls s) c, s\<lparr>calls := calls s @ [c]\<rparr>)"

text \<open>A call whose result the code ignores.\<close>

definition lib_do :: "db_library \<Rightarrow> db_call \<Rightarrow> 'i dbs \<Rightarrow> 'i dbs" where
  "lib_do lib c s = snd (lib_call lib c s)"

section \<open>The base of an instance\<close>

abbreviation db_options_no_pam_logging :: "32 word" where "db_options_no_pam_logging \<equiv> 1"
abbreviation db_options_no_firewall :: "32 word" where "db_options_no_firewall \<equiv> 2"

text \<open>\<open>DB_OPTIONS_ISSET\<close>.\<close>

definition db_options_isset :: "32 word \<Rightarrow> 32 word \<Rightarrow> bool" where
  "db_options_isset opts v \<longleftrightarrow> opts AND v = v"

text \<open>
  The callback of the asynchronous notification is named by a number; the context is opaque.
\<close>

record db_instance =
  options :: "32 word"
  last_error :: "cstr option"
  notification_callback :: "nat option"
  notification_context :: "nat option"

definition db_instance_base :: db_instance where
  "db_instance_base = \<lparr>options = 0, last_error = None, notification_callback = None,
     notification_context = None\<rparr>"

section \<open>The last error message\<close>

text \<open>
  \<open>while ( p_end - 1 > error_str )\<close>: drop white space at the end, keeping the first character.
  The argument is the reversed text.
\<close>

fun drop_trailing :: "cstr \<Rightarrow> cstr" where
  "drop_trailing [] = []"
| "drop_trailing [c] = [c]"
| "drop_trailing (c # s) = (if c_isspace c then drop_trailing s else c # s)"

definition set_last_error_text :: "cstr \<Rightarrow> int \<Rightarrow> cstr" where
  "set_last_error_text error_str error_str_len =
     (if error_str_len < 0
      then rev (drop_trailing (rev (dropWhile c_isspace error_str)))
      else take (nat error_str_len) error_str)"

text \<open>\<open>__db_instance_set_last_error\<close> on an instance; the text is also what it returns.\<close>

definition db_instance_set_last_error ::
  "'a db_instance_scheme option \<Rightarrow> cstr \<Rightarrow> int \<Rightarrow> cstr option \<times> 'a db_instance_scheme option" where
  "db_instance_set_last_error the_db error_str error_str_len =
     (case the_db of
        None \<Rightarrow> (None, None)
      | Some db \<Rightarrow>
          (let t = set_last_error_text error_str error_str_len
           in (Some t, Some (db\<lparr>last_error := Some t\<rparr>))))"

text \<open>
  What every driver does with a library's message:
  \<open>if ( error_msg ) *error_msg = __db_instance_set_last_error(the_db, text, -1)\<close>.
\<close>

definition report_error :: "cstr option \<Rightarrow> 'a db_instance_scheme dbs \<Rightarrow> 'a db_instance_scheme dbs" where
  "report_error text s =
     (case err s of
        None \<Rightarrow> s
      | Some _ \<Rightarrow>
          (case db_instance_set_last_error (Some (inst s)) (case text of None \<Rightarrow> [] | Some t \<Rightarrow> t) (-1) of
             (m, i) \<Rightarrow> s\<lparr>inst := the i, err := set_errp (err s) m\<rparr>))"

text \<open>The same when the text comes from a call that is only made when the caller wants it.\<close>

definition report_call :: "db_library \<Rightarrow> db_call \<Rightarrow> 'a db_instance_scheme dbs \<Rightarrow> 'a db_instance_scheme dbs" where
  "report_call lib c s =
     (if err s = None then s
      else case lib_call lib c s of (r, s1) \<Rightarrow> report_error (str r) s1)"

text \<open>
  \<open>__db_instance_printf_last_error\<close>. It hands its argument list to \<open>asprintf\<close> as if it were the
  one argument of the format, so only a format without conversions has a defined result:
  \<open>formatted\<close> is what \<open>asprintf\<close> makes of it.
\<close>

definition db_instance_printf_last_error ::
  "'a db_instance_scheme option \<Rightarrow> cstr option \<Rightarrow> bool \<Rightarrow> cstr option \<times> 'a db_instance_scheme option" where
  "db_instance_printf_last_error the_db formatted malloc_ok =
     (case the_db of
        None \<Rightarrow> (None, None)
      | Some db \<Rightarrow>
          (let m = snd (asprintf formatted malloc_ok formatted None)
           in (m, Some (db\<lparr>last_error := m\<rparr>))))"

definition report_printf :: "db_library \<Rightarrow> cstr \<Rightarrow> 'a db_instance_scheme dbs \<Rightarrow> 'a db_instance_scheme dbs" where
  "report_printf lib text s =
     (if err s = None then s
      else case lib_call lib Malloc s of
        (r, s1) \<Rightarrow>
          (case db_instance_printf_last_error (Some (inst s1)) (Some text) (ret r \<noteq> 0) of
             (m, i) \<Rightarrow> s1\<lparr>inst := the i, err := set_errp (err s1) m\<rparr>))"

text \<open>\<open>if ( error_msg ) *error_msg = "..."\<close> with a constant text.\<close>

definition report_text :: "cstr \<Rightarrow> 'i dbs \<Rightarrow> 'i dbs" where
  "report_text t s = s\<lparr>err := set_errp (err s) (Some t)\<rparr>"

section \<open>Reading a driver's configuration\<close>

text \<open>A key of the database's mapping, as a C string.\<close>

definition conf_node :: "yaml_document \<Rightarrow> yaml_node option \<Rightarrow> cstr \<Rightarrow> yaml_node option" where
  "conf_node doc node key = yaml_helper_doc_node_at_path doc node key"

definition conf_scalar :: "yaml_document \<Rightarrow> yaml_node option \<Rightarrow> cstr \<Rightarrow> cstr option" where
  "conf_scalar doc node key =
     (case conf_node doc node key of None \<Rightarrow> None | Some n \<Rightarrow> yaml_helper_get_scalar_value n)"

section \<open>Facts\<close>

lemma calls_lib_do [simp]: "calls (lib_do lib c s) = calls s @ [c]"
  by (simp add: lib_do_def lib_call_def)

lemma inst_lib_do [simp]: "inst (lib_do lib c s) = inst s" "err (lib_do lib c s) = err s"
  by (simp_all add: lib_do_def lib_call_def)

lemma calls_report [simp]:
  "calls (report_error t s) = calls s" "calls (report_text x s') = calls s'" "inst (report_text x s') = inst s'"
  by (simp_all add: report_error_def report_text_def split: option.splits prod.splits)

lemma inst_report_error:
  "inst (report_error t s) = inst s \<or> (\<exists>m. inst (report_error t s) = (inst s)\<lparr>last_error := m\<rparr>)"
  by (auto simp: report_error_def db_instance_set_last_error_def Let_def split: option.splits)

lemma calls_report_call:
  "calls (report_call lib c s) = calls s \<or> calls (report_call lib c s) = calls s @ [c]"
  by (simp add: report_call_def lib_call_def)

lemma inst_report_call:
  "inst (report_call lib c s) = inst s \<or> (\<exists>m. inst (report_call lib c s) = (inst s)\<lparr>last_error := m\<rparr>)"
  using inst_report_error [of "str (fst (lib_call lib c s))" "snd (lib_call lib c s)"]
  by (auto simp: report_call_def lib_call_def)

lemma calls_report_printf:
  "calls (report_printf lib t s) = calls s \<or> calls (report_printf lib t s) = calls s @ [Malloc]"
  by (simp add: report_printf_def lib_call_def split: prod.split)

lemma inst_report_printf:
  "inst (report_printf lib t s) = inst s \<or> (\<exists>m. inst (report_printf lib t s) = (inst s)\<lparr>last_error := m\<rparr>)"
  by (auto simp: report_printf_def lib_call_def db_instance_printf_last_error_def Let_def)

lemma drop_trailing_eq:
  "s \<noteq> [] \<Longrightarrow> \<not> c_isspace (last s) \<Longrightarrow> drop_trailing s = dropWhile c_isspace s"
  by (induction s rule: drop_trailing.induct) (auto split: if_splits)

lemma trimmed:
  assumes "n < 0"
  shows "set_last_error_text s n = rev (dropWhile c_isspace (rev (dropWhile c_isspace s)))"
proof (cases "dropWhile c_isspace s = []")
  case False
  then have "\<not> c_isspace (last (rev (dropWhile c_isspace s)))"
    by (simp add: last_rev hd_dropWhile)
  then show ?thesis using assms False by (simp add: set_last_error_text_def drop_trailing_eq)
next
  case True
  show ?thesis unfolding set_last_error_text_def True using assms by simp
qed

lemma trim_of_padded:
  assumes "list_all c_isspace ws" "list_all c_isspace vs" "m = [] \<or> \<not> c_isspace (hd m)"
    "m = [] \<or> \<not> c_isspace (last m)"
  shows "rev (dropWhile c_isspace (rev (dropWhile c_isspace (ws @ m @ vs)))) = m"
proof (cases m)
  case Nil
  then have "\<forall>c \<in> set (ws @ m @ vs). c_isspace c" using assms by (auto simp: list_all_iff)
  then have "dropWhile c_isspace (ws @ m @ vs) = []" by (simp only: dropWhile_eq_Nil_conv)
  then show ?thesis using Nil by (simp only: dropWhile.simps rev.simps)
next
  case (Cons c m')
  then have "dropWhile c_isspace (ws @ m @ vs) = m @ vs"
    using assms by (auto simp: list_all_iff dropWhile_append2)
  moreover obtain c' m'' where m: "rev m = c' # m''" using Cons by (cases "rev m") auto
  then have "\<not> c_isspace c'" using assms(4) Cons by (metis hd_rev list.sel(1) list.simps(3))
  then have "dropWhile c_isspace (rev vs @ rev m) = rev m"
    using assms(2) m dropWhile_append2 [of "rev vs" c_isspace "rev m"] by (simp add: list_all_iff)
  ultimately show ?thesis by simp
qed

text \<open>
  \<open>__db_instance_set_last_error\<close> with a negative length stores the message without the
  white space around it, whatever message was stored before, and returns what it stored; a
  NULL instance is left alone. This is how the newline libpq ends its messages with disappears.
\<close>

theorem db_last_error_trims:
  assumes "list_all c_isspace ws" "list_all c_isspace vs" "m = [] \<or> \<not> c_isspace (hd m)"
    "m = [] \<or> \<not> c_isspace (last m)"
  shows "db_instance_set_last_error (Some db) (ws @ m @ vs) (-1) =
      (Some m, Some (db\<lparr>last_error := Some m\<rparr>)) \<and>
    db_instance_set_last_error None (ws @ m @ vs) (-1) = (None, None :: 'a db_instance_scheme option)"
  using trim_of_padded [OF assms]
  by (simp add: db_instance_set_last_error_def Let_def trimmed)

theorem db_last_error_trims_witness:
  "db_instance_set_last_error (Some db_instance_base) (''  '' @ ''no route to host'' @ [CHR 0x0A]) (-1) =
    (Some ''no route to host'', Some (db_instance_base\<lparr>last_error := Some ''no route to host''\<rparr>)) \<and>
   db_instance_set_last_error None (''  '' @ ''no route to host'' @ [CHR 0x0A]) (-1) =
    (None, None :: db_instance option)"
  by (rule db_last_error_trims) (simp_all add: cchar_simps)

end
