(* ===== verification/Db_Driver.thy ===== *)
theory Db_Driver
  imports Db_Instance "HOL-Library.Sublist"
begin

text \<open>
  The contract of a database driver, as the event daemon uses it: \<open>open\<close>, \<open>close\<close> and
  \<open>log_one_event\<close> of \<open>db_driver_callbacks_t\<close> in \<open>src/libiptracking/db_interface.c\<close>. The locale
  states the laws once; each driver interprets it on its own operations.

  \<open>opts\<close> are the options of an instance, \<open>rows\<close> reads off a history of library calls what was handed to the database for storage,
  and \<open>row\<close> is what an event becomes.
\<close>

text \<open>A sequence of events through \<open>log_one_event\<close>: the acknowledged ones and the final state.\<close>

fun log_all ::
  "(log_data \<Rightarrow> 's \<Rightarrow> bool \<times> 's) \<Rightarrow> log_data list \<Rightarrow> 's \<Rightarrow> log_data list \<times> 's" where
  "log_all log_op [] s = ([], s)"
| "log_all log_op (e # es) s =
     (case log_op e s of
        (ok, s') \<Rightarrow> (case log_all log_op es s' of (acked, s'') \<Rightarrow> (if ok then e # acked else acked, s'')))"

locale db_driver =
  fixes lib_ok :: "db_library \<Rightarrow> bool"
    and opts :: "'i \<Rightarrow> 32 word"
    and connected :: "'i \<Rightarrow> bool"
    and open_op :: "db_library \<Rightarrow> 'i dbs \<Rightarrow> bool \<times> 'i dbs"
    and close_op :: "db_library \<Rightarrow> 'i dbs \<Rightarrow> bool \<times> 'i dbs"
    and log_op :: "db_library \<Rightarrow> log_data \<Rightarrow> 'i dbs \<Rightarrow> bool \<times> 'i dbs"
    and rows :: "'i \<Rightarrow> db_call list \<Rightarrow> 'r list"
    and row :: "'i \<Rightarrow> log_data \<Rightarrow> 'r"
  assumes open_connects: "lib_ok lib \<Longrightarrow> open_op lib s = (True, s') \<Longrightarrow>
      \<not> db_options_isset (opts (inst s)) db_options_no_pam_logging \<Longrightarrow> connected (inst s')"
    and open_again: "connected (inst s) \<Longrightarrow> open_op lib s = (True, s)"
    and open_stores_nothing: "open_op lib s = (r, s') \<Longrightarrow>
      rows (inst s') (calls s') = rows (inst s) (calls s) \<and> row (inst s') = row (inst s)"
    and close_disconnects: "close_op lib s = (r, s') \<Longrightarrow> \<not> connected (inst s')"
    and close_stores_nothing: "close_op lib s = (r, s') \<Longrightarrow>
      rows (inst s') (calls s') = rows (inst s) (calls s) \<and> row (inst s') = row (inst s)"
    and log_disconnected: "\<not> connected (inst s) \<Longrightarrow> log_op lib e s = (r, s') \<Longrightarrow>
      \<not> r \<and> calls s' = calls s"
    and log_keeps: "log_op lib e s = (r, s') \<Longrightarrow>
      connected (inst s') = connected (inst s) \<and> row (inst s') = row (inst s)"
    and log_sends: "log_op lib e s = (r, s') \<Longrightarrow>
      rows (inst s') (calls s') = rows (inst s) (calls s) @ [row (inst s) e] \<or>
      (\<not> r \<and> rows (inst s') (calls s') = rows (inst s) (calls s))"
begin

text \<open>
  What one more event does to the account of a run: what is stored is a subsequence of the
  events that were logged, and every acknowledged event is among what is stored.
\<close>

lemma log_one_rows:
  assumes "log_op lib e s = (r, s')"
    "rows (inst s) (calls s) = base @ map (row (inst s)) sent" "subseq sent es" "subseq acked sent"
  shows "\<exists>sent'. rows (inst s') (calls s') = base @ map (row (inst s')) sent' \<and>
    subseq sent' (es @ [e]) \<and> subseq (if r then acked @ [e] else acked) sent'"
proof -
  have row: "row (inst s') = row (inst s)" using log_keeps [OF assms(1)] by simp
  from log_sends [OF assms(1)] show ?thesis
  proof
    assume "rows (inst s') (calls s') = rows (inst s) (calls s) @ [row (inst s) e]"
    with assms row show ?thesis
      by (intro exI [of _ "sent @ [e]"]) (auto simp: list_emb_append_mono intro: list_emb_append2 subseq_order.order_trans)
  next
    assume "\<not> r \<and> rows (inst s') (calls s') = rows (inst s) (calls s)"
    with assms row show ?thesis
      by (intro exI [of _ sent]) (auto intro: subseq_order.order_trans)
  qed
qed

text \<open>
  Logging a sequence of events: what reaches the database is a subsequence of it, in order and
  without repetition, that contains every acknowledged event.
\<close>

lemma log_all_rows:
  assumes "log_all (log_op lib) es s = (acked, s')"
  shows "\<exists>sent. rows (inst s') (calls s') = rows (inst s) (calls s) @ map (row (inst s)) sent \<and>
    subseq sent es \<and> subseq acked sent"
  using assms
proof (induction es arbitrary: s acked)
  case (Cons e es)
  obtain ok s1 where l: "log_op lib e s = (ok, s1)" by fastforce
  obtain acked1 where a: "log_all (log_op lib) es s1 = (acked1, s')" "acked = (if ok then e # acked1 else acked1)"
    using Cons.prems l by (auto split: prod.splits)
  obtain sent where s: "rows (inst s') (calls s') = rows (inst s1) (calls s1) @ map (row (inst s)) sent"
    "subseq sent es" "subseq acked1 sent"
    using Cons.IH [OF a(1)] log_keeps [OF l] by auto
  show ?case
  proof (cases "rows (inst s1) (calls s1) = rows (inst s) (calls s) @ [row (inst s) e]")
    case True
    with s a show ?thesis by (intro exI [of _ "e # sent"]) auto
  next
    case False
    then have "\<not> ok" "rows (inst s1) (calls s1) = rows (inst s) (calls s)" using log_sends [OF l] by auto
    with s a show ?thesis by (intro exI [of _ sent]) (auto intro: subseq_order.order_trans)
  qed
qed simp

text \<open>A session: open, log, close. Nothing else is stored, and the driver ends disconnected.\<close>

lemma session_rows:
  assumes "open_op lib s = (r1, s1)" "log_all (log_op lib) es s1 = (acked, s2)" "close_op lib s2 = (r3, s3)"
  shows "\<not> connected (inst s3) \<and>
    (\<exists>sent. rows (inst s3) (calls s3) = rows (inst s) (calls s) @ map (row (inst s1)) sent \<and>
       subseq sent es \<and> subseq acked sent)"
  using log_all_rows [OF assms(2)] open_stores_nothing [OF assms(1)]
    close_disconnects [OF assms(3)] close_stores_nothing [OF assms(3)] by simp

end

section \<open>Reading a list of addresses\<close>

text \<open>
  The loop over \<open>db_blocklist_enum_next\<close>: read until it returns NULL. Fuel bounds the turns;
  \<open>None\<close> means it was used up.
\<close>

fun collect :: "nat \<Rightarrow> ('s \<Rightarrow> cstr option \<times> 's) \<Rightarrow> 's \<Rightarrow> (cstr list \<times> 's) option" where
  "collect 0 next_op s = None"
| "collect (Suc n) next_op s =
     (case next_op s of
        (None, s') \<Rightarrow> Some ([], s')
      | (Some x, s') \<Rightarrow> map_option (\<lambda>(xs, s''). (x # xs, s'')) (collect n next_op s'))"

text \<open>Reading through a layer that only wraps the state.\<close>

lemma collect_wrapped:
  assumes "\<And>s. outer (wrap s) = (fst (inner s), wrap (snd (inner s)))"
  shows "collect fuel outer (wrap s) = map_option (\<lambda>(xs, s'). (xs, wrap s')) (collect fuel inner s)"
proof (induction fuel arbitrary: s)
  case (Suc fuel)
  obtain r t where n: "inner s = (r, t)" by fastforce
  with assms [of s] Suc.IH [of t] show ?case
    by (auto simp: option.map_comp comp_def split_def split: option.split)
qed simp

text \<open>
  An enumerator over the rows of a result: each call moves one row on; a row whose text the
  driver does not deliver shows as NULL.
\<close>

locale blocklist_cursor =
  fixes ok :: "'s \<Rightarrow> bool"
    and next_op :: "'s \<Rightarrow> cstr option \<times> 's"
    and remaining :: "'s \<Rightarrow> cstr option list"
  assumes next_row: "ok s \<Longrightarrow> remaining s = r # rs \<Longrightarrow>
      \<exists>s'. next_op s = (r, s') \<and> ok s' \<and> remaining s' = rs"
    and next_end: "ok s \<Longrightarrow> remaining s = [] \<Longrightarrow>
      \<exists>s'. next_op s = (None, s') \<and> ok s' \<and> remaining s' = []"
begin

text \<open>The loop ends, with the rows up to the first one that shows as NULL.\<close>

lemma collect_rows:
  assumes "ok s" "length (remaining s) < fuel"
  shows "\<exists>s'. collect fuel next_op s =
      Some (map the (takeWhile (\<lambda>r. r \<noteq> None) (remaining s)), s') \<and> ok s'"
  using assms
proof (induction fuel arbitrary: s)
  case (Suc fuel)
  show ?case
  proof (cases "remaining s")
    case Nil
    from next_end [OF Suc.prems(1) Nil] Nil show ?thesis by auto
  next
    case (Cons r rs)
    from next_row [OF Suc.prems(1) Cons] obtain s' where
      s': "next_op s = (r, s')" "ok s'" "remaining s' = rs" by blast
    show ?thesis
    proof (cases r)
      case None
      with s' Cons show ?thesis by auto
    next
      case (Some x)
      from Suc.IH [OF s'(2)] s' Suc.prems(2) Cons obtain s'' where
        "collect fuel next_op s' = Some (map the (takeWhile (\<lambda>r. r \<noteq> None) rs), s'')" "ok s''" by auto
      with s' Some Cons show ?thesis by auto
    qed
  qed
qed simp

end

end
