(* ===== verification/Db_Csvfile.thy ===== *)
theory Db_Csvfile
  imports Db_Driver
begin

text \<open>
  \<open>src/libiptracking/db_drivers/db_instance_csvfile.c\<close>: the driver that appends one line per
  event to a file.
\<close>

section \<open>The instance\<close>

record db_instance_csvfile = db_instance +
  filename :: cstr
  fptr :: bool
  delimiter :: cstr

text \<open>\<open>__db_instance_csvfile_alloc\<close>; \<open>None\<close> is NULL. The strings are copied behind the record.\<close>

definition csvfile_alloc ::
  "bool \<Rightarrow> yaml_document \<Rightarrow> yaml_node option \<Rightarrow> db_instance_csvfile option" where
  "csvfile_alloc malloc_ok doc node =
     (let delim = (case conf_node doc node ''delimiter'' of
                     None \<Rightarrow> Some '',''
                   | Some n \<Rightarrow> yaml_helper_get_scalar_value n)
      in case delim of
           None \<Rightarrow> None
         | Some d \<Rightarrow>
             if d = [] then None
             else case conf_scalar doc node ''filename'' of
                    None \<Rightarrow> None
                  | Some f \<Rightarrow>
                      if malloc_ok
                      then Some (db_instance.extend db_instance_base
                             \<lparr>filename = f, fptr = False, delimiter = d\<rparr>)
                      else None)"

definition csvfile_has_valid_configuration :: "db_instance_csvfile \<Rightarrow> errp \<Rightarrow> bool \<times> errp" where
  "csvfile_has_valid_configuration db e = (True, e)"

text \<open>The lines logged at level info.\<close>

definition csvfile_summarize_to_log :: "db_instance_csvfile \<Rightarrow> cstr list" where
  "csvfile_summarize_to_log db =
     [''Database: driver_name = csvfile'', ''Database: filename = '' @ filename db,
      ''Database: delimiter = '' @ delimiter db]"

section \<open>Opening, closing and logging\<close>

definition csvfile_open ::
  "db_library \<Rightarrow> db_instance_csvfile dbs \<Rightarrow> bool \<times> db_instance_csvfile dbs" where
  "csvfile_open lib s =
     (if db_options_isset (options (inst s)) db_options_no_pam_logging then (True, s)
      else if fptr (inst s) then (True, s)
      else case lib_call lib (Fopen (filename (inst s))) s of
             (r, s1) \<Rightarrow>
               if ret r = 0 then (False, s1\<lparr>err := set_errp (err s1) (str r)\<rparr>)
               else (True, s1\<lparr>inst := (inst s1)\<lparr>fptr := True\<rparr>\<rparr>))"

definition csvfile_close ::
  "db_library \<Rightarrow> db_instance_csvfile dbs \<Rightarrow> bool \<times> db_instance_csvfile dbs" where
  "csvfile_close lib s =
     (True, if fptr (inst s)
            then (lib_do lib Fclose s)\<lparr>inst := (inst s)\<lparr>fptr := False\<rparr>\<rparr>
            else s)"

text \<open>The line. \<open>printf\<close> writes \<open>(null)\<close> for the NULL name of an event out of the enumeration.\<close>

definition event_text :: "16 word \<Rightarrow> cstr" where
  "event_text e = (case log_event_to_str e of None \<Rightarrow> ''(null)'' | Some s \<Rightarrow> s)"

fun join_with :: "cstr \<Rightarrow> cstr list \<Rightarrow> cstr" where
  "join_with d [] = []"
| "join_with d [x] = x"
| "join_with d (x # xs) = x @ d @ join_with d xs"

definition csv_fields :: "log_data \<Rightarrow> cstr list" where
  "csv_fields e =
     [cstr_of (dst_ipaddr e), cstr_of (src_ipaddr e), show_int (uint (src_port e)), event_text (event e),
      show_int (sint (sshd_pid e)), cstr_of (uid e), cstr_of (log_date e)]"

definition csv_line :: "cstr \<Rightarrow> log_data \<Rightarrow> cstr" where
  "csv_line delim e = join_with delim (csv_fields e) @ [CHR 0x0A]"

definition csvfile_log_one_event ::
  "db_library \<Rightarrow> log_data \<Rightarrow> db_instance_csvfile dbs \<Rightarrow> bool \<times> db_instance_csvfile dbs" where
  "csvfile_log_one_event lib e s =
     (if fptr (inst s)
      then case lib_call lib (Fprintf (csv_line (delimiter (inst s)) e)) s of
             (r, s1) \<Rightarrow>
               if ret r \<le> 0 then (False, s1\<lparr>err := set_errp (err s1) (str r)\<rparr>)
               else (True, lib_do lib Fflush s1)
      else (False, s))"

section \<open>The driver contract\<close>

definition csv_rows :: "db_call list \<Rightarrow> cstr list" where
  "csv_rows cs = concat (map (\<lambda>c. case c of Fprintf l \<Rightarrow> [l] | _ \<Rightarrow> []) cs)"

lemma csv_rows_simps [simp]:
  "csv_rows (cs @ [Fprintf l]) = csv_rows cs @ [l]" "csv_rows (cs @ [Fflush]) = csv_rows cs"
  "csv_rows (cs @ [Fopen f]) = csv_rows cs" "csv_rows (cs @ [Fclose]) = csv_rows cs"
  "csv_rows (cs @ [Fprintf l, Fflush]) = csv_rows cs @ [l]"
  by (simp_all add: csv_rows_def)

interpretation csv: db_driver "\<lambda>lib. True" options fptr csvfile_open csvfile_close csvfile_log_one_event
  "\<lambda>i. csv_rows" "\<lambda>i. csv_line (delimiter i)"
  by unfold_locales
    (auto simp: csvfile_open_def csvfile_close_def csvfile_log_one_event_def lib_call_def
      split: if_splits prod.splits)

section \<open>The lines of the file\<close>

lemma show_int_chars: "c \<in> set (show_int i) \<Longrightarrow> c_isdigit c \<or> c = CHR ''-''"
  using show_nat_chars by (auto simp: show_int_def split: if_splits)

lemma show_nat_inject [simp]: "show_nat m = show_nat n \<longleftrightarrow> m = n"
  by (metis show_nat_value)

lemma show_int_inject [simp]: "show_int i = show_int j \<longleftrightarrow> i = j"
proof
  have d: "show_nat n \<noteq> CHR ''-'' # s" for n s
  proof
    assume "show_nat n = CHR ''-'' # s"
    then have "c_isdigit CHR ''-''" using show_nat_chars [of "CHR ''-''" n] by simp
    then show False by (simp add: cchar_simps)
  qed
  assume "show_int i = show_int j"
  then show "i = j" using d d [symmetric] by (auto simp: show_int_def split: if_splits)
qed simp

lemma join_with_inject:
  assumes "length xs = length ys" "\<forall>x \<in> set xs \<union> set ys. d \<notin> set x"
    "join_with [d] xs = join_with [d] ys"
  shows "xs = ys"
  using assms
proof (induction xs ys rule: list_induct2)
  case (Cons x xs y ys)
  show ?case
  proof (cases xs)
    case Nil
    then show ?thesis using Cons by simp
  next
    case (Cons x' xs')
    then obtain y' ys' where ys: "ys = y' # ys'" using \<open>length xs = length ys\<close> by (cases ys) auto
    have "x @ d # join_with [d] xs = y @ d # join_with [d] ys"
      using Cons.prems(2) Cons ys by simp
    then have "x = y \<and> join_with [d] xs = join_with [d] ys"
      using Cons.prems(1) by (auto simp: append_eq_append_conv2 append_eq_Cons_conv Cons_eq_append_conv)
    then show ?thesis using Cons.IH Cons.prems(1) by auto
  qed
qed simp

lemma event_text_inject:
  "e < log_event_value log_event_max \<Longrightarrow> f < log_event_value log_event_max \<Longrightarrow>
     event_text e = event_text f \<Longrightarrow> e = f"
  using log_event_to_str_defined [of e] log_event_to_str_defined [of f]
    log_event_str_roundtrip [of e] log_event_str_roundtrip [of f]
  by (auto simp: event_text_def)

definition sample_event :: log_data where
  "sample_event = \<lparr>dst_ipaddr = c_strncpy 16 ''10.0.0.1'', src_ipaddr = c_strncpy 16 ''10.1.2.3'',
     src_port = 22, event = 1, sshd_pid = 7, uid = c_strncpy 60 ''bob'',
     log_date = c_strncpy 28 ''2024-05-01 10:00:00''\<rparr>"

lemma sample_event_fields:
  "csv_fields sample_event =
    [''10.0.0.1'', ''10.1.2.3'', ''22'', ''auth'', ''7'', ''bob'', ''2024-05-01 10:00:00'']"
  by (simp add: csv_fields_def sample_event_def cstr_of_strncpy show_int_def show_nat.simps
      event_text_def log_event_to_str_def)

text \<open>
  A CSV line determines its event. With a one-character delimiter that occurs in none of
  the fields, two events with a known event type that give the same line agree in every field
  (the texts up to their terminators).
\<close>

theorem csv_line_injective:
  assumes "csv_line [d] e = csv_line [d] f"
    "\<forall>x \<in> set (csv_fields e) \<union> set (csv_fields f). d \<notin> set x"
    "event e < log_event_value log_event_max" "event f < log_event_value log_event_max"
  shows "cstr_of (dst_ipaddr e) = cstr_of (dst_ipaddr f) \<and> cstr_of (src_ipaddr e) = cstr_of (src_ipaddr f) \<and>
    src_port e = src_port f \<and> event e = event f \<and> sshd_pid e = sshd_pid f \<and>
    cstr_of (uid e) = cstr_of (uid f) \<and> cstr_of (log_date e) = cstr_of (log_date f)"
proof -
  have words: "uint v = uint w \<Longrightarrow> v = w" "sint x = sint y \<Longrightarrow> x = y" for v w :: "16 word" and x y :: "32 word"
    by (rule unsigned_word_eqI, assumption, rule signed_word_eqI, assumption)
  have "csv_fields e = csv_fields f"
    by (rule join_with_inject [of _ _ d]) (use assms(1,2) in \<open>auto simp: csv_line_def csv_fields_def\<close>)
  then show ?thesis
    using event_text_inject [OF assms(3,4)] words by (simp add: csv_fields_def)
qed

theorem csv_line_injective_witness:
  "sshd_pid sample_event = sshd_pid (sample_event\<lparr>uid := ''bob'' @ [nul, CHR ''x'']\<rparr>)"
proof -
  let ?f = "sample_event\<lparr>uid := ''bob'' @ [nul, CHR ''x'']\<rparr>"
  have "csv_fields ?f = csv_fields sample_event"
    by (simp add: sample_event_fields) (simp add: csv_fields_def sample_event_def cstr_of_strncpy
        cstr_of_def show_int_def show_nat.simps event_text_def log_event_to_str_def c_strncpy_def)
  then show ?thesis
    using csv_line_injective [of "CHR '',''" sample_event ?f] sample_event_fields
    by (simp add: csv_line_def sample_event_def)
qed

text \<open>
  A session with the CSV driver, whatever the stream functions return. Every line written
  to the file is the line of one of the events, in order and at most once; every event the
  driver acknowledged is among them; after the session the file is closed; and a driver opened
  for the firewall only writes nothing.
\<close>

theorem csvfile_session:
  assumes "csvfile_open lib s = (r1, s1)" "log_all (csvfile_log_one_event lib) es s1 = (acked, s2)"
    "csvfile_close lib s2 = (r3, s3)"
  shows "\<not> fptr (inst s3) \<and>
    (\<exists>sent. csv_rows (calls s3) = csv_rows (calls s) @ map (csv_line (delimiter (inst s1))) sent \<and>
       subseq sent es \<and> subseq acked sent) \<and>
    (\<not> fptr (inst s1) \<longrightarrow> acked = [] \<and> calls s3 = calls s1)"
proof -
  have "acked = [] \<and> s2 = s1" if "\<not> fptr (inst s1)"
    using assms(2) that by (induction es arbitrary: acked) (auto simp: csvfile_log_one_event_def split: prod.splits)
  then show ?thesis using csv.session_rows [OF assms] assms(3) by (auto simp: csvfile_close_def)
qed

theorem csvfile_session_witness:
  "\<exists>s1 s3. \<not> fptr (inst s3) \<and>
    snd (csvfile_close (\<lambda>_ _. \<lparr>ret = 1, str = None\<rparr>)
      (snd (log_all (csvfile_log_one_event (\<lambda>_ _. \<lparr>ret = 1, str = None\<rparr>)) [sample_event] s1))) = s3 \<and>
    (\<exists>sent. csv_rows (calls s3) = map (csv_line '','') sent \<and> subseq sent [sample_event] \<and>
       subseq [sample_event] sent)"
proof -
  let ?lib = "\<lambda>_ _. \<lparr>ret = 1, str = None\<rparr>"
  let ?i = "db_instance.extend db_instance_base \<lparr>filename = ''log.csv'', fptr = False, delimiter = '',''\<rparr>"
  let ?s = "\<lparr>calls = [], inst = ?i, err = None\<rparr>"
  let ?s1 = "\<lparr>calls = [Fopen ''log.csv''], inst = ?i\<lparr>fptr := True\<rparr>, err = None\<rparr>"
  let ?s2 = "?s1\<lparr>calls := [Fopen ''log.csv'', Fprintf (csv_line '','' sample_event), Fflush]\<rparr>"
  have o: "csvfile_open ?lib ?s = (True, ?s1)"
    by (simp add: csvfile_open_def lib_call_def db_instance.defs db_instance_base_def db_options_isset_def)
  have l: "log_all (csvfile_log_one_event ?lib) [sample_event] ?s1 = ([sample_event], ?s2)"
    by (simp add: csvfile_log_one_event_def lib_call_def lib_do_def db_instance.defs)
  obtain r3 s3 where c: "csvfile_close ?lib ?s2 = (r3, s3)" by fastforce
  have e: "csv_rows (calls ?s) = []" "delimiter (inst ?s1) = '',''"
    by (simp_all add: csv_rows_def db_instance.defs)
  show ?thesis
    using csvfile_session [OF o l c] unfolding e append_Nil
    by (intro exI [of _ ?s1] exI [of _ s3]) (simp only: l snd_conv c, blast)
qed

end
