(* ===== verification/Db_Sqlite3.thy ===== *)
theory Db_Sqlite3
  imports Db_Driver
begin

unbundle bit_operations_syntax

text \<open>
  \<open>src/libiptracking/db_drivers/db_instance_sqlite3.c\<close>. SQLite is a parameter. The reply to
  \<open>sqlite3_open_v2\<close> has a text when a connection handle was stored, which SQLite documents to
  happen even when opening fails.
\<close>

abbreviation SQLITE_OK :: int where "SQLITE_OK \<equiv> 0"
abbreviation SQLITE_ROW :: int where "SQLITE_ROW \<equiv> 100"
abbreviation SQLITE_DONE :: int where "SQLITE_DONE \<equiv> 101"

section \<open>The instance\<close>

record db_instance_sqlite3 = db_instance +
  sq_filename :: cstr
  sq_flags :: "32 word"
  db_conn :: bool
  db_query :: bool

definition sqlite3_flags :: "(cstr \<times> 32 word) list" where
  "sqlite3_flags =
     [(''URI'', 0x40), (''MEMORY'', 0x80), (''NOMUTEX'', 0x8000), (''FULLMUTEX'', 0x10000),
      (''SHAREDCACHE'', 0x20000), (''PRIVATECACHE'', 0x40000), (''NOFOLLOW'', 0x1000000)]"

abbreviation SQLITE_OPEN_READWRITE :: "32 word" where "SQLITE_OPEN_READWRITE \<equiv> 2"
abbreviation SQLITE_OPEN_URI :: "32 word" where "SQLITE_OPEN_URI \<equiv> 0x40"

text \<open>The bit of a flag's name; an unknown name is only warned about.\<close>

fun flag_bit :: "(cstr \<times> 32 word) list \<Rightarrow> cstr \<Rightarrow> 32 word" where
  "flag_bit [] v = 0"
| "flag_bit ((flag_str, b) # flags) v = (if c_strcaseeq flag_str v then b else flag_bit flags v)"

text \<open>The loop over the \<open>flags\<close> sequence; \<open>None\<close> when an item is not a scalar.\<close>

fun read_flags :: "yaml_document \<Rightarrow> int list \<Rightarrow> 32 word \<Rightarrow> 32 word option" where
  "read_flags doc [] flags = Some flags"
| "read_flags doc (item # items) flags =
     (case doc item of
        None \<Rightarrow> read_flags doc items flags
      | Some n \<Rightarrow>
          (case yaml_helper_get_scalar_value n of
             None \<Rightarrow> None
           | Some v \<Rightarrow> read_flags doc items (flags OR flag_bit sqlite3_flags v)))"

definition sqlite3_alloc ::
  "bool \<Rightarrow> yaml_document \<Rightarrow> yaml_node option \<Rightarrow> db_instance_sqlite3 option" where
  "sqlite3_alloc malloc_ok doc node =
     (let flags = (case conf_node doc node ''flags'' of
                     None \<Rightarrow> Some SQLITE_OPEN_READWRITE
                   | Some (YAML_SEQUENCE_NODE items) \<Rightarrow> read_flags doc items SQLITE_OPEN_READWRITE
                   | Some _ \<Rightarrow> None)
      in case flags of
           None \<Rightarrow> None
         | Some fl \<Rightarrow>
             (case (case conf_scalar doc node ''uri'' of
                      Some v \<Rightarrow> (Some v, fl OR SQLITE_OPEN_URI)
                    | None \<Rightarrow> (conf_scalar doc node ''filename'', fl)) of
                (None, _) \<Rightarrow> None
              | (Some f, fl') \<Rightarrow>
                  if malloc_ok
                  then Some (db_instance.extend db_instance_base
                         \<lparr>sq_filename = f, sq_flags = fl', db_conn = False, db_query = False\<rparr>)
                  else None))"

definition sqlite3_has_valid_configuration :: "db_instance_sqlite3 \<Rightarrow> errp \<Rightarrow> bool \<times> errp" where
  "sqlite3_has_valid_configuration db e = (True, e)"

text \<open>The output of \<open>printf\<close> for \<open>%X\<close>.\<close>

fun show_hex :: "nat \<Rightarrow> cstr" where
  "show_hex n = (if n < 16 then [''0123456789ABCDEF'' ! n] else show_hex (n div 16) @ [''0123456789ABCDEF'' ! (n mod 16)])"

declare show_hex.simps [simp del]

definition sqlite3_summarize_to_log :: "db_instance_sqlite3 \<Rightarrow> cstr list" where
  "sqlite3_summarize_to_log db =
     [''Database: driver_name = sqlite3'', ''Database: filename = '' @ sq_filename db,
      ''Database: flags = '' @ show_hex (unat (sq_flags db))]"

section \<open>Opening and closing\<close>

definition sqlite3_log_stmt_query_str :: cstr where
  "sqlite3_log_stmt_query_str =
     ''INSERT INTO inet_log (dst_ipaddr, src_ipaddr, src_port, log_event, uid, log_date) VALUES (?1, ?2, ?3, ?4, ?5, ?6, ?7)''"

definition sqlite3_blocklist_stmt_query_str :: cstr where
  "sqlite3_blocklist_stmt_query_str = ''SELECT ip_entity FROM firewall_block_now''"

definition sqlite3_open ::
  "db_library \<Rightarrow> db_instance_sqlite3 dbs \<Rightarrow> bool \<times> db_instance_sqlite3 dbs" where
  "sqlite3_open lib s =
     (if db_conn (inst s) then (True, s)
      else case lib_call lib (Sqlite3_open_v2 (sq_filename (inst s)) (sq_flags (inst s))) s of
             (r, s0) \<Rightarrow>
               (let s1 = s0\<lparr>inst := (inst s0)\<lparr>db_conn := (str r \<noteq> None)\<rparr>\<rparr>
                in if ret r \<noteq> SQLITE_OK then (False, report_call lib (Sqlite3_errstr (ret r)) s1)
                   else if db_options_isset (options (inst s1)) db_options_no_pam_logging then (True, s1)
                   else case lib_call lib (Sqlite3_prepare_v2 Log_stmt sqlite3_log_stmt_query_str) s1 of
                          (r2, s2) \<Rightarrow>
                            (let s3 = s2\<lparr>inst := (inst s2)\<lparr>db_query := (ret r2 = SQLITE_OK)\<rparr>\<rparr>
                             in if ret r2 \<noteq> SQLITE_OK
                                then (False, report_call lib (Sqlite3_errstr (ret r2)) s3)
                                else (True, s3))))"

definition sqlite3_close ::
  "db_library \<Rightarrow> db_instance_sqlite3 dbs \<Rightarrow> bool \<times> db_instance_sqlite3 dbs" where
  "sqlite3_close lib s =
     (True,
      if db_conn (inst s)
      then (let s1 = (if db_query (inst s)
                      then (lib_do lib (Sqlite3_finalize Log_stmt) s)\<lparr>inst := (inst s)\<lparr>db_query := False\<rparr>\<rparr>
                      else s);
                s2 = lib_do lib Sqlite3_close s1
            in s2\<lparr>inst := (inst s2)\<lparr>db_conn := False\<rparr>\<rparr>)
      else s)"

section \<open>Logging\<close>

definition event_binds :: "log_data \<Rightarrow> db_call list" where
  "event_binds e =
     [Sqlite3_bind_text 1 (cstr_of (dst_ipaddr e)), Sqlite3_bind_text 2 (cstr_of (src_ipaddr e)),
      Sqlite3_bind_int 3 (uint (src_port e)), Sqlite3_bind_int 4 (uint (event e)),
      Sqlite3_bind_int 5 (sint (sshd_pid e)), Sqlite3_bind_text 6 (cstr_of (uid e)),
      Sqlite3_bind_text 7 (cstr_of (log_date e))]"

text \<open>\<open>if ( rc == SQLITE_OK ) rc = ...\<close> along the list.\<close>

fun call_while_ok :: "db_library \<Rightarrow> db_call list \<Rightarrow> 'i dbs \<Rightarrow> int \<times> 'i dbs" where
  "call_while_ok lib [] s = (SQLITE_OK, s)"
| "call_while_ok lib (c # cs) s =
     (case lib_call lib c s of
        (r, s1) \<Rightarrow> if ret r = SQLITE_OK then call_while_ok lib cs s1 else (ret r, s1))"

definition sqlite3_log_one_event ::
  "db_library \<Rightarrow> log_data \<Rightarrow> db_instance_sqlite3 dbs \<Rightarrow> bool \<times> db_instance_sqlite3 dbs" where
  "sqlite3_log_one_event lib e s =
     (if db_conn (inst s) \<and> db_query (inst s)
      then case call_while_ok lib (event_binds e) s of
             (rc, s1) \<Rightarrow>
               (case (if rc = SQLITE_OK
                      then (case lib_call lib (Sqlite3_step Log_stmt) s1 of
                              (r, s2) \<Rightarrow>
                                if ret r = SQLITE_DONE then (True, s2)
                                else (False, report_call lib Sqlite3_errmsg s2))
                      else (False, report_call lib Sqlite3_errmsg s1)) of
                  (okay, s3) \<Rightarrow> (okay, lib_do lib Sqlite3_reset (lib_do lib Sqlite3_clear_bindings s3)))
      else (False, s))"

section \<open>The block list\<close>

record sqlite3_blocklist_enum =
  is_first :: bool
  is_done :: bool

definition sqlite3_enum_next ::
  "db_library \<Rightarrow> sqlite3_blocklist_enum dbs \<Rightarrow> cstr option \<times> sqlite3_blocklist_enum dbs" where
  "sqlite3_enum_next lib s =
     (if is_done (inst s) then (None, s)
      else case (if is_first (inst s)
                 then (SQLITE_ROW, s\<lparr>inst := (inst s)\<lparr>is_first := False\<rparr>\<rparr>)
                 else case lib_call lib (Sqlite3_step Blocklist_stmt) s of (r, s1) \<Rightarrow> (ret r, s1)) of
             (rc, s2) \<Rightarrow>
               if rc = SQLITE_ROW
               then case lib_call lib (Sqlite3_column_text 0) s2 of (r, s3) \<Rightarrow> (str r, s3)
               else (None, s2\<lparr>inst := (inst s2)\<lparr>is_done := True\<rparr>\<rparr>))"

definition sqlite3_enum_open ::
  "db_library \<Rightarrow> db_instance_sqlite3 dbs \<Rightarrow> sqlite3_blocklist_enum option \<times> db_instance_sqlite3 dbs" where
  "sqlite3_enum_open lib s =
     (if \<not> db_conn (inst s) then (None, s)
      else case lib_call lib (Sqlite3_prepare_v2 Blocklist_stmt sqlite3_blocklist_stmt_query_str) s of
             (r, s1) \<Rightarrow>
               if ret r \<noteq> SQLITE_OK then (None, s1)
               else case lib_call lib (Sqlite3_step Blocklist_stmt) s1 of
                      (r2, s2) \<Rightarrow>
                        if ret r2 \<noteq> SQLITE_ROW then (None, lib_do lib (Sqlite3_finalize Blocklist_stmt) s2)
                        else case lib_call lib Malloc s2 of
                               (m, s3) \<Rightarrow>
                                 if ret m = 0 then (None, lib_do lib (Sqlite3_finalize Blocklist_stmt) s3)
                                 else (Some \<lparr>is_first = True, is_done = False\<rparr>, s3))"

definition sqlite3_enum_close ::
  "db_library \<Rightarrow> sqlite3_blocklist_enum dbs \<Rightarrow> sqlite3_blocklist_enum dbs" where
  "sqlite3_enum_close lib s = lib_do lib (Sqlite3_finalize Blocklist_stmt) s"

section \<open>The driver contract\<close>

datatype sql_value = Sql_text cstr | Sql_int int

text \<open>What the calls bind, and the rows the executed statements were given.\<close>

fun bind_step :: "(nat \<Rightarrow> sql_value option) \<times> sql_value option list list \<Rightarrow> db_call \<Rightarrow>
    (nat \<Rightarrow> sql_value option) \<times> sql_value option list list" where
  "bind_step (cur, out) (Sqlite3_bind_text n t) = (cur(n \<mapsto> Sql_text t), out)"
| "bind_step (cur, out) (Sqlite3_bind_int n i) = (cur(n \<mapsto> Sql_int i), out)"
| "bind_step (cur, out) Sqlite3_clear_bindings = (\<lambda>_. None, out)"
| "bind_step (cur, out) (Sqlite3_step Log_stmt) = (cur, out @ [map cur [1, 2, 3, 4, 5, 6, 7]])"
| "bind_step st c = st"

definition sqlite3_rows :: "db_call list \<Rightarrow> sql_value option list list" where
  "sqlite3_rows cs = snd (foldl bind_step (\<lambda>_. None, []) cs)"

definition sqlite3_row :: "log_data \<Rightarrow> sql_value option list" where
  "sqlite3_row e =
     map Some [Sql_text (cstr_of (dst_ipaddr e)), Sql_text (cstr_of (src_ipaddr e)),
       Sql_int (uint (src_port e)), Sql_int (uint (event e)), Sql_int (sint (sshd_pid e)),
       Sql_text (cstr_of (uid e)), Sql_text (cstr_of (log_date e))]"

definition stores_nothing :: "db_call \<Rightarrow> bool" where
  "stores_nothing c \<longleftrightarrow> c \<noteq> Sqlite3_step Log_stmt"

lemma snd_bind_step: "stores_nothing c \<Longrightarrow> snd (bind_step st c) = snd st"
  by (cases "(st, c)" rule: bind_step.cases) (auto simp: stores_nothing_def)

lemma sqlite3_rows_snoc: "stores_nothing c \<Longrightarrow> sqlite3_rows (cs @ [c]) = sqlite3_rows cs"
  by (simp add: sqlite3_rows_def snd_bind_step)

lemma sqlite3_rows_append: "list_all stores_nothing ds \<Longrightarrow> sqlite3_rows (cs @ ds) = sqlite3_rows cs"
proof (induction ds rule: rev_induct)
  case (snoc d ds)
  then show ?case using sqlite3_rows_snoc [of d "cs @ ds"] by simp
qed simp

lemma sqlite3_rows_event:
  "sqlite3_rows (cs @ event_binds e @ [Sqlite3_step Log_stmt]) = sqlite3_rows cs @ [sqlite3_row e]"
proof -
  obtain cur out where f: "foldl bind_step (\<lambda>_. None, []) cs = (cur, out)" by fastforce
  show ?thesis by (simp add: sqlite3_rows_def f event_binds_def sqlite3_row_def)
qed

text \<open>
  A run of \<open>call_while_ok\<close> makes a prefix of the calls, all of them when it returns
  \<open>SQLITE_OK\<close>, and changes nothing else.
\<close>

lemma call_while_ok_prefix:
  "call_while_ok lib cs s = (rc, s1) \<Longrightarrow>
     inst s1 = inst s \<and> err s1 = err s \<and> (\<exists>k. calls s1 = calls s @ take k cs) \<and>
     (rc = SQLITE_OK \<longrightarrow> calls s1 = calls s @ cs)"
proof (induction cs arbitrary: s)
  case (Cons c cs)
  obtain r s0 where c: "lib_call lib c s = (r, s0)" by fastforce
  then have s0: "s0 = s\<lparr>calls := calls s @ [c]\<rparr>" by (simp add: lib_call_def)
  show ?case
  proof (cases "ret r = SQLITE_OK")
    case True
    with Cons c have "inst s1 = inst s0 \<and> err s1 = err s0 \<and> (\<exists>k. calls s1 = calls s0 @ take k cs) \<and>
        (rc = SQLITE_OK \<longrightarrow> calls s1 = calls s0 @ cs)" by simp
    then obtain k where "inst s1 = inst s0" "err s1 = err s0" "calls s1 = calls s0 @ take k cs"
      "rc = SQLITE_OK \<longrightarrow> calls s1 = calls s0 @ cs" by blast
    then show ?thesis using s0 by (auto intro: exI [of _ "Suc k"])
  next
    case False
    with Cons.prems c s0 show ?thesis by (auto intro: exI [of _ 1])
  qed
qed (auto intro: exI [of _ 0])

lemma event_binds_store_nothing: "list_all stores_nothing (take k (event_binds e))"
  by (rule list.pred_mono_strong [of "\<lambda>c. c \<in> set (event_binds e)"])
    (auto simp: list_all_iff event_binds_def stores_nothing_def dest: in_set_takeD)

lemma report_call_stores_nothing:
  "stores_nothing c \<Longrightarrow> sqlite3_rows (calls (report_call lib c s)) = sqlite3_rows (calls s)"
  using calls_report_call [of lib c s] sqlite3_rows_snoc by auto

lemma handles_report_call [simp]:
  "db_conn (inst (report_call lib c s)) = db_conn (inst s)"
  "db_query (inst (report_call lib c s)) = db_query (inst s)"
  using inst_report_call [of lib c s] by auto

lemma stores_nothing_calls [simp]:
  "stores_nothing (Sqlite3_open_v2 f fl)" "stores_nothing (Sqlite3_prepare_v2 st q)"
  "stores_nothing (Sqlite3_errstr n)" "stores_nothing Sqlite3_errmsg" "stores_nothing Sqlite3_close"
  "stores_nothing (Sqlite3_finalize st)" "stores_nothing Sqlite3_clear_bindings" "stores_nothing Sqlite3_reset"
  by (simp_all add: stores_nothing_def)

lemmas sqlite3_rows_quiet = sqlite3_rows_snoc report_call_stores_nothing sqlite3_rows_append

text \<open>SQLite stores a handle whenever it reports success.\<close>

definition sqlite3_lib_ok :: "db_library \<Rightarrow> bool" where
  "sqlite3_lib_ok lib \<longleftrightarrow>
     (\<forall>h f fl. ret (lib h (Sqlite3_open_v2 f fl)) = SQLITE_OK \<longrightarrow> str (lib h (Sqlite3_open_v2 f fl)) \<noteq> None)"

lemma sqlite3_log_cases:
  assumes "sqlite3_log_one_event lib e s = (r, s')"
  obtains "r = False" "s' = s" "\<not> (db_conn (inst s) \<and> db_query (inst s))"
  | "sqlite3_rows (calls s') = sqlite3_rows (calls s) @ [sqlite3_row e]"
    "db_conn (inst s') = db_conn (inst s)" "db_query (inst s') = db_query (inst s)" "db_conn (inst s)"
  | "r = False" "sqlite3_rows (calls s') = sqlite3_rows (calls s)"
    "db_conn (inst s') = db_conn (inst s)" "db_query (inst s') = db_query (inst s)" "db_conn (inst s)"
proof (cases "db_conn (inst s) \<and> db_query (inst s)")
  case False
  with assms that(1) show ?thesis by (simp add: sqlite3_log_one_event_def)
next
  case True
  obtain rc s1 where b: "call_while_ok lib (event_binds e) s = (rc, s1)" by fastforce
  obtain k where k: "calls s1 = calls s @ take k (event_binds e)" "inst s1 = inst s"
    "rc = SQLITE_OK \<longrightarrow> calls s1 = calls s @ event_binds e"
    using call_while_ok_prefix [OF b] by blast
  have q: "sqlite3_rows (calls s1) = sqlite3_rows (calls s)"
    unfolding k(1) by (rule sqlite3_rows_append [OF event_binds_store_nothing])
  show ?thesis
  proof (cases "rc = SQLITE_OK")
    case False
    then show ?thesis using assms True b k(2) q that(3)
      by (auto simp: sqlite3_log_one_event_def sqlite3_rows_quiet)
  next
    case rc: True
    obtain r2 s2 where st: "lib_call lib (Sqlite3_step Log_stmt) s1 = (r2, s2)" by fastforce
    then have s2: "calls s2 = calls s @ event_binds e @ [Sqlite3_step Log_stmt]" "inst s2 = inst s"
      using k(2,3) rc by (auto simp: lib_call_def)
    then have "sqlite3_rows (calls s2) = sqlite3_rows (calls s) @ [sqlite3_row e]"
      by (simp only: sqlite3_rows_event)
    then show ?thesis using assms True b rc st s2(2) that(2)
      by (auto simp: sqlite3_log_one_event_def sqlite3_rows_quiet split: if_splits)
  qed
qed

interpretation sq: db_driver sqlite3_lib_ok options db_conn sqlite3_open sqlite3_close sqlite3_log_one_event
  "\<lambda>i. sqlite3_rows" "\<lambda>i. sqlite3_row"
proof unfold_locales
  fix lib :: db_library and s s' :: "db_instance_sqlite3 dbs" and r :: bool and e :: log_data
  show "db_conn (inst s')" if "sqlite3_lib_ok lib" "sqlite3_open lib s = (True, s')"
    using that by (auto simp: sqlite3_open_def sqlite3_lib_ok_def lib_call_def Let_def split: if_splits)
  show "sqlite3_open lib s = (True, s)" if "db_conn (inst s)"
    using that by (simp add: sqlite3_open_def)
  show "sqlite3_rows (calls s') = sqlite3_rows (calls s) \<and> sqlite3_row = sqlite3_row" if "sqlite3_open lib s = (r, s')"
    using that by (auto simp: sqlite3_open_def lib_call_def Let_def sqlite3_rows_quiet split: if_splits)
  show "\<not> db_conn (inst s')" if "sqlite3_close lib s = (r, s')"
    using that by (auto simp: sqlite3_close_def Let_def split: if_splits)
  show "sqlite3_rows (calls s') = sqlite3_rows (calls s) \<and> sqlite3_row = sqlite3_row" if "sqlite3_close lib s = (r, s')"
    using that by (auto simp: sqlite3_close_def Let_def sqlite3_rows_quiet
        sqlite3_rows_append [of "[Sqlite3_finalize Log_stmt, Sqlite3_close]"] split: if_splits)
  show "\<not> r \<and> calls s' = calls s" if "\<not> db_conn (inst s)" "sqlite3_log_one_event lib e s = (r, s')"
    using that by (simp add: sqlite3_log_one_event_def)
  show "db_conn (inst s') = db_conn (inst s) \<and> sqlite3_row = sqlite3_row"
    if "sqlite3_log_one_event lib e s = (r, s')"
    using that by (rule sqlite3_log_cases) auto
  show "sqlite3_rows (calls s') = sqlite3_rows (calls s) @ [sqlite3_row e] \<or>
      (\<not> r \<and> sqlite3_rows (calls s') = sqlite3_rows (calls s))"
    if "sqlite3_log_one_event lib e s = (r, s')"
    using that by (rule sqlite3_log_cases) auto
qed

section \<open>Reading the block list\<close>

text \<open>
  What SQLite documents of a prepared \<open>SELECT\<close>: after the \<open>n\<close>-th step the cursor is on the
  \<open>n\<close>-th row, and stepping past the last row reports \<open>SQLITE_DONE\<close>. \<open>h0\<close> is the history when
  the statement was prepared.
\<close>

definition fetched :: "db_call list \<Rightarrow> db_call list \<Rightarrow> nat" where
  "fetched h0 h = count_list (drop (length h0) h) (Sqlite3_step Blocklist_stmt)"

definition sqlite3_cursor :: "db_library \<Rightarrow> cstr option list \<Rightarrow> db_call list \<Rightarrow> bool" where
  "sqlite3_cursor lib table h0 \<longleftrightarrow>
     (\<forall>h. ret (lib (h0 @ h) (Sqlite3_step Blocklist_stmt)) =
            (if fetched h0 (h0 @ h) < length table then SQLITE_ROW else SQLITE_DONE) \<and>
          (\<forall>k < length table. fetched h0 (h0 @ h) = Suc k \<longrightarrow>
             str (lib (h0 @ h) (Sqlite3_column_text 0)) = table ! k))"

definition sqlite3_enum_ok ::
  "db_library \<Rightarrow> cstr option list \<Rightarrow> db_call list \<Rightarrow> sqlite3_blocklist_enum dbs \<Rightarrow> bool" where
  "sqlite3_enum_ok lib table h0 s \<longleftrightarrow> sqlite3_cursor lib table h0 \<and> prefix h0 (calls s) \<and>
     (if is_first (inst s) then fetched h0 (calls s) = 1 \<and> \<not> is_done (inst s) \<and> table \<noteq> []
      else is_done (inst s) \<or> fetched h0 (calls s) \<le> length table)"

definition sqlite3_enum_remaining ::
  "cstr option list \<Rightarrow> db_call list \<Rightarrow> sqlite3_blocklist_enum dbs \<Rightarrow> cstr option list" where
  "sqlite3_enum_remaining table h0 s =
     (if is_done (inst s) then [] else if is_first (inst s) then table
      else drop (fetched h0 (calls s)) table)"

lemma fetched_append: "fetched h0 (h0 @ h) = count_list h (Sqlite3_step Blocklist_stmt)"
  by (simp add: fetched_def)

lemma fetched_snoc:
  "prefix h0 h \<Longrightarrow> fetched h0 (h @ [c]) = fetched h0 h + (if c = Sqlite3_step Blocklist_stmt then 1 else 0)"
  by (auto simp: fetched_def prefix_def)

lemma sqlite3_cursor_step:
  "sqlite3_cursor lib table h0 \<Longrightarrow> prefix h0 h \<Longrightarrow>
     ret (lib h (Sqlite3_step Blocklist_stmt)) =
       (if fetched h0 h < length table then SQLITE_ROW else SQLITE_DONE)"
  by (auto simp: sqlite3_cursor_def prefix_def)

lemma sqlite3_cursor_column:
  "sqlite3_cursor lib table h0 \<Longrightarrow> prefix h0 h \<Longrightarrow> fetched h0 h = Suc k \<Longrightarrow> k < length table \<Longrightarrow>
     str (lib h (Sqlite3_column_text 0)) = table ! k"
  by (auto simp: sqlite3_cursor_def prefix_def)

lemma sqlite3_next_row:
  assumes "sqlite3_enum_ok lib table h0 s" "sqlite3_enum_remaining table h0 s = r # rs"
  shows "\<exists>s'. sqlite3_enum_next lib s = (r, s') \<and> sqlite3_enum_ok lib table h0 s' \<and>
    sqlite3_enum_remaining table h0 s' = rs"
proof -
  let ?h = "calls s"
  let ?step = "Sqlite3_step Blocklist_stmt"
  let ?col = "Sqlite3_column_text 0"
  have law: "sqlite3_cursor lib table h0" and pre: "prefix h0 ?h" "prefix h0 (?h @ [?step])"
    using assms(1) by (auto simp: sqlite3_enum_ok_def)
  have nd: "\<not> is_done (inst s)" using assms(2) by (auto simp: sqlite3_enum_remaining_def)
  show ?thesis
  proof (cases "is_first (inst s)")
    case True
    then have t: "table = r # rs" "fetched h0 ?h = Suc 0"
      using assms nd by (auto simp: sqlite3_enum_remaining_def sqlite3_enum_ok_def)
    have "str (lib ?h ?col) = r" using sqlite3_cursor_column [OF law pre(1) t(2)] t(1) by simp
    then show ?thesis using True nd law pre t
      by (auto simp: sqlite3_enum_next_def lib_call_def sqlite3_enum_ok_def sqlite3_enum_remaining_def fetched_snoc)
  next
    case False
    let ?n = "fetched h0 ?h"
    have d: "drop ?n table = r # rs" using assms nd False by (auto simp: sqlite3_enum_remaining_def)
    then have n: "?n < length table" by (metis drop_all list.simps(3) not_le)
    then have "drop ?n table = table ! ?n # drop (Suc ?n) table" by (rule Cons_nth_drop_Suc [symmetric])
    with d have r: "table ! ?n = r" "drop (Suc ?n) table = rs" by simp_all
    have f: "fetched h0 (?h @ [?step]) = Suc ?n" using fetched_snoc [OF pre(1)] by simp
    have "str (lib (?h @ [?step]) ?col) = r" using sqlite3_cursor_column [OF law pre(2) f n] r by simp
    moreover have "ret (lib ?h ?step) = SQLITE_ROW" using sqlite3_cursor_step [OF law pre(1)] n by simp
    ultimately show ?thesis using False nd law pre n r f fetched_snoc [OF pre(2), of ?col]
      by (simp add: sqlite3_enum_next_def lib_call_def sqlite3_enum_ok_def sqlite3_enum_remaining_def)
  qed
qed

interpretation sq_list: blocklist_cursor "sqlite3_enum_ok lib table h0" "sqlite3_enum_next lib"
  "sqlite3_enum_remaining table h0" for lib table h0
proof unfold_locales
  fix s r rs
  assume s: "sqlite3_enum_ok lib table h0 s"
  show "\<exists>s'. sqlite3_enum_next lib s = (r, s') \<and> sqlite3_enum_ok lib table h0 s' \<and>
      sqlite3_enum_remaining table h0 s' = rs"
    if "sqlite3_enum_remaining table h0 s = r # rs" by (rule sqlite3_next_row [OF s that])
  show "\<exists>s'. sqlite3_enum_next lib s = (None, s') \<and> sqlite3_enum_ok lib table h0 s' \<and>
      sqlite3_enum_remaining table h0 s' = []"
    if "sqlite3_enum_remaining table h0 s = []"
  proof (cases "is_done (inst s)")
    case True
    then show ?thesis using s that by (auto simp: sqlite3_enum_next_def)
  next
    case False
    then have n: "\<not> is_first (inst s)" "\<not> fetched h0 (calls s) < length table"
      using s that by (auto simp: sqlite3_enum_ok_def sqlite3_enum_remaining_def split: if_splits)
    have "ret (lib (calls s) (Sqlite3_step Blocklist_stmt)) = SQLITE_DONE"
      using sqlite3_cursor_step [of lib table h0 "calls s"] s n by (simp add: sqlite3_enum_ok_def)
    then show ?thesis using False n s
      by (auto simp: sqlite3_enum_next_def lib_call_def sqlite3_enum_ok_def sqlite3_enum_remaining_def)
  qed
qed

section \<open>The properties of the driver\<close>

lemma sqlite3_log_success:
  assumes "sqlite3_log_one_event lib e s = (True, s')"
  shows "calls s' = calls s @ event_binds e @ [Sqlite3_step Log_stmt, Sqlite3_clear_bindings, Sqlite3_reset]"
proof -
  obtain rc s1 where b: "call_while_ok lib (event_binds e) s = (rc, s1)" by fastforce
  have "rc = SQLITE_OK" using assms b by (auto simp: sqlite3_log_one_event_def split: if_splits prod.splits)
  then have c: "calls s1 = calls s @ event_binds e" using call_while_ok_prefix [OF b] by blast
  then show ?thesis using assms b \<open>rc = SQLITE_OK\<close>
    by (auto simp: sqlite3_log_one_event_def lib_call_def split: if_splits)
qed

definition sqlite3_instance :: db_instance_sqlite3 where
  "sqlite3_instance = db_instance.extend db_instance_base
     \<lparr>sq_filename = ''log.db'', sq_flags = 2, db_conn = False, db_query = False\<rparr>"

text \<open>A library that accepts everything.\<close>

definition sqlite3_accepts :: db_library where
  "sqlite3_accepts h c =
     (case c of
        Sqlite3_open_v2 f fl \<Rightarrow> \<lparr>ret = SQLITE_OK, str = Some []\<rparr>
      | Sqlite3_step st \<Rightarrow> \<lparr>ret = SQLITE_DONE, str = None\<rparr>
      | _ \<Rightarrow> \<lparr>ret = SQLITE_OK, str = None\<rparr>)"

text \<open>
  A session with the SQLite driver, on any library. Every statement it executes is given
  the seven values of one of the events, in the order of the placeholders; the events come in
  order and at most once, every acknowledged event among them; an acknowledged event made
  exactly the calls bind, step, clear and reset; and the session ends without a connection.
\<close>

theorem sqlite3_session:
  assumes "sqlite3_open lib s = (r1, s1)" "log_all (sqlite3_log_one_event lib) es s1 = (acked, s2)"
    "sqlite3_close lib s2 = (r3, s3)"
  shows "\<not> db_conn (inst s3) \<and>
    (\<exists>sent. sqlite3_rows (calls s3) = sqlite3_rows (calls s) @ map sqlite3_row sent \<and>
       subseq sent es \<and> subseq acked sent) \<and>
    (\<forall>e t t'. sqlite3_log_one_event lib e t = (True, t') \<longrightarrow> calls t' = calls t @ event_binds e @
       [Sqlite3_step Log_stmt, Sqlite3_clear_bindings, Sqlite3_reset])"
  using sq.session_rows [OF assms] sqlite3_log_success by blast

theorem sqlite3_session_witness:
  "\<exists>s1 s2 s3. sqlite3_open sqlite3_accepts \<lparr>calls = [], inst = sqlite3_instance, err = None\<rparr> = (True, s1) \<and>
    log_all (sqlite3_log_one_event sqlite3_accepts) [log_data_zero] s1 = ([log_data_zero], s2) \<and>
    sqlite3_close sqlite3_accepts s2 = (True, s3) \<and> \<not> db_conn (inst s3) \<and>
    (\<exists>sent. sqlite3_rows (calls s3) = map sqlite3_row sent \<and> subseq sent [log_data_zero] \<and>
       subseq [log_data_zero] sent)"
proof -
  let ?s = "\<lparr>calls = [], inst = sqlite3_instance, err = None\<rparr>"
  obtain r1 s1 where o: "sqlite3_open sqlite3_accepts ?s = (r1, s1)" by fastforce
  have r1: "r1 \<and> db_conn (inst s1) \<and> db_query (inst s1)"
    using o by (auto simp: sqlite3_open_def lib_call_def sqlite3_instance_def sqlite3_accepts_def Let_def
        db_instance.defs db_instance_base_def db_options_isset_def)
  have ok: "call_while_ok sqlite3_accepts (event_binds log_data_zero) t = (SQLITE_OK, t')
      \<Longrightarrow> inst t' = inst t" for t t'
    using call_while_ok_prefix by blast
  obtain s2 where l: "log_all (sqlite3_log_one_event sqlite3_accepts) [log_data_zero] s1 = ([log_data_zero], s2)"
    using r1 by (simp add: sqlite3_log_one_event_def event_binds_def lib_call_def sqlite3_accepts_def)
  obtain s3 where c: "sqlite3_close sqlite3_accepts s2 = (True, s3)" by (simp add: sqlite3_close_def)
  have "sqlite3_rows (calls ?s) = []" by (simp add: sqlite3_rows_def)
  then show ?thesis using sqlite3_session [OF o l c] o r1 l c by simp
qed

text \<open>
  A failed \<open>sqlite3_open\<close> that left a handle, whether opening or preparing the statement
  failed. The next \<open>db_open\<close> reports success without a call, and from then on every event is
  refused without a call and without a message: the daemon, which retries \<open>db_open\<close> until it
  succeeds, loses every event.
\<close>

theorem sqlite3_failed_open_sticks:
  assumes "sqlite3_open lib s = (False, s1)" "db_conn (inst s1)" "\<not> db_query (inst s)"
  shows "sqlite3_open lib' s1 = (True, s1) \<and> sqlite3_log_one_event lib' e s1 = (False, s1)"
proof -
  have "\<not> db_conn (inst s)" using assms(1) by (auto simp: sqlite3_open_def)
  then have "\<not> db_query (inst s1)"
    using assms(1,3) by (auto simp: sqlite3_open_def lib_call_def Let_def split: if_splits)
  then show ?thesis using assms(2) by (simp add: sqlite3_open_def sqlite3_log_one_event_def)
qed

text \<open>A library that opens the file and refuses to prepare a statement.\<close>

definition sqlite3_no_prepare :: db_library where
  "sqlite3_no_prepare h c =
     (case c of
        Sqlite3_open_v2 f fl \<Rightarrow> \<lparr>ret = SQLITE_OK, str = Some []\<rparr>
      | _ \<Rightarrow> \<lparr>ret = 1, str = Some ''7 values for 6 columns''\<rparr>)"

theorem sqlite3_failed_open_sticks_witness:
  "\<exists>s1. sqlite3_open sqlite3_no_prepare \<lparr>calls = [], inst = sqlite3_instance, err = None\<rparr> = (False, s1) \<and>
    sqlite3_open sqlite3_no_prepare s1 = (True, s1) \<and>
    sqlite3_log_one_event sqlite3_no_prepare log_data_zero s1 = (False, s1)"
proof -
  let ?s = "\<lparr>calls = [], inst = sqlite3_instance, err = None\<rparr>"
  obtain s1 where o: "sqlite3_open sqlite3_no_prepare ?s = (False, s1)" and c: "db_conn (inst s1)"
    by (simp add: sqlite3_open_def lib_call_def sqlite3_instance_def sqlite3_no_prepare_def Let_def
        db_instance.defs db_instance_base_def db_options_isset_def report_call_def)
  have "\<not> db_query (inst ?s)" by (simp add: sqlite3_instance_def db_instance.defs)
  then show ?thesis using sqlite3_failed_open_sticks [OF o c] o by blast
qed

text \<open>
  The block list from SQLite. When the statement is prepared, no rows give no enumerator;
  otherwise reading the enumerator until it returns NULL ends and yields the texts of the
  rows, in order, up to the first NULL.
\<close>

theorem sqlite3_blocklist:
  assumes "db_conn (inst s)"
    "ret (lib (calls s) (Sqlite3_prepare_v2 Blocklist_stmt sqlite3_blocklist_stmt_query_str)) = SQLITE_OK"
    "sqlite3_cursor lib table (calls s @ [Sqlite3_prepare_v2 Blocklist_stmt sqlite3_blocklist_stmt_query_str])"
    "\<forall>h. ret (lib h Malloc) \<noteq> 0" "length table < fuel"
  shows "case sqlite3_enum_open lib s of
      (None, s') \<Rightarrow> table = []
    | (Some en, s') \<Rightarrow> table \<noteq> [] \<and> (\<exists>t. collect fuel (sqlite3_enum_next lib)
        \<lparr>calls = calls s', inst = en, err = e\<rparr> = Some (map the (takeWhile (\<lambda>r. r \<noteq> None) table), t))"
proof -
  let ?p = "Sqlite3_prepare_v2 Blocklist_stmt sqlite3_blocklist_stmt_query_str"
  let ?base = "calls s @ [?p]"
  have st: "ret (lib ?base (Sqlite3_step Blocklist_stmt)) = (if table = [] then SQLITE_DONE else SQLITE_ROW)"
    using sqlite3_cursor_step [OF assms(3), of ?base] by (simp add: fetched_def)
  show ?thesis
  proof (cases "table = []")
    case True
    then show ?thesis using assms st by (simp add: sqlite3_enum_open_def lib_call_def)
  next
    case False
    let ?h = "?base @ [Sqlite3_step Blocklist_stmt, Malloc]"
    let ?e = "\<lparr>calls = ?h, inst = \<lparr>is_first = True, is_done = False\<rparr>, err = e\<rparr>"
    have o: "sqlite3_enum_open lib s = (Some \<lparr>is_first = True, is_done = False\<rparr>, s\<lparr>calls := ?h\<rparr>)"
      using assms(1,2,4) st False by (simp add: sqlite3_enum_open_def lib_call_def)
    have "fetched ?base ?h = 1" unfolding fetched_append by simp
    then have "sqlite3_enum_ok lib table ?base ?e"
      using assms(3) False by (simp add: sqlite3_enum_ok_def)
    moreover have "sqlite3_enum_remaining table ?base ?e = table" by (simp add: sqlite3_enum_remaining_def)
    ultimately show ?thesis using sq_list.collect_rows [of lib table ?base ?e fuel] assms(5) o False by auto
  qed
qed

text \<open>A library with a result of two rows.\<close>

definition sqlite3_two_rows :: db_library where
  "sqlite3_two_rows h c =
     (let n = count_list h (Sqlite3_step Blocklist_stmt); t = [Some ''10.0.0.1'', Some ''10.0.0.2''] in
      case c of
        Sqlite3_step st \<Rightarrow> \<lparr>ret = (if n < 2 then SQLITE_ROW else SQLITE_DONE), str = None\<rparr>
      | Sqlite3_column_text k \<Rightarrow> \<lparr>ret = 1, str = t ! (n - 1)\<rparr>
      | Malloc \<Rightarrow> \<lparr>ret = 1, str = None\<rparr>
      | _ \<Rightarrow> \<lparr>ret = SQLITE_OK, str = None\<rparr>)"

theorem sqlite3_blocklist_witness:
  "case sqlite3_enum_open sqlite3_two_rows \<lparr>calls = [], inst = sqlite3_instance\<lparr>db_conn := True\<rparr>, err = None\<rparr> of
      (None, s') \<Rightarrow> False
    | (Some en, s') \<Rightarrow> (\<exists>t. collect 3 (sqlite3_enum_next sqlite3_two_rows)
        \<lparr>calls = calls s', inst = en, err = None\<rparr> = Some ([''10.0.0.1'', ''10.0.0.2''], t))"
proof -
  let ?p = "Sqlite3_prepare_v2 Blocklist_stmt sqlite3_blocklist_stmt_query_str"
  let ?s = "\<lparr>calls = [], inst = sqlite3_instance\<lparr>db_conn := True\<rparr>, err = None\<rparr>"
  have "sqlite3_cursor sqlite3_two_rows [Some ''10.0.0.1'', Some ''10.0.0.2''] (calls ?s @ [?p])"
    by (auto simp: sqlite3_cursor_def sqlite3_two_rows_def fetched_def Let_def)
  then have "case sqlite3_enum_open sqlite3_two_rows ?s of
      (None, s') \<Rightarrow> [Some ''10.0.0.1'', Some ''10.0.0.2''] = []
    | (Some en, s') \<Rightarrow> [Some ''10.0.0.1'', Some ''10.0.0.2''] \<noteq> [] \<and>
        (\<exists>t. collect 3 (sqlite3_enum_next sqlite3_two_rows) \<lparr>calls = calls s', inst = en, err = None\<rparr> =
          Some (map the (takeWhile (\<lambda>r. r \<noteq> None) [Some ''10.0.0.1'', Some ''10.0.0.2'']), t))"
    by (intro sqlite3_blocklist) (simp_all add: sqlite3_two_rows_def Let_def)
  then show ?thesis by (simp split: prod.splits option.splits)
qed

end
