(* ===== verification/Db_Mysql.thy ===== *)
theory Db_Mysql
  imports Db_Csvfile
begin

text \<open>
  \<open>src/libiptracking/db_drivers/db_instance_mysql.c\<close>. The client library is a parameter. Only
  events that pass \<open>log_data_is_valid\<close> reach a driver, so the event always has a name.
\<close>

abbreviation MYSQL_PORT :: "32 word" where "MYSQL_PORT \<equiv> 3306"
abbreviation MYSQL_NO_DATA :: int where "MYSQL_NO_DATA \<equiv> 100"

section \<open>The instance\<close>

record db_instance_mysql = db_instance +
  my_host :: "cstr option"
  my_user :: "cstr option"
  my_passwd :: "cstr option"
  my_db :: "cstr option"
  my_port :: "32 word"
  my_unix_socket :: "cstr option"
  is_connected :: bool
  log_statement :: bool

text \<open>
  The port is read from the key \<open>db\<close>, and the name of the database is stored where the
  password belongs, as in the code.
\<close>

definition mysql_alloc ::
  "bool \<Rightarrow> yaml_document \<Rightarrow> yaml_node option \<Rightarrow> db_instance_mysql option" where
  "mysql_alloc malloc_ok doc node =
     (let host = conf_scalar doc node ''host'';
          user = conf_scalar doc node ''user'';
          passwd = conf_scalar doc node ''passwd'';
          db = conf_scalar doc node ''db'';
          port = (case conf_node doc node ''db'' of
                    None \<Rightarrow> MYSQL_PORT
                  | Some n \<Rightarrow> (case yaml_helper_get_scalar_uint32_value n of None \<Rightarrow> MYSQL_PORT | Some v \<Rightarrow> v));
          unix_socket = conf_scalar doc node ''unix_socket''
      in if malloc_ok
         then Some (db_instance.extend db_instance_base
                \<lparr>my_host = host, my_user = user,
                 my_passwd = (case db of None \<Rightarrow> passwd | Some d \<Rightarrow> Some d),
                 my_db = None, my_port = port, my_unix_socket = unix_socket,
                 is_connected = False, log_statement = False\<rparr>)
         else None)"

definition mysql_has_valid_configuration :: "db_instance_mysql \<Rightarrow> errp \<Rightarrow> bool \<times> errp" where
  "mysql_has_valid_configuration db e = (True, e)"

definition mysql_summarize_to_log :: "db_instance_mysql \<Rightarrow> cstr list" where
  "mysql_summarize_to_log db =
     (let show = (\<lambda>v. case v of None \<Rightarrow> ''<not-set>'' | Some t \<Rightarrow> t) in
     [''Database: driver_name = mysql'',
      ''Database: host = '' @ show (my_host db),
      ''Database: user = '' @ show (my_user db),
      ''Database: password = '' @ (if my_passwd db = None then ''<not-set>'' else ''********''),
      ''Database: db = '' @ (if my_user db = None then ''<not-set>''
         else case my_db db of None \<Rightarrow> ''(null)'' | Some t \<Rightarrow> t),
      ''Database: port = '' @ show_nat (unat (my_port db)),
      ''Database: unix_socket = '' @ show (my_unix_socket db)])"

section \<open>Opening and closing\<close>

definition mysql_log_stmt_query_str :: cstr where
  "mysql_log_stmt_query_str = ''CALL  iptracking.log_one_event(?, ?, ?, ?, ?, ?, ?);''"

definition mysql_blocklist_stmt_query_str :: cstr where
  "mysql_blocklist_stmt_query_str = ''SELECT ip_entity FROM block_now''"

text \<open>Give the connection up: \<open>mysql_stmt_close\<close> when there is a statement, \<open>mysql_close\<close>.\<close>

definition mysql_disconnect :: "db_library \<Rightarrow> db_instance_mysql dbs \<Rightarrow> db_instance_mysql dbs" where
  "mysql_disconnect lib s =
     (let s1 = (if log_statement (inst s) then lib_do lib (Mysql_stmt_close Log_stmt) s else s);
          s2 = lib_do lib Mysql_close s1
      in s2\<lparr>inst := (inst s2)\<lparr>log_statement := False, is_connected := False\<rparr>\<rparr>)"

definition mysql_open ::
  "db_library \<Rightarrow> db_instance_mysql dbs \<Rightarrow> bool \<times> db_instance_mysql dbs" where
  "mysql_open lib s =
     (if is_connected (inst s) then (True, s)
      else case lib_call lib Mysql_init s of
        (r, s1) \<Rightarrow>
          if ret r = 0 then (False, report_text ''Unable to initialize MYSQL handle'' s1)
          else let i = inst s1 in
          case lib_call lib (Mysql_real_connect (my_host i) (my_user i) (my_passwd i) (my_db i) (my_port i)
                               (my_unix_socket i)) s1 of
            (r, s2) \<Rightarrow>
              if ret r = 0 then (False, report_text ''Unable to initialize MYSQL handle'' s2)
              else let s3 = s2\<lparr>inst := (inst s2)\<lparr>is_connected := True\<rparr>\<rparr> in
              if db_options_isset (options (inst s3)) db_options_no_pam_logging then (True, s3)
              else case lib_call lib (Mysql_stmt_init Log_stmt) s3 of
                (r, s4) \<Rightarrow>
                  (let s5 = s4\<lparr>inst := (inst s4)\<lparr>log_statement := (ret r \<noteq> 0)\<rparr>\<rparr> in
                   if ret r = 0 then (False, mysql_disconnect lib (report_call lib Mysql_error s5))
                   else case lib_call lib (Mysql_stmt_prepare Log_stmt mysql_log_stmt_query_str) s5 of
                     (r, s6) \<Rightarrow>
                       if ret r \<noteq> 0 then (False, mysql_disconnect lib (report_call lib Mysql_error s6))
                       else case lib_call lib Mysql_stmt_param_count s6 of
                         (r, s7) \<Rightarrow>
                           if ret r \<noteq> 7
                           then (False, mysql_disconnect lib (report_printf lib
                             ''Number of query parameters in prepared statement does not match expected number of parameters'' s7))
                           else (True, s7)))"

definition mysql_close ::
  "db_library \<Rightarrow> db_instance_mysql dbs \<Rightarrow> bool \<times> db_instance_mysql dbs" where
  "mysql_close lib s = (True, if is_connected (inst s) then mysql_disconnect lib s else s)"

section \<open>Logging\<close>

definition mysql_params :: "log_data \<Rightarrow> cstr list" where
  "mysql_params e =
     [cstr_of (dst_ipaddr e), cstr_of (src_ipaddr e), show_nat (unat (src_port e)), event_text (event e),
      show_int (sint (sshd_pid e)), cstr_of (uid e), cstr_of (log_date e)]"

text \<open>The calls in order; the first one that fails ends the attempt with the statement's error.\<close>

fun mysql_calls :: "db_library \<Rightarrow> db_call list \<Rightarrow> db_instance_mysql dbs \<Rightarrow> bool \<times> db_instance_mysql dbs" where
  "mysql_calls lib [] s = (True, s)"
| "mysql_calls lib (c # cs) s =
     (case lib_call lib c s of
        (r, s1) \<Rightarrow>
          if ret r \<noteq> 0 then (False, report_call lib Mysql_stmt_error s1) else mysql_calls lib cs s1)"

definition mysql_log_one_event ::
  "db_library \<Rightarrow> log_data \<Rightarrow> db_instance_mysql dbs \<Rightarrow> bool \<times> db_instance_mysql dbs" where
  "mysql_log_one_event lib e s =
     (if is_connected (inst s)
      then mysql_calls lib
        [Mysql_stmt_reset, Mysql_stmt_bind_param (mysql_params e), Mysql_stmt_execute Log_stmt, Mysql_stmt_reset] s
      else (False, s))"

section \<open>The block list\<close>

record mysql_blocklist_enum =
  my_is_done :: bool

text \<open>
  The reply to \<open>mysql_stmt_fetch\<close> carries the column's text, or none for an SQL NULL. A row
  without a text is answered like the end of the list, without setting \<open>is_done\<close>.
\<close>

definition mysql_enum_next ::
  "db_library \<Rightarrow> mysql_blocklist_enum dbs \<Rightarrow> cstr option \<times> mysql_blocklist_enum dbs" where
  "mysql_enum_next lib s =
     (if my_is_done (inst s) then (None, s)
      else case lib_call lib Mysql_stmt_fetch s of
             (r, s1) \<Rightarrow>
               if ret r = 1 \<or> ret r = MYSQL_NO_DATA
               then (None, s1\<lparr>inst := (inst s1)\<lparr>my_is_done := True\<rparr>\<rparr>)
               else (case str r of
                       None \<Rightarrow> (None, s1)
                     | Some t \<Rightarrow> if t = [] then (None, s1) else (Some t, s1)))"

definition mysql_enum_open ::
  "db_library \<Rightarrow> db_instance_mysql dbs \<Rightarrow> mysql_blocklist_enum option \<times> db_instance_mysql dbs" where
  "mysql_enum_open lib s =
     (if \<not> is_connected (inst s) then (None, s)
      else case lib_call lib (Mysql_stmt_init Blocklist_stmt) s of
        (r, s1) \<Rightarrow>
          if ret r = 0 then (None, s1)
          else case lib_call lib (Mysql_stmt_prepare Blocklist_stmt mysql_blocklist_stmt_query_str) s1 of
            (r, s2) \<Rightarrow>
              if ret r \<noteq> 0 then (None, lib_do lib (Mysql_stmt_close Blocklist_stmt) s2)
              else case lib_call lib Malloc s2 of
                (r, s3) \<Rightarrow>
                  if ret r = 0 then (None, lib_do lib (Mysql_stmt_close Blocklist_stmt) s3)
                  else case lib_call lib Mysql_stmt_bind_result s3 of
                    (r, s4) \<Rightarrow>
                      if ret r \<noteq> 0 then (None, lib_do lib (Mysql_stmt_close Blocklist_stmt) s4)
                      else case lib_call lib (Mysql_stmt_execute Blocklist_stmt) s4 of
                        (r, s5) \<Rightarrow>
                          if ret r \<noteq> 0 then (None, lib_do lib (Mysql_stmt_close Blocklist_stmt) s5)
                          else (Some \<lparr>my_is_done = False\<rparr>, s5))"

definition mysql_enum_close ::
  "db_library \<Rightarrow> mysql_blocklist_enum dbs \<Rightarrow> mysql_blocklist_enum dbs" where
  "mysql_enum_close lib s = lib_do lib (Mysql_stmt_close Blocklist_stmt) s"

section \<open>The driver contract\<close>

text \<open>The parameters of each execution of the logging statement.\<close>

fun my_bind_step :: "cstr list \<times> cstr list list \<Rightarrow> db_call \<Rightarrow> cstr list \<times> cstr list list" where
  "my_bind_step (cur, out) (Mysql_stmt_bind_param ps) = (ps, out)"
| "my_bind_step (cur, out) (Mysql_stmt_execute Log_stmt) = (cur, out @ [cur])"
| "my_bind_step st c = st"

definition mysql_rows :: "db_call list \<Rightarrow> cstr list list" where
  "mysql_rows cs = snd (foldl my_bind_step ([], []) cs)"

lemma snd_my_bind_step: "c \<noteq> Mysql_stmt_execute Log_stmt \<Longrightarrow> snd (my_bind_step st c) = snd st"
  by (cases "(st, c)" rule: my_bind_step.cases) auto

lemma mysql_rows_snoc: "c \<noteq> Mysql_stmt_execute Log_stmt \<Longrightarrow> mysql_rows (cs @ [c]) = mysql_rows cs"
  by (simp add: mysql_rows_def snd_my_bind_step)

lemma mysql_rows_execute:
  "mysql_rows (cs @ [Mysql_stmt_bind_param ps, Mysql_stmt_execute Log_stmt]) = mysql_rows cs @ [ps]"
proof -
  obtain cur out where "foldl my_bind_step ([], []) cs = (cur, out)" by fastforce
  then show ?thesis by (simp add: mysql_rows_def)
qed

lemma mysql_rows_quiet [simp]:
  "list_all (\<lambda>c. c \<noteq> Mysql_stmt_execute Log_stmt) ds \<Longrightarrow> mysql_rows (cs @ ds) = mysql_rows cs"
proof (induction ds rule: rev_induct)
  case (snoc d ds)
  then show ?case using mysql_rows_snoc [of d "cs @ ds"] by simp
qed simp

lemma mysql_report_rows [simp]:
  "c \<noteq> Mysql_stmt_execute Log_stmt \<Longrightarrow> mysql_rows (calls (report_call lib c s)) = mysql_rows (calls s)"
  using calls_report_call [of lib c s] mysql_rows_snoc by auto

lemma mysql_printf_rows [simp]: "mysql_rows (calls (report_printf lib t s)) = mysql_rows (calls s)"
  using calls_report_printf [of lib t s] mysql_rows_snoc by auto

lemma mysql_report_inst [simp]:
  "is_connected (inst (report_call lib c s)) = is_connected (inst s)"
  "is_connected (inst (report_printf lib t s)) = is_connected (inst s)"
  using inst_report_call [of lib c s] inst_report_printf [of lib t s] by auto

lemma mysql_disconnect_facts [simp]:
  "\<not> is_connected (inst (mysql_disconnect lib s))"
  "mysql_rows (calls (mysql_disconnect lib s)) = mysql_rows (calls s)"
  by (simp_all add: mysql_disconnect_def Let_def)

lemma mysql_log_sends:
  assumes "mysql_log_one_event lib e s = (r, s')"
  shows "mysql_rows (calls s') = mysql_rows (calls s) @ [mysql_params e] \<or>
    (\<not> r \<and> mysql_rows (calls s') = mysql_rows (calls s))"
proof -
  let ?b = "Mysql_stmt_bind_param (mysql_params e)"
  let ?x = "Mysql_stmt_execute Log_stmt"
  have x: "mysql_rows (calls s @ [Mysql_stmt_reset, ?b, ?x]) = mysql_rows (calls s) @ [mysql_params e]"
    using mysql_rows_execute [of "calls s @ [Mysql_stmt_reset]" "mysql_params e"] by simp
  have y: "mysql_rows (calls s @ [Mysql_stmt_reset, ?b, ?x, Mysql_stmt_reset]) =
      mysql_rows (calls s) @ [mysql_params e]"
    using mysql_rows_quiet [of "[Mysql_stmt_reset]" "calls s @ [Mysql_stmt_reset, ?b, ?x]"] x by simp
  show ?thesis using assms x y
    by (auto simp: mysql_log_one_event_def lib_call_def split: if_splits)
qed

interpretation my: db_driver "\<lambda>lib. True" options is_connected mysql_open mysql_close mysql_log_one_event
  "\<lambda>i. mysql_rows" "\<lambda>i. mysql_params"
proof unfold_locales
  fix lib :: db_library and s s' :: "db_instance_mysql dbs" and r :: bool and e :: log_data
  show "is_connected (inst s')" if "mysql_open lib s = (True, s')"
    using that by (auto simp: mysql_open_def lib_call_def Let_def split: if_splits)
  show "mysql_open lib s = (True, s)" if "is_connected (inst s)"
    using that by (simp add: mysql_open_def)
  show "mysql_rows (calls s') = mysql_rows (calls s) \<and> mysql_params = mysql_params" if "mysql_open lib s = (r, s')"
    using that by (auto simp: mysql_open_def lib_call_def Let_def split: if_splits)
  show "\<not> is_connected (inst s')" if "mysql_close lib s = (r, s')"
    using that by (auto simp: mysql_close_def split: if_splits)
  show "mysql_rows (calls s') = mysql_rows (calls s) \<and> mysql_params = mysql_params" if "mysql_close lib s = (r, s')"
    using that by (auto simp: mysql_close_def split: if_splits)
  show "\<not> r \<and> calls s' = calls s" if "\<not> is_connected (inst s)" "mysql_log_one_event lib e s = (r, s')"
    using that by (simp add: mysql_log_one_event_def)
  show "is_connected (inst s') = is_connected (inst s) \<and> mysql_params = mysql_params"
    if "mysql_log_one_event lib e s = (r, s')"
    using that by (auto simp: mysql_log_one_event_def lib_call_def split: if_splits)
  show "mysql_rows (calls s') = mysql_rows (calls s) @ [mysql_params e] \<or>
      (\<not> r \<and> mysql_rows (calls s') = mysql_rows (calls s))"
    if "mysql_log_one_event lib e s = (r, s')" using that by (rule mysql_log_sends)
qed

section \<open>Reading the block list\<close>

text \<open>
  What the client library documents of an executed statement: the \<open>n\<close>-th fetch delivers the
  \<open>n\<close>-th row, and fetching past the last one reports \<open>MYSQL_NO_DATA\<close>. \<open>base\<close> is the history when
  the statement was executed.
\<close>

definition my_fetched :: "db_call list \<Rightarrow> db_call list \<Rightarrow> nat" where
  "my_fetched base h = count_list (drop (length base) h) Mysql_stmt_fetch"

definition mysql_cursor :: "db_library \<Rightarrow> cstr option list \<Rightarrow> db_call list \<Rightarrow> bool" where
  "mysql_cursor lib table base \<longleftrightarrow>
     (\<forall>h. let r = lib (base @ h) Mysql_stmt_fetch; n = my_fetched base (base @ h) in
        if n < length table then ret r = 0 \<and> str r = table ! n else ret r = MYSQL_NO_DATA)"

text \<open>The texts the driver delivers: SQL NULL and the empty text both show as NULL.\<close>

definition my_visible :: "cstr option \<Rightarrow> cstr option" where
  "my_visible t = (if t = Some [] then None else t)"

definition mysql_enum_ok ::
  "db_library \<Rightarrow> cstr option list \<Rightarrow> db_call list \<Rightarrow> mysql_blocklist_enum dbs \<Rightarrow> bool" where
  "mysql_enum_ok lib table base s \<longleftrightarrow> mysql_cursor lib table base \<and> prefix base (calls s)"

definition mysql_enum_remaining ::
  "cstr option list \<Rightarrow> db_call list \<Rightarrow> mysql_blocklist_enum dbs \<Rightarrow> cstr option list" where
  "mysql_enum_remaining table base s =
     (if my_is_done (inst s) then [] else map my_visible (drop (my_fetched base (calls s)) table))"

lemma my_fetched_append: "my_fetched base (base @ h) = count_list h Mysql_stmt_fetch"
  by (simp add: my_fetched_def)

lemma mysql_cursor_fetch:
  assumes "mysql_cursor lib table base" "prefix base h"
  shows "if my_fetched base h < length table
    then ret (lib h Mysql_stmt_fetch) = 0 \<and> str (lib h Mysql_stmt_fetch) = table ! my_fetched base h
    else ret (lib h Mysql_stmt_fetch) = MYSQL_NO_DATA"
  using assms by (auto simp: mysql_cursor_def prefix_def Let_def)

interpretation my_list: blocklist_cursor "mysql_enum_ok lib table base" "mysql_enum_next lib"
  "mysql_enum_remaining table base" for lib table base
proof unfold_locales
  fix s r rs
  assume s: "mysql_enum_ok lib table base s"
  let ?n = "my_fetched base (calls s)"
  let ?reply = "lib (calls s) Mysql_stmt_fetch"
  have law: "if ?n < length table then ret ?reply = 0 \<and> str ?reply = table ! ?n
      else ret ?reply = MYSQL_NO_DATA" and pre: "prefix base (calls s)"
    using s mysql_cursor_fetch by (auto simp: mysql_enum_ok_def)
  have f: "my_fetched base (calls s @ [Mysql_stmt_fetch]) = Suc ?n"
    using pre by (auto simp: my_fetched_def prefix_def)
  show "\<exists>s'. mysql_enum_next lib s = (r, s') \<and> mysql_enum_ok lib table base s' \<and>
      mysql_enum_remaining table base s' = rs"
    if rem: "mysql_enum_remaining table base s = r # rs"
  proof -
    have nd: "\<not> my_is_done (inst s)" and d: "map my_visible (drop ?n table) = r # rs"
      using rem by (auto simp: mysql_enum_remaining_def split: if_splits)
    then have n: "?n < length table" by (metis drop_all list.simps(3,8) not_le)
    then have "drop ?n table = table ! ?n # drop (Suc ?n) table" by (rule Cons_nth_drop_Suc [symmetric])
    with d have r: "r = my_visible (table ! ?n)" "rs = map my_visible (drop (Suc ?n) table)" by simp_all
    show ?thesis using law n nd r s f
      by (cases "table ! ?n") (auto simp: mysql_enum_next_def lib_call_def mysql_enum_ok_def
          mysql_enum_remaining_def my_visible_def)
  qed
  show "\<exists>s'. mysql_enum_next lib s = (None, s') \<and> mysql_enum_ok lib table base s' \<and>
      mysql_enum_remaining table base s' = []"
    if rem: "mysql_enum_remaining table base s = []"
  proof (cases "my_is_done (inst s)")
    case True
    then show ?thesis using s rem by (auto simp: mysql_enum_next_def)
  next
    case False
    then have "\<not> ?n < length table" using rem by (simp add: mysql_enum_remaining_def)
    then show ?thesis using law False s
      by (auto simp: mysql_enum_next_def lib_call_def mysql_enum_ok_def mysql_enum_remaining_def)
  qed
qed

section \<open>The properties of the driver\<close>

text \<open>
  The block list from MySQL. When every call up to the execution succeeds, reading the
  enumerator until it returns NULL ends, and yields the rows up to the first one whose text is
  NULL or empty: the rows behind such a row are lost to the firewall, although the enumerator
  is not at its end.
\<close>

theorem mysql_blocklist:
  assumes "is_connected (inst s)"
    "\<And>h c. c \<in> {Mysql_stmt_init Blocklist_stmt, Malloc} \<Longrightarrow> ret (lib h c) \<noteq> 0"
    "\<And>h c. c \<in> {Mysql_stmt_prepare Blocklist_stmt mysql_blocklist_stmt_query_str, Mysql_stmt_bind_result,
       Mysql_stmt_execute Blocklist_stmt} \<Longrightarrow> ret (lib h c) = 0"
    "mysql_cursor lib table (calls s @ [Mysql_stmt_init Blocklist_stmt,
       Mysql_stmt_prepare Blocklist_stmt mysql_blocklist_stmt_query_str, Malloc, Mysql_stmt_bind_result,
       Mysql_stmt_execute Blocklist_stmt])"
    "length table < fuel"
  shows "\<exists>en s' t. mysql_enum_open lib s = (Some en, s') \<and>
    collect fuel (mysql_enum_next lib) \<lparr>calls = calls s', inst = en, err = e\<rparr> =
      Some (map the (takeWhile (\<lambda>r. r \<noteq> None) (map my_visible table)), t)"
proof -
  let ?base = "calls s @ [Mysql_stmt_init Blocklist_stmt,
       Mysql_stmt_prepare Blocklist_stmt mysql_blocklist_stmt_query_str, Malloc, Mysql_stmt_bind_result,
       Mysql_stmt_execute Blocklist_stmt]"
  let ?e = "\<lparr>calls = ?base, inst = \<lparr>my_is_done = False\<rparr>, err = e\<rparr>"
  have o: "mysql_enum_open lib s = (Some \<lparr>my_is_done = False\<rparr>, s\<lparr>calls := ?base\<rparr>)"
    using assms(1) by (simp add: mysql_enum_open_def lib_call_def assms(2,3))
  have "my_fetched ?base ?base = 0" by (simp add: my_fetched_def)
  then have "mysql_enum_ok lib table ?base ?e" "mysql_enum_remaining table ?base ?e = map my_visible table"
    using assms(4) by (simp_all add: mysql_enum_ok_def mysql_enum_remaining_def)
  with my_list.collect_rows [of lib table ?base ?e fuel] assms(5) o show ?thesis by auto
qed

text \<open>A result whose second row is NULL.\<close>

definition mysql_null_row :: db_library where
  "mysql_null_row h c =
     (let n = count_list h Mysql_stmt_fetch in
      case c of
        Mysql_stmt_fetch \<Rightarrow>
          if n < 3 then \<lparr>ret = 0, str = [Some ''10.0.0.1'', None, Some ''10.0.0.3''] ! n\<rparr>
          else \<lparr>ret = MYSQL_NO_DATA, str = None\<rparr>
      | Mysql_stmt_init st \<Rightarrow> \<lparr>ret = 1, str = None\<rparr>
      | Malloc \<Rightarrow> \<lparr>ret = 1, str = None\<rparr>
      | _ \<Rightarrow> \<lparr>ret = 0, str = None\<rparr>)"

definition mysql_connected_instance :: db_instance_mysql where
  "mysql_connected_instance = db_instance.extend db_instance_base
     \<lparr>my_host = None, my_user = None, my_passwd = None, my_db = None, my_port = MYSQL_PORT,
      my_unix_socket = None, is_connected = True, log_statement = False\<rparr>"

theorem mysql_blocklist_witness:
  "\<exists>en s' t. mysql_enum_open mysql_null_row \<lparr>calls = [], inst = mysql_connected_instance, err = None\<rparr> = (Some en, s') \<and>
    collect 4 (mysql_enum_next mysql_null_row) \<lparr>calls = calls s', inst = en, err = None\<rparr> = Some ([''10.0.0.1''], t)"
proof -
  let ?s = "\<lparr>calls = [], inst = mysql_connected_instance, err = None\<rparr>"
  let ?t = "[Some ''10.0.0.1'', None, Some ''10.0.0.3'']"
  have "\<exists>en s' t. mysql_enum_open mysql_null_row ?s = (Some en, s') \<and>
    collect 4 (mysql_enum_next mysql_null_row) \<lparr>calls = calls s', inst = en, err = None\<rparr> =
      Some (map the (takeWhile (\<lambda>r. r \<noteq> None) (map my_visible ?t)), t)"
  proof (rule mysql_blocklist)
    show "mysql_cursor mysql_null_row ?t (calls ?s @ [Mysql_stmt_init Blocklist_stmt,
       Mysql_stmt_prepare Blocklist_stmt mysql_blocklist_stmt_query_str, Malloc, Mysql_stmt_bind_result,
       Mysql_stmt_execute Blocklist_stmt])"
      by (auto simp: mysql_cursor_def mysql_null_row_def my_fetched_def Let_def)
  qed (auto simp: mysql_null_row_def mysql_connected_instance_def db_instance.defs Let_def)
  then show ?thesis by (simp add: my_visible_def)
qed

text \<open>
  The MySQL driver's configuration. Whatever the configuration names as \<open>db\<close> is passed to
  \<open>mysql_real_connect\<close> as the password, in place of the configured one, and no database is
  selected; a \<open>port\<close> key has no effect.
\<close>

theorem mysql_database_name_is_password:
  assumes "conf_scalar doc node ''db'' = Some name" "mysql_alloc True doc node = Some db"
    "ret (lib [] Mysql_init) \<noteq> 0" "mysql_open lib \<lparr>calls = [], inst = db, err = e\<rparr> = (r, s')"
  shows "\<exists>port. calls s' ! 1 = Mysql_real_connect (conf_scalar doc node ''host'')
      (conf_scalar doc node ''user'') (Some name) None port (conf_scalar doc node ''unix_socket'') \<and>
    (\<forall>doc' node'. (\<forall>key \<in> {''host'', ''user'', ''passwd'', ''db'', ''unix_socket''}.
       conf_node doc' node' key = conf_node doc node key) \<longrightarrow> mysql_alloc True doc' node' = Some db)"
proof -
  let ?c = "Mysql_real_connect (my_host db) (my_user db) (my_passwd db) (my_db db) (my_port db) (my_unix_socket db)"
  have db: "my_host db = conf_scalar doc node ''host''" "my_user db = conf_scalar doc node ''user''"
    "my_passwd db = Some name" "my_db db = None" "my_unix_socket db = conf_scalar doc node ''unix_socket''"
    "\<not> is_connected db"
    using assms(1,2) by (auto simp: mysql_alloc_def Let_def db_instance.defs)
  have pf: "prefix xs (calls (report_printf lib t s))" if "prefix xs (calls s)" for xs t and s :: "db_instance_mysql dbs"
    using that calls_report_printf [of lib t s] by auto
  have "prefix [Mysql_init, ?c] (calls s')"
    using assms(3,4) db(6) calls_report_call
    by (auto simp: mysql_open_def lib_call_def Let_def mysql_disconnect_def report_call_def
        intro!: pf prefix_prefix [OF pf] split: if_splits)
  then have "calls s' ! 1 = ?c" by (auto simp: prefix_def)
  moreover have "mysql_alloc True doc' node' = Some db"
    if "\<forall>key \<in> {''host'', ''user'', ''passwd'', ''db'', ''unix_socket''}. conf_node doc' node' key = conf_node doc node key"
    for doc' node'
    using assms(2) that by (simp add: mysql_alloc_def conf_scalar_def Let_def)
  ultimately show ?thesis using db by auto
qed

text \<open>The configuration \<open>db: ipt, passwd: secret\<close>.\<close>

definition mysql_sample_doc :: yaml_document where
  "mysql_sample_doc i =
     (if i = 1 then Some (YAML_SCALAR_NODE ''db'') else if i = 2 then Some (YAML_SCALAR_NODE ''ipt'')
      else if i = 3 then Some (YAML_SCALAR_NODE ''passwd'') else if i = 4 then Some (YAML_SCALAR_NODE ''secret'')
      else None)"

abbreviation mysql_sample_root :: "yaml_node option" where
  "mysql_sample_root \<equiv> Some (YAML_MAPPING_NODE [(1, 2), (3, 4)])"

lemma mysql_sample_conf: "conf_scalar mysql_sample_doc mysql_sample_root ''db'' = Some ''ipt''"
  by code_simp

theorem mysql_database_name_is_password_witness:
  "\<exists>db r s' h u port x. mysql_alloc True mysql_sample_doc mysql_sample_root = Some db \<and>
    mysql_open (\<lambda>_ _. \<lparr>ret = 1, str = None\<rparr>) \<lparr>calls = [], inst = db, err = None\<rparr> = (r, s') \<and>
    calls s' ! 1 = Mysql_real_connect h u (Some ''ipt'') None port x"
proof -
  obtain db where a: "mysql_alloc True mysql_sample_doc mysql_sample_root = Some db"
    by (simp add: mysql_alloc_def Let_def)
  obtain r s' where o: "mysql_open (\<lambda>_ _. \<lparr>ret = 1, str = None\<rparr>) \<lparr>calls = [], inst = db, err = None\<rparr> = (r, s')"
    by fastforce
  show ?thesis
    using mysql_database_name_is_password [OF mysql_sample_conf a _ o] a o by auto
qed

end
