(* ===== verification/Db_Postgresql.thy ===== *)
theory Db_Postgresql
  imports Db_Csvfile
begin

text \<open>
  \<open>src/libiptracking/db_drivers/db_instance_postgresql.c\<close>. libpq and the thread functions are
  parameters. A successful \<open>asprintf\<close> is an allocation that succeeds.
\<close>

abbreviation PGRES_COMMAND_OK :: int where "PGRES_COMMAND_OK \<equiv> 1"
abbreviation PGRES_TUPLES_OK :: int where "PGRES_TUPLES_OK \<equiv> 2"

section \<open>The instance\<close>

definition db_conn_keys :: "cstr list" where
  "db_conn_keys =
     [''host'', ''hostaddr'', ''port'', ''dbname'', ''user'', ''password'', ''passfile'', ''require_auth'',
      ''channel_binding'', ''connect_timeout'', ''client_encoding'', ''options'', ''application_name'',
      ''fallback_application_name'', ''keepalives'', ''keepalives_idle'', ''keepalives_interval'',
      ''keepalives_count'', ''tcp_user_timeout'', ''sslmode'', ''requiressl'', ''sslnegotiation'',
      ''sslcompression'', ''sslcert'', ''sslkey'', ''sslpassword'', ''sslcertmode'', ''sslrootcert'',
      ''sslcrl'', ''sslcrldir'', ''sslsni'', ''requirepeer'', ''ssl_min_protocol_version'',
      ''ssl_max_protocol_version'', ''krbsrvname'', ''gsslib'', ''gssdelegation'', ''service'',
      ''target_session_attrs'', ''load_balance_hosts'']"

record db_instance_postgresql = db_instance +
  conn_params :: "(cstr \<times> cstr) list"
  pam_schema :: "cstr option"
  firewall_schema :: "cstr option"
  firewall_notify_channel :: "cstr option"
  pg_conn :: bool
  pg_conn_async :: bool
  is_notify_running :: bool

section \<open>Packing the configuration behind the instance\<close>

text \<open>The recognised connection properties that have a scalar value, in the order of the keys.\<close>

fun conf_settings :: "yaml_document \<Rightarrow> yaml_node option \<Rightarrow> cstr list \<Rightarrow> (cstr \<times> cstr) list" where
  "conf_settings doc node [] = []"
| "conf_settings doc node (k # ks) =
     (case conf_scalar doc node k of
        None \<Rightarrow> conf_settings doc node ks
      | Some v \<Rightarrow> (k, v) # conf_settings doc node ks)"

text \<open>\<open>extra_bytes\<close>: two pointers and two strings per setting, the list ends, the optional strings.\<close>

definition opt_bytes :: "cstr option \<Rightarrow> nat" where
  "opt_bytes v = (case v of None \<Rightarrow> 0 | Some t \<Rightarrow> length t + 1)"

definition pg_extra_bytes ::
  "(cstr \<times> cstr) list \<Rightarrow> cstr option \<Rightarrow> cstr option \<Rightarrow> cstr option \<Rightarrow> nat" where
  "pg_extra_bytes settings pam fw ch =
     sum_list (map (\<lambda>(k, v). 2 * 8 + length k + length v + 2) settings) + 2 * 8 +
     opt_bytes pam + opt_bytes fw + opt_bytes ch"

text \<open>
  \<open>e = stpncpy(p, text, extra_bytes)\<close> with \<open>p += e - p + 1; extra_bytes -= e - p + 1\<close>. The call
  writes \<open>extra_bytes\<close> characters from \<open>off\<close> on. The result is \<open>None\<close> when that leaves the
  memory block or the size drops below 0; otherwise the offsets of the strings, the final
  offset and size, and the block.
\<close>

fun pg_pack :: "cstr list \<Rightarrow> nat \<Rightarrow> nat \<Rightarrow> cbuf \<Rightarrow> (nat list \<times> nat \<times> nat \<times> cbuf) option" where
  "pg_pack [] off extra buf = Some ([], off, extra, buf)"
| "pg_pack (text # texts) off extra buf =
     (if off + extra > length buf then None
      else let buf' = take off buf @ c_strncpy extra text @ drop (off + extra) buf;
               used = min (length text) extra + 1
           in if used > extra then None
              else map_option (\<lambda>(offs, rest). (off # offs, rest))
                     (pg_pack texts (off + used) (extra - used) buf'))"

text \<open>The strings in the order in which they are copied.\<close>

definition opt_list :: "'a option \<Rightarrow> 'a list" where
  "opt_list v = (case v of None \<Rightarrow> [] | Some t \<Rightarrow> [t])"

definition pg_texts ::
  "(cstr \<times> cstr) list \<Rightarrow> cstr option \<Rightarrow> cstr option \<Rightarrow> cstr option \<Rightarrow> cstr list" where
  "pg_texts settings pam fw ch =
     concat (map (\<lambda>(k, v). [k, v]) (rev settings)) @ opt_list pam @ opt_list fw @ opt_list ch"

text \<open>Reading the pointers back: the settings from the last to the first, then the others.\<close>

fun take_settings :: "nat \<Rightarrow> cstr list \<Rightarrow> (cstr \<times> cstr) list \<times> cstr list" where
  "take_settings (Suc n) (k # v # ts) = (case take_settings n ts of (ss, r) \<Rightarrow> (ss @ [(k, v)], r))"
| "take_settings n ts = ([], ts)"

definition take_opt :: "cstr option \<Rightarrow> cstr list \<Rightarrow> cstr option \<times> cstr list" where
  "take_opt v ts = (case v of None \<Rightarrow> (None, ts) | Some _ \<Rightarrow> (Some (hd ts), tl ts))"

text \<open>
  \<open>__db_instance_postgresql_alloc\<close>. The outer \<open>None\<close> is a write behind the allocated block; the
  inner one is NULL. The fields are what the stored pointers point to.
\<close>

definition pg_alloc ::
  "bool \<Rightarrow> yaml_document \<Rightarrow> yaml_node option \<Rightarrow> db_instance_postgresql option option" where
  "pg_alloc malloc_ok doc node =
     (let settings = conf_settings doc node db_conn_keys;
          pam = conf_scalar doc node ''pamd.schema'';
          fw = conf_scalar doc node ''firewalld.schema'';
          ch = conf_scalar doc node ''firewalld.notify-channel'';
          extra = pg_extra_bytes settings pam fw ch;
          pointers = 2 * 8 * (length settings + 1)
      in if \<not> malloc_ok then Some None
         else if pointers > extra then None
         else case pg_pack (pg_texts settings pam fw ch) pointers (extra - pointers) (replicate extra nul) of
                None \<Rightarrow> None
              | Some (offs, _, _, buf) \<Rightarrow>
                  (let ts = map (\<lambda>off. cstr_of (drop off buf)) offs in
                   case take_settings (length settings) ts of (ss, ts1) \<Rightarrow>
                   case take_opt pam ts1 of (pam', ts2) \<Rightarrow>
                   case take_opt fw ts2 of (fw', ts3) \<Rightarrow>
                   case take_opt ch ts3 of (ch', _) \<Rightarrow>
                   Some (Some (db_instance.extend db_instance_base
                     \<lparr>conn_params = ss, pam_schema = pam', firewall_schema = fw',
                      firewall_notify_channel = ch', pg_conn = False, pg_conn_async = False,
                      is_notify_running = False\<rparr>))))"

definition pg_has_valid_configuration :: "db_instance_postgresql \<Rightarrow> errp \<Rightarrow> bool \<times> errp" where
  "pg_has_valid_configuration db e = (True, e)"

definition pg_summarize_to_log :: "db_instance_postgresql \<Rightarrow> cstr list" where
  "pg_summarize_to_log db =
     ''Database: driver_name = postgresql'' #
     map (\<lambda>(k, v). ''Database: '' @ k @ '' = '' @ (if k \<noteq> ''password'' then v else ''********'')) (conn_params db) @
     (case pam_schema db of None \<Rightarrow> [] | Some t \<Rightarrow> [''Database: pam schema = '' @ t]) @
     (case firewall_schema db of None \<Rightarrow> [] | Some t \<Rightarrow> [''Database: firewall schema = '' @ t])"

section \<open>The layout is exact\<close>

text \<open>With as many bytes as the strings and their terminators need, every string is stored whole.\<close>

definition text_bytes :: "cstr list \<Rightarrow> nat" where
  "text_bytes ts = sum_list (map (\<lambda>t. length t + 1) ts)"

lemma text_bytes_simps [simp]:
  "text_bytes [] = 0" "text_bytes (t # ts) = length t + 1 + text_bytes ts"
  "text_bytes (ts @ us) = text_bytes ts + text_bytes us"
  by (simp_all add: text_bytes_def)

lemma pg_pack_exact:
  assumes "text_bytes ts = extra" "off + extra = length buf" "\<forall>t \<in> set ts. nul \<notin> set t"
  shows "\<exists>offs buf'. pg_pack ts off extra buf = Some (offs, off + extra, 0, buf') \<and>
    length buf' = length buf \<and> take off buf' = take off buf \<and> (\<forall>x \<in> set offs. off \<le> x) \<and>
    map (\<lambda>x. cstr_of (drop x buf')) offs = ts"
  using assms
proof (induction ts arbitrary: off extra buf)
  case Nil
  then show ?case by simp
next
  case (Cons t ts)
  let ?used = "length t + 1"
  let ?rest = "extra - ?used"
  let ?buf1 = "take off buf @ c_strncpy extra t @ drop (off + extra) buf"
  have len: "length ?buf1 = length buf" using Cons.prems(2) by simp
  have rest: "text_bytes ts = ?rest" "(off + ?used) + ?rest = length ?buf1"
    "\<forall>t \<in> set ts. nul \<notin> set t" "off + ?used + ?rest = off + extra"
    using Cons.prems len by auto
  from Cons.IH [OF rest(1-3)] obtain offs buf' where IH:
    "pg_pack ts (off + ?used) ?rest ?buf1 = Some (offs, off + ?used + ?rest, 0, buf')"
    "length buf' = length ?buf1" "take (off + ?used) buf' = take (off + ?used) ?buf1"
    "\<forall>x \<in> set offs. off + ?used \<le> x" "map (\<lambda>x. cstr_of (drop x buf')) offs = ts" by blast
  have used: "?used \<le> extra" using Cons.prems(1) by simp
  then obtain k where k: "extra = length t + Suc k" using less_iff_Suc_add by (auto simp: le_iff_add)
  then have "c_strncpy extra t = t @ nul # replicate k nul" by (simp add: c_strncpy_def)
  then have t1: "take (off + ?used) ?buf1 = take off buf @ t @ [nul]"
    using Cons.prems(2) by simp
  have "drop off (take (off + ?used) buf') = t @ [nul]"
    unfolding IH(3) t1 using Cons.prems(2) by simp
  then have "take ?used (drop off buf') = t @ [nul]" by (simp add: drop_take)
  then have "drop off buf' = (t @ [nul]) @ drop ?used (drop off buf')"
    by (metis append_take_drop_id)
  then have "cstr_of (drop off buf') = t"
    using Cons.prems(3) cstr_of_append_nul [of t "drop ?used (drop off buf')"] by simp
  moreover have "take off buf' = take off buf"
  proof -
    have "take off (take (off + ?used) buf') = take off (take off buf @ t @ [nul])" by (simp only: IH(3) t1)
    then show ?thesis using Cons.prems(2) by simp
  qed
  moreover have "pg_pack (t # ts) off extra buf = Some (off # offs, off + extra, 0, buf')"
    using IH(1) used rest(4) Cons.prems(2) by (simp add: Let_def min_absorb1)
  ultimately show ?case using IH(2,4,5) len by fastforce
qed

lemma take_settings_texts:
  "take_settings (length ss) (concat (map (\<lambda>(k, v). [k, v]) (rev ss)) @ r) = (ss, r)"
proof (induction ss arbitrary: r rule: rev_induct)
  case (snoc s ss)
  then show ?case by (cases s) simp
qed simp

lemma take_opt_texts: "take_opt v (opt_list v @ r) = (v, r)"
  by (cases v) (simp_all add: take_opt_def opt_list_def)

lemma text_bytes_settings:
  "text_bytes (concat (map (\<lambda>(k, v). [k, v]) (rev ss))) = sum_list (map (\<lambda>(k, v). length k + length v + 2) ss)"
  by (induction ss) auto

lemma pg_extra_split:
  "pg_extra_bytes ss pam fw ch = 2 * 8 * (length ss + 1) + text_bytes (pg_texts ss pam fw ch)"
proof -
  have "sum_list (map (\<lambda>(k, v). 2 * 8 + length k + length v + 2) ss) =
      2 * 8 * length ss + sum_list (map (\<lambda>(k, v). length k + length v + 2) ss)"
    by (induction ss) auto
  moreover have "text_bytes (concat (map (\<lambda>(k, v). [k, v]) (rev ss))) =
      sum_list (map (\<lambda>(k, v). length k + length v + 2) ss)"
    by (rule text_bytes_settings)
  moreover have "text_bytes (opt_list v) = opt_bytes v" for v
    by (cases v) (simp_all add: opt_list_def opt_bytes_def)
  ultimately show ?thesis by (simp add: pg_extra_bytes_def pg_texts_def)
qed

lemma conf_scalar_no_nul: "conf_scalar doc node k = Some v \<Longrightarrow> nul \<notin> set v"
  by (auto simp: conf_scalar_def yaml_helper_get_scalar_value_def split: option.splits yaml_node.splits)

lemma conf_settings_no_nul:
  "\<forall>k \<in> set ks. nul \<notin> set k \<Longrightarrow> (k, v) \<in> set (conf_settings doc node ks) \<Longrightarrow> nul \<notin> set k \<and> nul \<notin> set v"
  by (induction ks) (auto split: option.splits dest: conf_scalar_no_nul)

lemma db_conn_keys_no_nul: "\<forall>k \<in> set db_conn_keys. nul \<notin> set k"
  by (simp add: db_conn_keys_def)

lemma pg_alloc_packs:
  "pg_alloc True doc node = Some (Some (db_instance.extend db_instance_base
     \<lparr>conn_params = conf_settings doc node db_conn_keys, pam_schema = conf_scalar doc node ''pamd.schema'',
      firewall_schema = conf_scalar doc node ''firewalld.schema'',
      firewall_notify_channel = conf_scalar doc node ''firewalld.notify-channel'',
      pg_conn = False, pg_conn_async = False, is_notify_running = False\<rparr>)) \<and>
   (\<exists>offs buf. pg_pack (pg_texts (conf_settings doc node db_conn_keys) (conf_scalar doc node ''pamd.schema'')
        (conf_scalar doc node ''firewalld.schema'') (conf_scalar doc node ''firewalld.notify-channel''))
      (2 * 8 * (length (conf_settings doc node db_conn_keys) + 1)) m (replicate n nul) = Some (offs, n, 0, buf))"
  if "n = pg_extra_bytes (conf_settings doc node db_conn_keys) (conf_scalar doc node ''pamd.schema'')
        (conf_scalar doc node ''firewalld.schema'') (conf_scalar doc node ''firewalld.notify-channel'')"
    "m = n - 2 * 8 * (length (conf_settings doc node db_conn_keys) + 1)"
proof -
  let ?ss = "conf_settings doc node db_conn_keys"
  let ?pam = "conf_scalar doc node ''pamd.schema''"
  let ?fw = "conf_scalar doc node ''firewalld.schema''"
  let ?ch = "conf_scalar doc node ''firewalld.notify-channel''"
  let ?ts = "pg_texts ?ss ?pam ?fw ?ch"
  let ?ptr = "2 * 8 * (length ?ss + 1)"
  have n: "n = ?ptr + text_bytes ?ts" unfolding that(1) by (rule pg_extra_split)
  then have m: "text_bytes ?ts = m" "?ptr + m = length (replicate n nul)" using that(2) by simp_all
  have "\<forall>t \<in> set ?ts. nul \<notin> set t"
    using conf_settings_no_nul [OF db_conn_keys_no_nul, of _ _ doc node] conf_scalar_no_nul [of doc node]
    by (auto simp: pg_texts_def opt_list_def split: option.splits)
  from pg_pack_exact [OF m this] obtain offs buf where p:
    "pg_pack ?ts ?ptr m (replicate n nul) = Some (offs, ?ptr + m, 0, buf)"
    "map (\<lambda>x. cstr_of (drop x buf)) offs = ?ts" by blast
  have n': "?ptr + m = n" using m(2) by simp
  have ts: "take_settings (length ?ss) ?ts = (?ss, opt_list ?pam @ opt_list ?fw @ opt_list ?ch @ [])"
    unfolding pg_texts_def append_Nil2 by (rule take_settings_texts)
  have le: "\<not> ?ptr > n" using n by simp
  have "pg_alloc True doc node = Some (Some (db_instance.extend db_instance_base
     \<lparr>conn_params = ?ss, pam_schema = ?pam, firewall_schema = ?fw, firewall_notify_channel = ?ch,
      pg_conn = False, pg_conn_async = False, is_notify_running = False\<rparr>))"
    unfolding pg_alloc_def Let_def that(1) [symmetric] that(2) [symmetric]
    using p le ts take_opt_texts [of ?pam] take_opt_texts [of ?fw] take_opt_texts [of ?ch "[]"]
    by (simp del: mult_Suc_right)
  with p(1) n' show ?thesis by auto
qed

text \<open>
  C39: \<open>__db_instance_postgresql_alloc\<close> computes the size of its single allocation, then packs
  the pointer arrays and every string into it with \<open>stpncpy\<close>, which pads to the size it is
  given. For every configuration the packing stays within the block, uses it up to the last
  byte, and every stored pointer leads to the whole string it stands for: the instance has
  exactly the configured settings.
\<close>

theorem pg_alloc_layout:
  "let ss = conf_settings doc node db_conn_keys; pam = conf_scalar doc node ''pamd.schema'';
       fw = conf_scalar doc node ''firewalld.schema''; ch = conf_scalar doc node ''firewalld.notify-channel'';
       n = pg_extra_bytes ss pam fw ch; pointers = 2 * 8 * (length ss + 1)
   in pg_alloc True doc node = Some (Some (db_instance.extend db_instance_base
        \<lparr>conn_params = ss, pam_schema = pam, firewall_schema = fw, firewall_notify_channel = ch,
         pg_conn = False, pg_conn_async = False, is_notify_running = False\<rparr>)) \<and>
      (\<exists>offs buf. pg_pack (pg_texts ss pam fw ch) pointers (n - pointers) (replicate n nul) =
         Some (offs, n, 0, buf))"
  unfolding Let_def by (rule pg_alloc_packs [OF refl refl])

section \<open>The notification thread: starting and stopping\<close>

definition pg_toggle ::
  "db_library \<Rightarrow> bool \<Rightarrow> db_instance_postgresql dbs \<Rightarrow> bool \<times> db_instance_postgresql dbs" where
  "pg_toggle lib start_if_true s =
     (if start_if_true
      then (if is_notify_running (inst s) then (False, s)
            else case lib_call lib Pthread_create (s\<lparr>inst := (inst s)\<lparr>is_notify_running := True\<rparr>\<rparr>) of
                   (r, s1) \<Rightarrow>
                     if ret r = 0 then (True, s1)
                     else (False, s1\<lparr>inst := (inst s1)\<lparr>is_notify_running := False\<rparr>\<rparr>))
      else (if is_notify_running (inst s)
            then case lib_call lib Pthread_cancel (s\<lparr>inst := (inst s)\<lparr>is_notify_running := False\<rparr>\<rparr>) of
                   (r, s1) \<Rightarrow>
                     if ret r = 0
                     then case lib_call lib Pthread_join s1 of (r2, s2) \<Rightarrow> (ret r2 = 0, s2)
                     else (False, s1\<lparr>inst := (inst s1)\<lparr>is_notify_running := False\<rparr>\<rparr>)
            else (False, s)))"

section \<open>Opening and closing\<close>

text \<open>\<open>schema ? schema : ""\<close> and \<open>schema ? "." : ""\<close>; an empty schema counts as none.\<close>

definition schema_prefix :: "cstr option \<Rightarrow> cstr" where
  "schema_prefix schema = (case schema of None \<Rightarrow> [] | Some t \<Rightarrow> if t = [] then [] else t @ ''.'')"

definition pg_log_stmt_name :: cstr where
  "pg_log_stmt_name = ''log_one_event''"

definition pg_log_stmt_query :: "cstr option \<Rightarrow> cstr" where
  "pg_log_stmt_query schema =
     ''SELECT '' @ schema_prefix schema @ ''log_one_event($1, $2, $3, $4, $5, $6, $7);''"

definition pg_blocklist_stmt_query :: "cstr option \<Rightarrow> cstr" where
  "pg_blocklist_stmt_query schema = ''SELECT ip_entity FROM '' @ schema_prefix schema @ ''block_now''"

definition pg_disconnect :: "db_library \<Rightarrow> db_instance_postgresql dbs \<Rightarrow> db_instance_postgresql dbs" where
  "pg_disconnect lib s =
     (let s1 = lib_do lib (PQfinish Main_conn) s in s1\<lparr>inst := (inst s1)\<lparr>pg_conn := False\<rparr>\<rparr>)"

definition pg_start_notify :: "db_library \<Rightarrow> db_instance_postgresql dbs \<Rightarrow> db_instance_postgresql dbs" where
  "pg_start_notify lib s =
     (if notification_callback (inst s) \<noteq> None then snd (pg_toggle lib True s) else s)"

definition pg_open ::
  "db_library \<Rightarrow> db_instance_postgresql dbs \<Rightarrow> bool \<times> db_instance_postgresql dbs" where
  "pg_open lib s =
     (if pg_conn (inst s) then (True, s)
      else case lib_call lib (PQconnectdbParams Main_conn (conn_params (inst s))) s of
        (r, s1) \<Rightarrow>
          (let s2 = s1\<lparr>inst := (inst s1)\<lparr>pg_conn := (ret r \<noteq> 0)\<rparr>\<rparr> in
           if ret r = 0 then (False, report_text ''General connection failure'' s2)
           else if db_options_isset (options (inst s2)) db_options_no_pam_logging
                then (True, pg_start_notify lib s2)
           else case lib_call lib Malloc s2 of
             (m, s3) \<Rightarrow>
               if ret m = 0
               then (False, pg_disconnect lib (report_text ''failed to generate prepared query statement'' s3))
               else case lib_call lib (PQprepare Main_conn pg_log_stmt_name
                           (pg_log_stmt_query (pam_schema (inst s3))) 7) s3 of
                 (p, s4) \<Rightarrow>
                   (let s5 = lib_do lib PQclear s4 in
                    if ret p = PGRES_COMMAND_OK then (True, pg_start_notify lib s5)
                    else (False, pg_disconnect lib (report_call lib (PQerrorMessage Main_conn) s5)))))"

definition pg_close ::
  "db_library \<Rightarrow> db_instance_postgresql dbs \<Rightarrow> bool \<times> db_instance_postgresql dbs" where
  "pg_close lib s =
     (True,
      if pg_conn (inst s)
      then pg_disconnect lib (if is_notify_running (inst s) then snd (pg_toggle lib False s) else s)
      else s)"

section \<open>Logging\<close>

text \<open>The connection a thread uses: \<open>on_async\<close> says that it is the notification thread.\<close>

definition pg_choose_conn :: "bool \<Rightarrow> db_instance_postgresql \<Rightarrow> pgconn option" where
  "pg_choose_conn on_async db =
     (if pg_conn_async db \<and> on_async then Some Async_conn
      else if pg_conn db then Some Main_conn else None)"

definition pg_params :: "log_data \<Rightarrow> cstr option list" where
  "pg_params e =
     [Some (cstr_of (dst_ipaddr e)), Some (cstr_of (src_ipaddr e)), Some (show_nat (unat (src_port e))),
      log_event_to_str (event e), Some (show_int (sint (sshd_pid e))), Some (cstr_of (uid e)),
      Some (cstr_of (log_date e))]"

definition pg_log_one_event ::
  "db_library \<Rightarrow> bool \<Rightarrow> log_data \<Rightarrow> db_instance_postgresql dbs \<Rightarrow> bool \<times> db_instance_postgresql dbs" where
  "pg_log_one_event lib on_async e s =
     (case pg_choose_conn on_async (inst s) of
        None \<Rightarrow> (False, s)
      | Some conn \<Rightarrow>
          (case lib_call lib (PQexecPrepared conn pg_log_stmt_name (pg_params e)) s of
             (r, s1) \<Rightarrow>
               (let s2 = lib_do lib PQclear s1 in
                if ret r = PGRES_COMMAND_OK \<or> ret r = PGRES_TUPLES_OK then (True, s2)
                else (False, report_call lib (PQerrorMessage conn) s2))))"

section \<open>The block list\<close>

record pg_blocklist_enum =
  pg_i :: nat
  pg_i_max :: nat

definition pg_enum_next ::
  "db_library \<Rightarrow> pg_blocklist_enum dbs \<Rightarrow> cstr option \<times> pg_blocklist_enum dbs" where
  "pg_enum_next lib s =
     (if pg_i (inst s) < pg_i_max (inst s)
      then case lib_call lib (PQgetvalue (pg_i (inst s)) 0) s of
             (r, s1) \<Rightarrow> (str r, s1\<lparr>inst := (inst s1)\<lparr>pg_i := pg_i (inst s1) + 1\<rparr>\<rparr>)
      else (None, s))"

definition pg_enum_close :: "db_library \<Rightarrow> pg_blocklist_enum dbs \<Rightarrow> pg_blocklist_enum dbs" where
  "pg_enum_close lib s = lib_do lib PQclear s"

definition pg_enum_open ::
  "db_library \<Rightarrow> bool \<Rightarrow> db_instance_postgresql dbs \<Rightarrow> pg_blocklist_enum option \<times> db_instance_postgresql dbs" where
  "pg_enum_open lib on_async s =
     (case pg_choose_conn on_async (inst s) of
        None \<Rightarrow> (None, s)
      | Some conn \<Rightarrow>
          (case lib_call lib Malloc s of
             (m, s1) \<Rightarrow>
               if ret m = 0 then (None, s1)
               else case lib_call lib (PQexec conn (pg_blocklist_stmt_query (firewall_schema (inst s1)))) s1 of
                 (q, s2) \<Rightarrow>
                   if ret q = 0 then (None, lib_do lib (PQerrorMessage conn) s2)
                   else if ret q \<noteq> PGRES_TUPLES_OK then (None, lib_do lib PQclear s2)
                   else case lib_call lib PQntuples s2 of
                     (n, s3) \<Rightarrow>
                       if ret n \<le> 0 then (None, lib_do lib PQclear s3)
                       else case lib_call lib Malloc s3 of
                         (m2, s4) \<Rightarrow>
                           if ret m2 = 0 then (None, lib_do lib PQclear s4)
                           else (Some \<lparr>pg_i = 0, pg_i_max = nat (ret n)\<rparr>, s4)))"

section \<open>The notification thread: its work\<close>

text \<open>\<open>UNLISTEN channel\<close>, and the same text without its first two characters.\<close>

definition pg_notify_stmt :: "cstr option \<Rightarrow> cstr option" where
  "pg_notify_stmt ch = (case ch of None \<Rightarrow> None | Some c \<Rightarrow> Some (''UNLISTEN '' @ c))"

definition pg_listen_stmt :: "cstr option \<Rightarrow> cstr" where
  "pg_listen_stmt ch = (case pg_notify_stmt ch of None \<Rightarrow> ''LISTEN'' | Some q \<Rightarrow> drop 2 q)"

definition pg_unlisten_stmt :: "cstr option \<Rightarrow> cstr" where
  "pg_unlisten_stmt ch = (case pg_notify_stmt ch of None \<Rightarrow> ''UNLISTEN'' | Some q \<Rightarrow> q)"

text \<open>
  The thread from the moment the instance is connected: open its own connection, listen, run
  the loop, stop listening, close. \<open>connects\<close> bounds the attempts to connect; each turn of the
  loop has the result of \<open>poll\<close>, whether \<open>PQconsumeInput\<close> succeeded and the number of
  notifications. The result lists what was dispatched to the callback (an enumerator or NULL);
  \<open>None\<close> is a thread that is still connecting.
\<close>

record pg_turn =
  running :: bool
  poll_rc :: int
  consumed :: bool
  n_notify :: nat

fun pg_async_connect :: "nat \<Rightarrow> db_library \<Rightarrow> db_instance_postgresql dbs \<Rightarrow> db_instance_postgresql dbs option" where
  "pg_async_connect 0 lib s = (if pg_conn_async (inst s) then Some s else None)"
| "pg_async_connect (Suc k) lib s =
     (if pg_conn_async (inst s) then Some s
      else case lib_call lib (PQconnectdbParams Async_conn (conn_params (inst s))) s of
             (r, s1) \<Rightarrow> pg_async_connect k lib (s1\<lparr>inst := (inst s1)\<lparr>pg_conn_async := (ret r \<noteq> 0)\<rparr>\<rparr>))"

text \<open>One turn: the block list is dispatched when at least one notification was waiting.\<close>

definition pg_async_turn ::
  "db_library \<Rightarrow> pg_turn \<Rightarrow> db_instance_postgresql dbs \<Rightarrow>
     pg_blocklist_enum option list \<times> db_instance_postgresql dbs" where
  "pg_async_turn lib t s =
     (if poll_rc t > 0 \<and> consumed t \<and> n_notify t > 0
      then (case (if db_options_isset (options (inst s)) db_options_no_firewall then (None, s)
                  else pg_enum_open lib True s) of
              (en, s1) \<Rightarrow> ([en], if en = None then s1 else lib_do lib PQclear s1))
      else if poll_rc t > 0 \<and> \<not> consumed t then ([], lib_do lib (PQerrorMessage Async_conn) s)
      else ([], s))"

fun pg_async_loop ::
  "db_library \<Rightarrow> pg_turn list \<Rightarrow> int \<Rightarrow> db_instance_postgresql dbs \<Rightarrow>
     pg_blocklist_enum option list \<times> db_instance_postgresql dbs" where
  "pg_async_loop lib [] pgfd s = ([], s)"
| "pg_async_loop lib (t # ts) pgfd s =
     (if running t \<and> pgfd \<ge> 0
      then (case pg_async_turn lib t s of
              (ds, s1) \<Rightarrow>
                (case lib_call lib (PQsocket Async_conn) s1 of
                   (r, s2) \<Rightarrow>
                     (case pg_async_loop lib ts (ret r) s2 of (es, s3) \<Rightarrow> (ds @ es, s3))))
      else ([], s))"

definition pg_async_thread ::
  "db_library \<Rightarrow> nat \<Rightarrow> pg_turn list \<Rightarrow> db_instance_postgresql dbs \<Rightarrow>
     (pg_blocklist_enum option list \<times> db_instance_postgresql dbs) option" where
  "pg_async_thread lib connects turns s =
     (case pg_async_connect connects lib s of
        None \<Rightarrow> None
      | Some s1 \<Rightarrow>
          (case lib_call lib (PQsocket Async_conn) s1 of
             (fd, s2) \<Rightarrow>
               (case (if ret fd < 0 then ([], s2)
                      else case lib_call lib (PQexec Async_conn (pg_listen_stmt (firewall_notify_channel (inst s2)))) s2 of
                        (q, s3) \<Rightarrow>
                          if ret q = 0 then ([], s3)
                          else let s4 = lib_do lib PQclear s3 in
                          if ret q \<noteq> PGRES_COMMAND_OK then ([], s4)
                          else case pg_async_loop lib turns (ret fd) s4 of
                            (ds, s5) \<Rightarrow>
                              (case lib_call lib (PQexec Async_conn (pg_unlisten_stmt (firewall_notify_channel (inst s5)))) s5 of
                                 (u, s6) \<Rightarrow> (ds, if ret u = 0 then s6 else lib_do lib PQclear s6))) of
                  (ds, s7) \<Rightarrow>
                    (let s8 = lib_do lib (PQfinish Async_conn) s7
                     in Some (ds, s8\<lparr>inst := (inst s8)\<lparr>pg_conn_async := False\<rparr>\<rparr>)))))"

section \<open>The driver contract\<close>

definition pg_rows :: "db_call list \<Rightarrow> cstr option list list" where
  "pg_rows cs = concat (map (\<lambda>c. case c of PQexecPrepared conn n ps \<Rightarrow> [ps] | _ \<Rightarrow> []) cs)"

lemma pg_rows_append [simp]: "pg_rows (cs @ ds) = pg_rows cs @ pg_rows ds"
  by (simp add: pg_rows_def)

lemma pg_rows_Cons [simp]:
  "pg_rows [] = []" "pg_rows (PQexecPrepared conn n ps # cs) = ps # pg_rows cs"
  "(\<forall>conn n ps. c \<noteq> PQexecPrepared conn n ps) \<Longrightarrow> pg_rows (c # cs) = pg_rows cs"
  by (auto simp: pg_rows_def split: db_call.splits)

lemma pg_report_rows [simp]:
  "pg_rows (calls (report_call lib (PQerrorMessage conn) s)) = pg_rows (calls s)"
  using calls_report_call [of lib "PQerrorMessage conn" s] by auto

lemma pg_report_inst [simp]: "pg_conn (inst (report_call lib c s)) = pg_conn (inst s)"
  using inst_report_call [of lib c s] by auto

lemma pg_toggle_facts [simp]:
  "pg_rows (calls (snd (pg_toggle lib b s))) = pg_rows (calls s)"
  "pg_conn (inst (snd (pg_toggle lib b s))) = pg_conn (inst s)"
  by (simp_all add: pg_toggle_def lib_call_def)

lemma pg_start_notify_facts [simp]:
  "pg_rows (calls (pg_start_notify lib s)) = pg_rows (calls s)"
  "pg_conn (inst (pg_start_notify lib s)) = pg_conn (inst s)"
  by (simp_all add: pg_start_notify_def)

lemma pg_disconnect_facts [simp]:
  "pg_rows (calls (pg_disconnect lib s)) = pg_rows (calls s)" "\<not> pg_conn (inst (pg_disconnect lib s))"
  by (simp_all add: pg_disconnect_def Let_def)

interpretation pg: db_driver "\<lambda>lib. True" options pg_conn pg_open pg_close "\<lambda>lib. pg_log_one_event lib False"
  "\<lambda>i. pg_rows" "\<lambda>i. pg_params"
proof unfold_locales
  fix lib :: db_library and s s' :: "db_instance_postgresql dbs" and r :: bool and e :: log_data
  show "pg_conn (inst s')" if "pg_open lib s = (True, s')"
    using that by (auto simp: pg_open_def lib_call_def Let_def split: if_splits)
  show "pg_open lib s = (True, s)" if "pg_conn (inst s)" using that by (simp add: pg_open_def)
  show "pg_rows (calls s') = pg_rows (calls s) \<and> pg_params = pg_params" if "pg_open lib s = (r, s')"
    using that by (auto simp: pg_open_def lib_call_def Let_def split: if_splits)
  show "\<not> pg_conn (inst s')" if "pg_close lib s = (r, s')"
    using that by (auto simp: pg_close_def split: if_splits)
  show "pg_rows (calls s') = pg_rows (calls s) \<and> pg_params = pg_params" if "pg_close lib s = (r, s')"
    using that by (auto simp: pg_close_def split: if_splits)
  show "\<not> r \<and> calls s' = calls s" if "\<not> pg_conn (inst s)" "pg_log_one_event lib False e s = (r, s')"
    using that by (simp add: pg_log_one_event_def pg_choose_conn_def)
  show "pg_conn (inst s') = pg_conn (inst s) \<and> pg_params = pg_params" if "pg_log_one_event lib False e s = (r, s')"
    using that by (auto simp: pg_log_one_event_def lib_call_def Let_def split: option.splits if_splits)
  show "pg_rows (calls s') = pg_rows (calls s) @ [pg_params e] \<or> (\<not> r \<and> pg_rows (calls s') = pg_rows (calls s))"
    if "pg_log_one_event lib False e s = (r, s')"
    using that by (auto simp: pg_log_one_event_def lib_call_def Let_def split: option.splits if_splits)
qed

section \<open>Reading the block list\<close>

text \<open>What libpq documents of a result: its size, and a text for every cell (empty for SQL NULL).\<close>

definition pg_result :: "db_library \<Rightarrow> cstr list \<Rightarrow> bool" where
  "pg_result lib table \<longleftrightarrow>
     (\<forall>h. ret (lib h PQntuples) = int (length table) \<and>
          (\<forall>i < length table. str (lib h (PQgetvalue i 0)) = Some (table ! i)))"

definition pg_enum_ok :: "db_library \<Rightarrow> cstr list \<Rightarrow> pg_blocklist_enum dbs \<Rightarrow> bool" where
  "pg_enum_ok lib table s \<longleftrightarrow> pg_result lib table \<and> pg_i_max (inst s) = length table"

definition pg_enum_remaining :: "cstr list \<Rightarrow> pg_blocklist_enum dbs \<Rightarrow> cstr option list" where
  "pg_enum_remaining table s = map Some (drop (pg_i (inst s)) table)"

interpretation pg_list: blocklist_cursor "pg_enum_ok lib table" "pg_enum_next lib" "pg_enum_remaining table"
  for lib table
proof unfold_locales
  fix s r rs
  assume s: "pg_enum_ok lib table s"
  let ?i = "pg_i (inst s)"
  show "\<exists>s'. pg_enum_next lib s = (r, s') \<and> pg_enum_ok lib table s' \<and> pg_enum_remaining table s' = rs"
    if rem: "pg_enum_remaining table s = r # rs"
  proof -
    have i: "?i < length table"
      using rem by (auto simp: pg_enum_remaining_def not_le [symmetric])
    then have "drop ?i table = table ! ?i # drop (Suc ?i) table" by (rule Cons_nth_drop_Suc [symmetric])
    then have "r = Some (table ! ?i)" "rs = map Some (drop (Suc ?i) table)"
      using rem by (auto simp: pg_enum_remaining_def)
    with i s show ?thesis
      by (auto simp: pg_enum_next_def lib_call_def pg_enum_ok_def pg_enum_remaining_def pg_result_def)
  qed
  show "\<exists>s'. pg_enum_next lib s = (None, s') \<and> pg_enum_ok lib table s' \<and> pg_enum_remaining table s' = []"
    if "pg_enum_remaining table s = []"
    using that s by (auto simp: pg_enum_next_def pg_enum_ok_def pg_enum_remaining_def)
qed

section \<open>The properties of the driver\<close>

definition pg_instance :: db_instance_postgresql where
  "pg_instance = db_instance.extend db_instance_base
     \<lparr>conn_params = [(''host'', ''db'')], pam_schema = None, firewall_schema = Some ''fw'',
      firewall_notify_channel = Some ''blocks'', pg_conn = True, pg_conn_async = False,
      is_notify_running = False\<rparr>"

text \<open>
  The block list from PostgreSQL. The query is sent on the connection of the calling
  thread and names the configured schema; an empty result gives no enumerator, and otherwise
  reading the enumerator until it returns NULL ends with every row of the result, in order.
\<close>

theorem pg_blocklist:
  assumes "pg_choose_conn on_async (inst s) = Some conn" "pg_result lib table" "\<forall>h. ret (lib h Malloc) \<noteq> 0"
    "\<forall>h. ret (lib h (PQexec conn (pg_blocklist_stmt_query (firewall_schema (inst s))))) = PGRES_TUPLES_OK"
    "length table < fuel"
  shows "case pg_enum_open lib on_async s of
      (None, s') \<Rightarrow> table = []
    | (Some en, s') \<Rightarrow> table \<noteq> [] \<and> PQexec conn (pg_blocklist_stmt_query (firewall_schema (inst s))) \<in> set (calls s') \<and>
        (\<exists>t. collect fuel (pg_enum_next lib) \<lparr>calls = calls s', inst = en, err = None\<rparr> = Some (table, t))"
proof (cases "table = []")
  case True
  then show ?thesis using assms by (simp add: pg_enum_open_def lib_call_def pg_result_def)
next
  case False
  let ?h = "calls s @ [Malloc, PQexec conn (pg_blocklist_stmt_query (firewall_schema (inst s))), PQntuples, Malloc]"
  let ?en = "\<lparr>pg_i = 0, pg_i_max = length table\<rparr>"
  let ?e = "\<lparr>calls = ?h, inst = ?en, err = None\<rparr>"
  have o: "pg_enum_open lib on_async s = (Some ?en, s\<lparr>calls := ?h\<rparr>)"
    using assms(1-4) False by (simp add: pg_enum_open_def lib_call_def pg_result_def)
  have "pg_enum_ok lib table ?e" "pg_enum_remaining table ?e = map Some table"
    using assms(2) by (simp_all add: pg_enum_ok_def pg_enum_remaining_def)
  moreover have "map the (takeWhile (\<lambda>r. r \<noteq> None) (map Some table)) = table"
    by (simp add: takeWhile_map comp_def)
  ultimately show ?thesis using pg_list.collect_rows [of lib table ?e fuel] assms(5) o False by auto
qed

definition pg_two_rows :: db_library where
  "pg_two_rows h c =
     (case c of
        PQntuples \<Rightarrow> \<lparr>ret = 2, str = None\<rparr>
      | PQgetvalue i k \<Rightarrow> \<lparr>ret = 1, str = Some ([''10.0.0.1'', ''10.0.0.2''] ! i)\<rparr>
      | Malloc \<Rightarrow> \<lparr>ret = 1, str = None\<rparr>
      | PQexec conn q \<Rightarrow> \<lparr>ret = (if conn = Main_conn then PGRES_TUPLES_OK else PGRES_COMMAND_OK), str = None\<rparr>
      | Pthread_create \<Rightarrow> \<lparr>ret = 0, str = None\<rparr>
      | Pthread_cancel \<Rightarrow> \<lparr>ret = 0, str = None\<rparr>
      | Pthread_join \<Rightarrow> \<lparr>ret = 0, str = None\<rparr>
      | _ \<Rightarrow> \<lparr>ret = 1, str = None\<rparr>)"

theorem pg_blocklist_witness:
  "case pg_enum_open pg_two_rows False \<lparr>calls = [], inst = pg_instance, err = None\<rparr> of
      (None, s') \<Rightarrow> False
    | (Some en, s') \<Rightarrow> (\<exists>t. collect 3 (pg_enum_next pg_two_rows) \<lparr>calls = calls s', inst = en, err = None\<rparr> =
        Some ([''10.0.0.1'', ''10.0.0.2''], t))"
proof -
  let ?s = "\<lparr>calls = [], inst = pg_instance, err = None\<rparr>"
  have "pg_result pg_two_rows [''10.0.0.1'', ''10.0.0.2'']"
    by (simp add: pg_result_def pg_two_rows_def)
  then have "case pg_enum_open pg_two_rows False ?s of
      (None, s') \<Rightarrow> [''10.0.0.1'', ''10.0.0.2''] = []
    | (Some en, s') \<Rightarrow> [''10.0.0.1'', ''10.0.0.2''] \<noteq> [] \<and>
        PQexec Main_conn (pg_blocklist_stmt_query (firewall_schema (inst ?s))) \<in> set (calls s') \<and>
        (\<exists>t. collect 3 (pg_enum_next pg_two_rows) \<lparr>calls = calls s', inst = en, err = None\<rparr> =
          Some ([''10.0.0.1'', ''10.0.0.2''], t))"
    by (intro pg_blocklist)
      (simp_all add: pg_two_rows_def pg_choose_conn_def pg_instance_def db_instance.defs)
  then show ?thesis by (simp split: prod.splits option.splits)
qed

text \<open>The turns a running thread takes: up to the first one at which it finds itself stopped.\<close>

definition pg_taken :: "pg_turn list \<Rightarrow> pg_turn list" where
  "pg_taken turns = takeWhile running turns"

definition pg_notified :: "pg_turn \<Rightarrow> bool" where
  "pg_notified t \<longleftrightarrow> poll_rc t > 0 \<and> consumed t \<and> n_notify t > 0"

lemma pg_async_turn_dispatch:
  "length (fst (pg_async_turn lib t s)) = (if pg_notified t then 1 else 0)"
  by (auto simp: pg_async_turn_def pg_notified_def split: prod.splits)

lemma pg_enum_open_inst: "pg_enum_open lib b s = (en, s') \<Longrightarrow> inst s' = inst s"
  by (auto simp: pg_enum_open_def lib_call_def split: option.splits if_splits)

lemma pg_async_turn_inst: "pg_async_turn lib t s = (ds, s') \<Longrightarrow> inst s' = inst s"
  by (auto simp: pg_async_turn_def split: if_splits prod.splits dest: pg_enum_open_inst)

lemma pg_async_loop_facts:
  assumes "\<forall>h. ret (lib h (PQsocket Async_conn)) \<ge> 0" "pgfd \<ge> 0"
    "pg_async_loop lib turns pgfd s = (ds, s')"
  shows "length ds = length (filter pg_notified (pg_taken turns)) \<and> inst s' = inst s"
  using assms(2,3)
proof (induction turns arbitrary: pgfd s ds s')
  case (Cons t ts)
  show ?case
  proof (cases "running t")
    case True
    obtain d1 s1 where t: "pg_async_turn lib t s = (d1, s1)" by fastforce
    obtain r s2 where c: "lib_call lib (PQsocket Async_conn) s1 = (r, s2)" by fastforce
    obtain es s3 where l: "pg_async_loop lib ts (ret r) s2 = (es, s3)" by fastforce
    have "ret r \<ge> 0" "inst s2 = inst s1" using c assms(1) by (auto simp: lib_call_def)
    moreover from this have "length es = length (filter pg_notified (pg_taken ts)) \<and> inst s3 = inst s2"
      using Cons.IH l by blast
    moreover have "ds = d1 @ es" "s' = s3" using Cons.prems True t c l by auto
    ultimately show ?thesis
      using True pg_async_turn_dispatch [of lib t s] pg_async_turn_inst [OF t] t
      by (simp add: pg_taken_def)
  next
    case False
    then show ?thesis using Cons.prems by (simp add: pg_taken_def)
  qed
qed (simp add: pg_taken_def)

lemma pg_async_turn_calls: "prefix (calls s) (calls (snd (pg_async_turn lib t s)))"
  by (auto simp: pg_async_turn_def pg_enum_open_def lib_call_def split: option.splits)

lemma pg_async_loop_calls: "pg_async_loop lib ts fd s = (es, s') \<Longrightarrow> prefix (calls s) (calls s')"
proof (induction ts arbitrary: fd s es s')
  case (Cons t ts)
  show ?case
  proof (cases "running t \<and> fd \<ge> 0")
    case True
    obtain d1 s1 where t: "pg_async_turn lib t s = (d1, s1)" by fastforce
    obtain r s2 where c: "lib_call lib (PQsocket Async_conn) s1 = (r, s2)" by fastforce
    obtain es' s3 where l: "pg_async_loop lib ts (ret r) s2 = (es', s3)" by fastforce
    have "s' = s3" using Cons.prems True t c l by auto
    moreover have "prefix (calls s1) (calls s2)" using c by (auto simp: lib_call_def)
    moreover have "prefix (calls s) (calls s1)" using pg_async_turn_calls [of s lib t] t by simp
    ultimately show ?thesis using Cons.IH [OF l] prefix_order.trans by blast
  next
    case False
    then show ?thesis using Cons.prems by auto
  qed
qed simp


definition pg_idle_instance :: "db_instance_postgresql dbs" where
  "pg_idle_instance = \<lparr>calls = [], inst = pg_instance, err = None\<rparr>"

definition pg_all_ok :: db_library where
  "pg_all_ok h c = \<lparr>ret = 1, str = None\<rparr>"


lemma pg_toggle_step:
  assumes "\<And>h c. c \<in> {Pthread_create, Pthread_cancel, Pthread_join} \<Longrightarrow> ret (lib h c) = 0"
  shows "is_notify_running (inst (snd (pg_toggle lib b s))) = b \<and>
    fst (pg_toggle lib b s) = (b \<noteq> is_notify_running (inst s)) \<and>
    calls (snd (pg_toggle lib b s)) = calls s @
      (if b = is_notify_running (inst s) then [] else if b then [Pthread_create] else [Pthread_cancel, Pthread_join])"
  using assms by (auto simp: pg_toggle_def lib_call_def)

text \<open>
  Starting and stopping the notification thread. Whatever the sequence of requests, there
  is never more than one thread: a request that changes nothing is refused without a call,
  the thread runs exactly when the last request was to start, every thread that was stopped was
  cancelled and joined, and the number of threads created exceeds the number joined by the one
  that runs.
\<close>

theorem pg_notify_toggle:
  assumes "\<And>h c. c \<in> {Pthread_create, Pthread_cancel, Pthread_join} \<Longrightarrow> ret (lib h c) = 0"
    "\<not> is_notify_running (inst s)"
  shows "let s' = foldl (\<lambda>s b. snd (pg_toggle lib b s)) s requests;
      made = (\<lambda>c. count_list (calls s') c - count_list (calls s) c)
    in is_notify_running (inst s') = (requests \<noteq> [] \<and> last requests) \<and>
      made Pthread_cancel = made Pthread_join \<and>
      made Pthread_create = made Pthread_join + (if is_notify_running (inst s') then 1 else 0)"
proof -
  have step: "is_notify_running (inst (snd (pg_toggle lib b t))) = b \<and>
    calls (snd (pg_toggle lib b t)) = calls t @
      (if b = is_notify_running (inst t) then [] else if b then [Pthread_create] else [Pthread_cancel, Pthread_join])"
    for b and t :: "db_instance_postgresql dbs"
    using pg_toggle_step [of lib b t] assms(1) by blast
  let ?s = "foldl (\<lambda>s b. snd (pg_toggle lib b s)) s requests"
  have "is_notify_running (inst ?s) = (requests \<noteq> [] \<and> last requests) \<and>
    (\<exists>n. count_list (calls ?s) Pthread_cancel = count_list (calls s) Pthread_cancel + n \<and>
      count_list (calls ?s) Pthread_join = count_list (calls s) Pthread_join + n \<and>
      count_list (calls ?s) Pthread_create = count_list (calls s) Pthread_create + n +
        (if is_notify_running (inst ?s) then 1 else 0))"
  proof (induction requests rule: rev_induct)
    case Nil
    then show ?case using assms(2) by simp
  next
    case (snoc b bs)
    let ?t = "foldl (\<lambda>s b. snd (pg_toggle lib b s)) s bs"
    from snoc obtain n where n: "count_list (calls ?t) Pthread_cancel = count_list (calls s) Pthread_cancel + n"
      "count_list (calls ?t) Pthread_join = count_list (calls s) Pthread_join + n"
      "count_list (calls ?t) Pthread_create = count_list (calls s) Pthread_create + n +
        (if is_notify_running (inst ?t) then 1 else 0)" by blast
    show ?case
      using step [of b ?t] n by (cases b; cases "is_notify_running (inst ?t)") auto
  qed
  then show ?thesis by (auto simp: Let_def)
qed

theorem pg_notify_toggle_witness:
  "is_notify_running (inst (foldl (\<lambda>s b. snd (pg_toggle pg_two_rows b s)) pg_idle_instance [True, True, False, True]))"
proof -
  have "ret (pg_two_rows h c) = 0" if "c \<in> {Pthread_create, Pthread_cancel, Pthread_join}" for h c
    using that by (auto simp: pg_two_rows_def)
  moreover have "\<not> is_notify_running (inst pg_idle_instance)"
    by (simp add: pg_idle_instance_def pg_instance_def db_instance.defs)
  ultimately have "is_notify_running (inst (foldl (\<lambda>s b. snd (pg_toggle pg_two_rows b s)) pg_idle_instance
      [True, True, False, True])) = ([True, True, False, True] \<noteq> [] \<and> last [True, True, False, True])"
    using pg_notify_toggle [of pg_two_rows pg_idle_instance "[True, True, False, True]"] unfolding Let_def by blast
  then show ?thesis by simp
qed

end
