(* ===== verification/Db_Interface.thy ===== *)
theory Db_Interface
  imports Db_Csvfile Db_Postgresql Db_Sqlite3 Db_Mysql
begin

text \<open>
  \<open>src/libiptracking/db_interface.c\<close>: the table of drivers compiled in, and the functions both
  daemons call. A database is an instance of one of the drivers; a call goes to the function in
  the driver's callback table. NULL is \<open>None\<close>.
\<close>

section \<open>The drivers\<close>

datatype driver = Csvfile | Postgresql | Sqlite3 | Mysql

record build =
  HAVE_POSTGRESQL :: bool
  HAVE_SQLITE3 :: bool
  HAVE_MYSQL :: bool

definition db_drivers :: "build \<Rightarrow> driver list" where
  "db_drivers b =
     [Csvfile] @ (if HAVE_POSTGRESQL b then [Postgresql] else []) @
     (if HAVE_SQLITE3 b then [Sqlite3] else []) @ (if HAVE_MYSQL b then [Mysql] else [])"

primrec driver_name :: "driver \<Rightarrow> cstr" where
  "driver_name Csvfile = ''csvfile''"
| "driver_name Postgresql = ''postgresql''"
| "driver_name Sqlite3 = ''sqlite3''"
| "driver_name Mysql = ''mysql''"

definition db_driver_lookup :: "build \<Rightarrow> cstr \<Rightarrow> driver option" where
  "db_driver_lookup b name = find (\<lambda>d. c_strcaseeq name (driver_name d)) (db_drivers b)"

definition db_driver_is_available :: "build \<Rightarrow> cstr \<Rightarrow> bool" where
  "db_driver_is_available b name \<longleftrightarrow> db_driver_lookup b name \<noteq> None"

text \<open>
  The iterator is a position in the table, \<open>None\<close> before the first call; a NULL pointer to the
  iterator is the outer \<open>None\<close>.
\<close>

definition db_driver_enumerate_drivers ::
  "build \<Rightarrow> nat option option \<Rightarrow> cstr option \<times> nat option option" where
  "db_driver_enumerate_drivers b iterator =
     (case iterator of
        None \<Rightarrow> (None, None)
      | Some it \<Rightarrow>
          (let k = (case it of None \<Rightarrow> 0 | Some k \<Rightarrow> k)
           in if k < length (db_drivers b)
              then (Some (driver_name (db_drivers b ! k)), Some (Some (k + 1)))
              else (None, Some it)))"

section \<open>Instances and their callbacks\<close>

datatype db_handle =
    Db_csvfile db_instance_csvfile
  | Db_postgresql db_instance_postgresql
  | Db_sqlite3 db_instance_sqlite3
  | Db_mysql db_instance_mysql

primrec handle_options :: "db_handle \<Rightarrow> 32 word" where
  "handle_options (Db_csvfile i) = options i"
| "handle_options (Db_postgresql i) = options i"
| "handle_options (Db_sqlite3 i) = options i"
| "handle_options (Db_mysql i) = options i"

primrec set_handle_options :: "32 word \<Rightarrow> db_handle \<Rightarrow> db_handle" where
  "set_handle_options opts (Db_csvfile i) = Db_csvfile (i\<lparr>options := opts\<rparr>)"
| "set_handle_options opts (Db_postgresql i) = Db_postgresql (i\<lparr>options := opts\<rparr>)"
| "set_handle_options opts (Db_sqlite3 i) = Db_sqlite3 (i\<lparr>options := opts\<rparr>)"
| "set_handle_options opts (Db_mysql i) = Db_mysql (i\<lparr>options := opts\<rparr>)"

primrec handle_last_error :: "db_handle \<Rightarrow> cstr option" where
  "handle_last_error (Db_csvfile i) = last_error i"
| "handle_last_error (Db_postgresql i) = last_error i"
| "handle_last_error (Db_sqlite3 i) = last_error i"
| "handle_last_error (Db_mysql i) = last_error i"

text \<open>The world with another instance, and the result of an operation on it.\<close>

definition at :: "'i \<Rightarrow> 'j dbs \<Rightarrow> 'i dbs" where
  "at i s = \<lparr>calls = calls s, inst = i, err = err s\<rparr>"

definition via :: "('i \<Rightarrow> 'j) \<Rightarrow> 'a \<times> 'i dbs \<Rightarrow> 'a \<times> 'j dbs" where
  "via K p = (case p of (r, s) \<Rightarrow> (r, at (K (inst s)) s))"

definition driver_open :: "db_library \<Rightarrow> db_handle dbs \<Rightarrow> bool \<times> db_handle dbs" where
  "driver_open lib s =
     (case inst s of
        Db_csvfile i \<Rightarrow> via Db_csvfile (csvfile_open lib (at i s))
      | Db_postgresql i \<Rightarrow> via Db_postgresql (pg_open lib (at i s))
      | Db_sqlite3 i \<Rightarrow> via Db_sqlite3 (sqlite3_open lib (at i s))
      | Db_mysql i \<Rightarrow> via Db_mysql (mysql_open lib (at i s)))"

definition driver_close :: "db_library \<Rightarrow> db_handle dbs \<Rightarrow> bool \<times> db_handle dbs" where
  "driver_close lib s =
     (case inst s of
        Db_csvfile i \<Rightarrow> via Db_csvfile (csvfile_close lib (at i s))
      | Db_postgresql i \<Rightarrow> via Db_postgresql (pg_close lib (at i s))
      | Db_sqlite3 i \<Rightarrow> via Db_sqlite3 (sqlite3_close lib (at i s))
      | Db_mysql i \<Rightarrow> via Db_mysql (mysql_close lib (at i s)))"

definition driver_log_one_event :: "db_library \<Rightarrow> log_data \<Rightarrow> db_handle dbs \<Rightarrow> bool \<times> db_handle dbs" where
  "driver_log_one_event lib e s =
     (case inst s of
        Db_csvfile i \<Rightarrow> via Db_csvfile (csvfile_log_one_event lib e (at i s))
      | Db_postgresql i \<Rightarrow> via Db_postgresql (pg_log_one_event lib False e (at i s))
      | Db_sqlite3 i \<Rightarrow> via Db_sqlite3 (sqlite3_log_one_event lib e (at i s))
      | Db_mysql i \<Rightarrow> via Db_mysql (mysql_log_one_event lib e (at i s)))"

datatype db_enum =
    Enum_postgresql pg_blocklist_enum
  | Enum_sqlite3 sqlite3_blocklist_enum
  | Enum_mysql mysql_blocklist_enum

text \<open>\<open>None\<close> when the driver has no callback.\<close>

definition driver_blocklist_enum_open ::
  "db_library \<Rightarrow> db_handle dbs \<Rightarrow> (db_enum option \<times> db_handle dbs) option" where
  "driver_blocklist_enum_open lib s =
     (case inst s of
        Db_csvfile i \<Rightarrow> None
      | Db_postgresql i \<Rightarrow>
          Some (case pg_enum_open lib False (at i s) of
                  (en, s1) \<Rightarrow> via Db_postgresql (map_option Enum_postgresql en, s1))
      | Db_sqlite3 i \<Rightarrow>
          Some (case sqlite3_enum_open lib (at i s) of
                  (en, s1) \<Rightarrow> via Db_sqlite3 (map_option Enum_sqlite3 en, s1))
      | Db_mysql i \<Rightarrow>
          Some (case mysql_enum_open lib (at i s) of
                  (en, s1) \<Rightarrow> via Db_mysql (map_option Enum_mysql en, s1)))"

section \<open>Allocation\<close>

text \<open>
  The outcomes of \<open>db_alloc\<close>: an instance or NULL; the process ended after the fatal message;
  an invalid access (a driver name that is not a scalar is handed to \<open>strcasecmp\<close> as NULL).
\<close>

datatype db_alloc_result = Allocated "db_handle option" | Fatal | Invalid_access

definition driver_alloc ::
  "bool \<Rightarrow> driver \<Rightarrow> yaml_document \<Rightarrow> yaml_node option \<Rightarrow> db_alloc_result" where
  "driver_alloc malloc_ok d doc node =
     (case d of
        Csvfile \<Rightarrow> Allocated (map_option Db_csvfile (csvfile_alloc malloc_ok doc node))
      | Postgresql \<Rightarrow>
          (case pg_alloc malloc_ok doc node of
             None \<Rightarrow> Invalid_access
           | Some i \<Rightarrow> Allocated (map_option Db_postgresql i))
      | Sqlite3 \<Rightarrow> Allocated (map_option Db_sqlite3 (sqlite3_alloc malloc_ok doc node))
      | Mysql \<Rightarrow> Allocated (map_option Db_mysql (mysql_alloc malloc_ok doc node)))"

definition db_alloc ::
  "build \<Rightarrow> bool \<Rightarrow> cstr option \<Rightarrow> yaml_document \<Rightarrow> yaml_node option \<Rightarrow> 32 word \<Rightarrow> db_alloc_result" where
  "db_alloc b malloc_ok name doc node opts =
     (case name of
        None \<Rightarrow>
          (case conf_node doc node ''driver-name'' of
             None \<Rightarrow> Fatal
           | Some n \<Rightarrow>
               (case yaml_helper_get_scalar_value n of
                  None \<Rightarrow> Invalid_access
                | Some nm \<Rightarrow>
                    (case db_driver_lookup b nm of
                       None \<Rightarrow> Allocated None
                     | Some d \<Rightarrow>
                         (case driver_alloc malloc_ok d doc node of
                            Allocated h \<Rightarrow> Allocated (map_option (set_handle_options opts) h)
                          | r \<Rightarrow> r))))
      | Some nm \<Rightarrow>
          (case db_driver_lookup b nm of
             None \<Rightarrow> Allocated None
           | Some d \<Rightarrow>
               (case driver_alloc malloc_ok d doc node of
                  Allocated h \<Rightarrow> Allocated (map_option (set_handle_options opts) h)
                | r \<Rightarrow> r)))"

section \<open>The functions the daemons call\<close>

definition db_dealloc :: "db_library \<Rightarrow> db_handle option dbs \<Rightarrow> db_call list" where
  "db_dealloc lib s =
     (case inst s of
        None \<Rightarrow> calls s
      | Some h \<Rightarrow> calls (snd (driver_close lib ((at h s)\<lparr>err := None\<rparr>))))"

definition db_get_last_error :: "db_handle option \<Rightarrow> cstr option" where
  "db_get_last_error the_db = (case the_db of None \<Rightarrow> None | Some h \<Rightarrow> handle_last_error h)"

definition db_has_valid_configuration :: "db_handle option \<Rightarrow> errp \<Rightarrow> bool \<times> errp" where
  "db_has_valid_configuration the_db e =
     (case the_db of
        None \<Rightarrow> (False, set_errp e (Some ''Invalid database (NULL)''))
      | Some (Db_csvfile i) \<Rightarrow> csvfile_has_valid_configuration i e
      | Some (Db_postgresql i) \<Rightarrow> pg_has_valid_configuration i e
      | Some (Db_sqlite3 i) \<Rightarrow> sqlite3_has_valid_configuration i e
      | Some (Db_mysql i) \<Rightarrow> mysql_has_valid_configuration i e)"

definition db_summarize_to_log :: "db_handle option \<Rightarrow> cstr list" where
  "db_summarize_to_log the_db =
     (case the_db of
        None \<Rightarrow> []
      | Some (Db_csvfile i) \<Rightarrow> csvfile_summarize_to_log i
      | Some (Db_postgresql i) \<Rightarrow> pg_summarize_to_log i
      | Some (Db_sqlite3 i) \<Rightarrow> sqlite3_summarize_to_log i
      | Some (Db_mysql i) \<Rightarrow> mysql_summarize_to_log i)"

definition db_open :: "db_library \<Rightarrow> db_handle option dbs \<Rightarrow> bool \<times> db_handle option dbs" where
  "db_open lib s =
     (case inst s of
        Some h \<Rightarrow> via Some (driver_open lib (at h s))
      | None \<Rightarrow> (False, report_text ''Invalid database (NULL)'' s))"

definition db_close :: "db_library \<Rightarrow> db_handle option dbs \<Rightarrow> bool \<times> db_handle option dbs" where
  "db_close lib s =
     (case inst s of
        Some h \<Rightarrow> via Some (driver_close lib (at h s))
      | None \<Rightarrow> (False, report_text ''Invalid database (NULL)'' s))"

text \<open>A refused event overwrites the first message with the second one.\<close>

definition db_log_one_event ::
  "db_library \<Rightarrow> log_data \<Rightarrow> db_handle option dbs \<Rightarrow> bool \<times> db_handle option dbs" where
  "db_log_one_event lib e s =
     (case inst s of
        Some h \<Rightarrow>
          if \<not> db_options_isset (handle_options h) db_options_no_pam_logging
          then via Some (driver_log_one_event lib e (at h s))
          else (False, report_text ''Invalid database (NULL)''
                  (report_text ''PAM functions not enabled on database'' s))
      | None \<Rightarrow> (False, report_text ''Invalid database (NULL)'' s))"

definition db_blocklist_enum_open ::
  "db_library \<Rightarrow> db_handle option dbs \<Rightarrow> db_enum option \<times> db_handle option dbs" where
  "db_blocklist_enum_open lib s =
     (case inst s of
        None \<Rightarrow> (None, report_text ''Invalid database (NULL)'' s)
      | Some h \<Rightarrow>
          if db_options_isset (handle_options h) db_options_no_firewall
          then (None, report_text ''Firewall functionality not enabled'' s)
          else case driver_blocklist_enum_open lib (at h s) of
                 None \<Rightarrow> (None, report_text ''No enumerator open callback'' s)
               | Some (en, s1) \<Rightarrow>
                   (en, if en = None then report_text ''Failed to allocate enumerator'' (at (Some (inst s1)) s1)
                        else at (Some (inst s1)) s1))"

definition db_blocklist_enum_next ::
  "db_library \<Rightarrow> db_enum option dbs \<Rightarrow> cstr option \<times> db_enum option dbs" where
  "db_blocklist_enum_next lib s =
     (case inst s of
        None \<Rightarrow> (None, s)
      | Some (Enum_postgresql en) \<Rightarrow> via (Some \<circ> Enum_postgresql) (pg_enum_next lib (at en s))
      | Some (Enum_sqlite3 en) \<Rightarrow> via (Some \<circ> Enum_sqlite3) (sqlite3_enum_next lib (at en s))
      | Some (Enum_mysql en) \<Rightarrow> via (Some \<circ> Enum_mysql) (mysql_enum_next lib (at en s)))"

definition db_blocklist_enum_close :: "db_library \<Rightarrow> db_enum option dbs \<Rightarrow> db_call list" where
  "db_blocklist_enum_close lib s =
     (case inst s of
        None \<Rightarrow> calls s
      | Some (Enum_postgresql en) \<Rightarrow> calls (pg_enum_close lib (at en s))
      | Some (Enum_sqlite3 en) \<Rightarrow> calls (sqlite3_enum_close lib (at en s))
      | Some (Enum_mysql en) \<Rightarrow> calls (mysql_enum_close lib (at en s)))"

text \<open>Only the PostgreSQL driver has the notification callback.\<close>

definition db_has_blocklist_async_notification :: "db_handle option \<Rightarrow> errp \<Rightarrow> bool \<times> errp" where
  "db_has_blocklist_async_notification the_db e =
     (case the_db of
        None \<Rightarrow> (False, set_errp e (Some ''Invalid database (NULL)''))
      | Some h \<Rightarrow>
          if db_options_isset (handle_options h) db_options_no_firewall
          then (False, set_errp e (Some ''Firewall functionality not enabled''))
          else case h of
                 Db_postgresql i \<Rightarrow> (True, e)
               | _ \<Rightarrow> (False, set_errp e (Some ''No async notification callback'')))"

definition pg_register ::
  "db_library \<Rightarrow> nat option \<Rightarrow> nat option \<Rightarrow> db_instance_postgresql dbs \<Rightarrow> bool \<times> db_instance_postgresql dbs" where
  "pg_register lib the_notify ctx s =
     (let need_start = (notification_callback (inst s) = None);
          s1 = s\<lparr>inst := (inst s)\<lparr>notification_callback := the_notify\<rparr>\<rparr>
      in if the_notify = None
         then pg_toggle lib False (s1\<lparr>inst := (inst s1)\<lparr>notification_context := None\<rparr>\<rparr>)
         else let s2 = s1\<lparr>inst := (inst s1)\<lparr>notification_context := ctx\<rparr>\<rparr>
              in if need_start then pg_toggle lib True s2 else (True, s2))"

definition db_blocklist_async_notification_register ::
  "db_library \<Rightarrow> nat option \<Rightarrow> nat option \<Rightarrow> db_handle option dbs \<Rightarrow> bool \<times> db_handle option dbs" where
  "db_blocklist_async_notification_register lib the_notify ctx s =
     (case inst s of
        None \<Rightarrow> (False, report_text ''Invalid database (NULL)'' s)
      | Some h \<Rightarrow>
          if db_options_isset (handle_options h) db_options_no_firewall
          then (False, report_text ''Firewall functionality not enabled'' s)
          else case h of
                 Db_postgresql i \<Rightarrow> via (Some \<circ> Db_postgresql) (pg_register lib the_notify ctx (at i s))
               | _ \<Rightarrow> (False, report_text ''No async notification callback'' s))"

section \<open>Facts\<close>

lemma distinct_drivers: "distinct (db_drivers b)"
  by (simp add: db_drivers_def)

lemma length_drivers: "length (db_drivers b) \<le> 4"
  by (simp add: db_drivers_def)

lemma strcaseeq_driver:
  "c_strcaseeq name (driver_name d) \<Longrightarrow> c_strcaseeq name (driver_name d') \<Longrightarrow> d = d'"
  by (cases d; cases d') (auto simp: c_strcaseeq_def cchar_simps)

lemma find_unique:
  "(\<And>x y. P x \<Longrightarrow> P y \<Longrightarrow> x = y) \<Longrightarrow> find P xs = Some d \<longleftrightarrow> d \<in> set xs \<and> P d"
  by (induction xs) auto

definition next_driver_name :: "build \<Rightarrow> nat option \<Rightarrow> cstr option \<times> nat option" where
  "next_driver_name b it = (case db_driver_enumerate_drivers b (Some it) of (r, it') \<Rightarrow> (r, the it'))"

lemma enumerate_from:
  "k \<le> length (db_drivers b) \<Longrightarrow> length (db_drivers b) - k < fuel \<Longrightarrow>
     \<exists>it. collect fuel (next_driver_name b) (Some k) = Some (map driver_name (drop k (db_drivers b)), it)"
proof (induction fuel arbitrary: k)
  case (Suc fuel)
  show ?case
  proof (cases "k < length (db_drivers b)")
    case True
    then have "drop k (db_drivers b) = db_drivers b ! k # drop (Suc k) (db_drivers b)"
      by (rule Cons_nth_drop_Suc [symmetric])
    with True Suc.IH [of "Suc k"] Suc.prems show ?thesis
      by (auto simp: next_driver_name_def db_driver_enumerate_drivers_def)
  next
    case False
    then show ?thesis by (simp add: next_driver_name_def db_driver_enumerate_drivers_def)
  qed
qed simp

lemma enumerate_start: "next_driver_name b None = next_driver_name b (Some 0)"
  by (auto simp: next_driver_name_def db_driver_enumerate_drivers_def db_drivers_def)

section \<open>The interface keeps the drivers' contract\<close>

text \<open>What is stored through a handle, by driver.\<close>

datatype stored_row =
    Row_csvfile cstr
  | Row_postgresql "cstr option list"
  | Row_sqlite3 "sql_value option list"
  | Row_mysql "cstr list"

primrec handle_rows :: "db_handle \<Rightarrow> db_call list \<Rightarrow> stored_row list" where
  "handle_rows (Db_csvfile i) cs = map Row_csvfile (csv_rows cs)"
| "handle_rows (Db_postgresql i) cs = map Row_postgresql (pg_rows cs)"
| "handle_rows (Db_sqlite3 i) cs = map Row_sqlite3 (sqlite3_rows cs)"
| "handle_rows (Db_mysql i) cs = map Row_mysql (mysql_rows cs)"

primrec handle_row :: "db_handle \<Rightarrow> log_data \<Rightarrow> stored_row" where
  "handle_row (Db_csvfile i) = (\<lambda>e. Row_csvfile (csv_line (delimiter i) e))"
| "handle_row (Db_postgresql i) = (\<lambda>e. Row_postgresql (pg_params e))"
| "handle_row (Db_sqlite3 i) = (\<lambda>e. Row_sqlite3 (sqlite3_row e))"
| "handle_row (Db_mysql i) = (\<lambda>e. Row_mysql (mysql_params e))"

primrec handle_connected :: "db_handle \<Rightarrow> bool" where
  "handle_connected (Db_csvfile i) = fptr i"
| "handle_connected (Db_postgresql i) = pg_conn i"
| "handle_connected (Db_sqlite3 i) = db_conn i"
| "handle_connected (Db_mysql i) = is_connected i"

definition db_rows :: "db_handle option \<Rightarrow> db_call list \<Rightarrow> stored_row list" where
  "db_rows the_db cs = (case the_db of None \<Rightarrow> [] | Some h \<Rightarrow> handle_rows h cs)"

definition db_row :: "db_handle option \<Rightarrow> log_data \<Rightarrow> stored_row" where
  "db_row the_db = (case the_db of None \<Rightarrow> (\<lambda>_. Row_csvfile []) | Some h \<Rightarrow> handle_row h)"

definition db_connected :: "db_handle option \<Rightarrow> bool" where
  "db_connected the_db = (case the_db of None \<Rightarrow> False | Some h \<Rightarrow> handle_connected h)"

definition db_opts :: "db_handle option \<Rightarrow> 32 word" where
  "db_opts the_db = (case the_db of None \<Rightarrow> 0 | Some h \<Rightarrow> handle_options h)"

lemma at_simps [simp]:
  "calls (at i s) = calls s" "inst (at i s) = i" "err (at i s) = err s" "at j (at i s) = at j s" "at (inst s) s = s"
  by (simp_all add: at_def)

lemma via_pair [simp]: "via K (r, s) = (r, at (K (inst s)) s)"
  by (simp add: via_def)

text \<open>
  The contract of the handle is that of its driver: what an operation of the driver satisfies,
  the operation of the interface satisfies.
\<close>

context db_driver
begin

lemma open_via:
  assumes "via K (open_op lib (at i s)) = (r, s')" "inst s = K i"
  obtains i' where "inst s' = K i'" "rows i' (calls s') = rows i (calls s)" "row i' = row i"
    "lib_ok lib \<longrightarrow> r \<longrightarrow> \<not> db_options_isset (opts i) db_options_no_pam_logging \<longrightarrow> connected i'"
    "connected i \<longrightarrow> r \<and> s' = s"
proof -
  obtain s1 where s1: "open_op lib (at i s) = (r, s1)" "s' = at (K (inst s1)) s1"
    using assms(1) by (cases "open_op lib (at i s)") auto
  have "at (K i) s = s" using assms(2) by (metis at_simps(5))
  then show thesis
    using that [of "inst s1"] s1 open_stores_nothing [OF s1(1)] open_connects [of lib "at i s" s1]
      open_again [of "at i s" lib] by auto
qed

lemma close_via:
  assumes "via K (close_op lib (at i s)) = (r, s')"
  obtains i' where "inst s' = K i'" "rows i' (calls s') = rows i (calls s)" "row i' = row i" "\<not> connected i'"
proof -
  obtain s1 where s1: "close_op lib (at i s) = (r, s1)" "s' = at (K (inst s1)) s1"
    using assms by (cases "close_op lib (at i s)") auto
  show thesis
    using that [of "inst s1"] s1 close_stores_nothing [OF s1(1)] close_disconnects [OF s1(1)] by auto
qed

lemma log_via:
  assumes "via K (log_op lib e (at i s)) = (r, s')"
  obtains i' where "inst s' = K i'" "connected i' = connected i" "row i' = row i"
    "rows i' (calls s') = rows i (calls s) @ [row i e] \<or> (\<not> r \<and> rows i' (calls s') = rows i (calls s))"
    "\<not> connected i \<longrightarrow> \<not> r \<and> calls s' = calls s"
proof -
  obtain s1 where s1: "log_op lib e (at i s) = (r, s1)" "s' = at (K (inst s1)) s1"
    using assms by (cases "log_op lib e (at i s)") auto
  show thesis
    using that [of "inst s1"] s1 log_keeps [OF s1(1)] log_sends [OF s1(1)]
      log_disconnected [OF _ s1(1)] by auto
qed

end

lemma driver_open_laws:
  assumes "driver_open lib s = (r, s')"
  shows "handle_rows (inst s') (calls s') = handle_rows (inst s) (calls s) \<and>
    handle_row (inst s') = handle_row (inst s) \<and>
    (sqlite3_lib_ok lib \<longrightarrow> r \<longrightarrow> \<not> db_options_isset (handle_options (inst s)) db_options_no_pam_logging \<longrightarrow>
      handle_connected (inst s')) \<and>
    (handle_connected (inst s) \<longrightarrow> r \<and> s' = s)"
  using assms
  by (cases "inst s")
    (auto simp: driver_open_def elim: csv.open_via pg.open_via sq.open_via my.open_via)

lemma driver_close_laws:
  assumes "driver_close lib s = (r, s')"
  shows "handle_rows (inst s') (calls s') = handle_rows (inst s) (calls s) \<and>
    handle_row (inst s') = handle_row (inst s) \<and> \<not> handle_connected (inst s')"
  using assms
  by (cases "inst s")
    (auto simp: driver_close_def elim: csv.close_via pg.close_via sq.close_via my.close_via)

lemma driver_log_laws:
  assumes "driver_log_one_event lib e s = (r, s')"
  shows "handle_connected (inst s') = handle_connected (inst s) \<and>
    handle_row (inst s') = handle_row (inst s) \<and>
    (handle_rows (inst s') (calls s') = handle_rows (inst s) (calls s) @ [handle_row (inst s) e] \<or>
     (\<not> r \<and> handle_rows (inst s') (calls s') = handle_rows (inst s) (calls s))) \<and>
    (\<not> handle_connected (inst s) \<longrightarrow> \<not> r \<and> calls s' = calls s)"
  using assms
  by (cases "inst s")
    (auto simp: driver_log_one_event_def elim: csv.log_via pg.log_via sq.log_via my.log_via)

lemma db_open_handle: "inst s = Some h \<Longrightarrow> db_open lib s = via Some (driver_open lib (at h s))"
  by (simp add: db_open_def)

lemma db_close_handle: "inst s = Some h \<Longrightarrow> db_close lib s = via Some (driver_close lib (at h s))"
  by (simp add: db_close_def)

lemma db_log_handle:
  "inst s = Some h \<Longrightarrow> \<not> db_options_isset (handle_options h) db_options_no_pam_logging \<Longrightarrow>
     db_log_one_event lib e s = via Some (driver_log_one_event lib e (at h s))"
  by (simp add: db_log_one_event_def)

lemma at_Some: "inst s = Some h \<Longrightarrow> at (Some h) s = s"
  by (metis at_simps(5))

lemmas db_view_defs = db_rows_def db_row_def db_connected_def db_opts_def

interpretation dbi: db_driver sqlite3_lib_ok db_opts db_connected db_open db_close db_log_one_event
  db_rows db_row
proof unfold_locales
  fix lib :: db_library and s s' :: "db_handle option dbs" and r :: bool and e :: log_data
  show "db_connected (inst s')" if "sqlite3_lib_ok lib" "db_open lib s = (True, s')"
    "\<not> db_options_isset (db_opts (inst s)) db_options_no_pam_logging"
  proof (cases "inst s")
    case (Some h)
    obtain r1 s1 where o: "driver_open lib (at h s) = (r1, s1)" by fastforce
    show ?thesis using that Some driver_open_laws [OF o] o by (auto simp: db_open_handle db_view_defs)
  qed (use that in \<open>simp add: db_open_def\<close>)
  show "db_open lib s = (True, s)" if "db_connected (inst s)"
  proof (cases "inst s")
    case (Some h)
    obtain r1 s1 where o: "driver_open lib (at h s) = (r1, s1)" by fastforce
    show ?thesis using that Some driver_open_laws [OF o] o at_Some [OF Some]
      by (auto simp: db_open_handle db_view_defs)
  qed (use that in \<open>simp add: db_view_defs\<close>)
  show "db_rows (inst s') (calls s') = db_rows (inst s) (calls s) \<and> db_row (inst s') = db_row (inst s)"
    if "db_open lib s = (r, s')"
  proof (cases "inst s")
    case (Some h)
    obtain r1 s1 where o: "driver_open lib (at h s) = (r1, s1)" by fastforce
    show ?thesis using that Some driver_open_laws [OF o] o by (auto simp: db_open_handle db_view_defs)
  qed (use that in \<open>auto simp: db_open_def db_view_defs\<close>)
  show "\<not> db_connected (inst s')" if "db_close lib s = (r, s')"
  proof (cases "inst s")
    case (Some h)
    obtain r1 s1 where o: "driver_close lib (at h s) = (r1, s1)" by fastforce
    show ?thesis using that Some driver_close_laws [OF o] o by (auto simp: db_close_handle db_view_defs)
  qed (use that in \<open>auto simp: db_close_def db_view_defs\<close>)
  show "db_rows (inst s') (calls s') = db_rows (inst s) (calls s) \<and> db_row (inst s') = db_row (inst s)"
    if "db_close lib s = (r, s')"
  proof (cases "inst s")
    case (Some h)
    obtain r1 s1 where o: "driver_close lib (at h s) = (r1, s1)" by fastforce
    show ?thesis using that Some driver_close_laws [OF o] o by (auto simp: db_close_handle db_view_defs)
  qed (use that in \<open>auto simp: db_close_def db_view_defs\<close>)
  have log: "db_connected (inst s') = db_connected (inst s) \<and> db_row (inst s') = db_row (inst s) \<and>
      (db_rows (inst s') (calls s') = db_rows (inst s) (calls s) @ [db_row (inst s) e] \<or>
       \<not> r \<and> db_rows (inst s') (calls s') = db_rows (inst s) (calls s)) \<and>
      (\<not> db_connected (inst s) \<longrightarrow> \<not> r \<and> calls s' = calls s)" if "db_log_one_event lib e s = (r, s')"
  proof (cases "inst s")
    case (Some h)
    obtain r1 s1 where o: "driver_log_one_event lib e (at h s) = (r1, s1)" by fastforce
    show ?thesis
    proof (cases "db_options_isset (handle_options h) db_options_no_pam_logging")
      case True
      then show ?thesis using that Some by (auto simp: db_log_one_event_def db_view_defs)
    next
      case False
      then show ?thesis using that Some driver_log_laws [OF o] o by (auto simp: db_log_handle db_view_defs)
    qed
  qed (use that in \<open>auto simp: db_log_one_event_def db_view_defs\<close>)
  show "\<not> r \<and> calls s' = calls s" if "\<not> db_connected (inst s)" "db_log_one_event lib e s = (r, s')"
    using log that by simp
  show "db_connected (inst s') = db_connected (inst s) \<and> db_row (inst s') = db_row (inst s)"
    if "db_log_one_event lib e s = (r, s')" using log that by simp
  show "db_rows (inst s') (calls s') = db_rows (inst s) (calls s) @ [db_row (inst s) e] \<or>
      \<not> r \<and> db_rows (inst s') (calls s') = db_rows (inst s) (calls s)"
    if "db_log_one_event lib e s = (r, s')" using log that by simp
qed

section \<open>The properties of the interface\<close>

text \<open>
  The table of drivers. A name is found exactly when it is, in any case, the name of a
  driver that was compiled in; a driver is never found under another one's name; enumerating
  from a NULL iterator yields the name of every compiled-in driver once, in order, and then NULL.
\<close>

theorem db_driver_table:
  "(db_driver_lookup b name = Some d \<longleftrightarrow> d \<in> set (db_drivers b) \<and> c_strcaseeq name (driver_name d)) \<and>
   (\<exists>it. collect 5 (next_driver_name b) None = Some (map driver_name (db_drivers b), it)) \<and>
   distinct (map driver_name (db_drivers b)) \<and>
   (db_driver_is_available b name \<longleftrightarrow> (\<exists>d \<in> set (db_drivers b). c_strcaseeq name (driver_name d)))"
proof -
  have f: "db_driver_lookup b name = Some d \<longleftrightarrow> d \<in> set (db_drivers b) \<and> c_strcaseeq name (driver_name d)" for d
    unfolding db_driver_lookup_def by (rule find_unique) (rule strcaseeq_driver)
  have "collect 5 (next_driver_name b) None = collect 5 (next_driver_name b) (Some 0)"
    by (simp add: eval_nat_numeral enumerate_start)
  then have "\<exists>it. collect 5 (next_driver_name b) None = Some (map driver_name (db_drivers b), it)"
    using enumerate_from [of 0 b 5] length_drivers [of b] by (simp add: le_imp_less_Suc)
  moreover have "distinct (map driver_name (db_drivers b))" by (simp add: db_drivers_def)
  ultimately show ?thesis using f by (auto simp: db_driver_is_available_def)
qed

text \<open>
  The options of an instance. A database opened without the PAM functions refuses every
  event, one opened without the firewall functions refuses to list, to tell and to register;
  the instance is left alone and no library call is made. A refused event is reported as an
  invalid database.
\<close>

theorem db_option_gates:
  assumes "inst s = Some h" "err s = Some m"
  shows "(db_options_isset (handle_options h) db_options_no_pam_logging \<longrightarrow>
      db_log_one_event lib e s = (False, s\<lparr>err := Some (Some ''Invalid database (NULL)'')\<rparr>)) \<and>
    (db_options_isset (handle_options h) db_options_no_firewall \<longrightarrow>
      (let refused = s\<lparr>err := Some (Some ''Firewall functionality not enabled'')\<rparr> in
       db_blocklist_enum_open lib s = (None, refused) \<and>
       db_blocklist_async_notification_register lib f c s = (False, refused) \<and>
       db_has_blocklist_async_notification (inst s) (err s) = (False, err refused)))"
  using assms
  by (simp add: db_log_one_event_def db_blocklist_enum_open_def db_blocklist_async_notification_register_def
      db_has_blocklist_async_notification_def report_text_def Let_def)

theorem db_option_gates_witness:
  "let s = \<lparr>calls = [], inst = Some (Db_postgresql (pg_instance\<lparr>options := 1\<rparr>)), err = Some None\<rparr> in
   db_log_one_event pg_all_ok sample_event s = (False, s\<lparr>err := Some (Some ''Invalid database (NULL)'')\<rparr>)"
proof -
  let ?s = "\<lparr>calls = [], inst = Some (Db_postgresql (pg_instance\<lparr>options := 1\<rparr>)), err = Some None\<rparr>
    :: db_handle option dbs"
  have o: "db_options_isset (handle_options (Db_postgresql (pg_instance\<lparr>options := 1\<rparr>))) db_options_no_pam_logging"
    by (simp add: db_options_isset_def)
  have "db_log_one_event pg_all_ok sample_event ?s = (False, ?s\<lparr>err := Some (Some ''Invalid database (NULL)'')\<rparr>)"
    using db_option_gates [of ?s "Db_postgresql (pg_instance\<lparr>options := 1\<rparr>)" None pg_all_ok sample_event] o
    by simp
  then show ?thesis by (simp add: Let_def)
qed

text \<open>
  Registering for notifications on a PostgreSQL database. Registering stores the callback
  and its context and starts the thread when there was no callback before; registering again
  replaces the callback without a second thread; unregistering removes callback and context
  and stops the thread.
\<close>

theorem db_register:
  assumes "\<And>h c. c \<in> {Pthread_create, Pthread_cancel, Pthread_join} \<Longrightarrow> ret (lib h c) = 0"
    "\<not> db_options_isset (options i) db_options_no_firewall"
    "is_notify_running i \<longleftrightarrow> notification_callback i \<noteq> None"
    "inst s = Some (Db_postgresql i)"
    "db_blocklist_async_notification_register lib f c s = (r, s')"
  shows "\<exists>i'. inst s' = Some (Db_postgresql i') \<and> notification_callback i' = f \<and>
    notification_context i' = (if f = None then None else c) \<and>
    (is_notify_running i' \<longleftrightarrow> f \<noteq> None) \<and>
    (r \<longleftrightarrow> f \<noteq> None \<or> notification_callback i \<noteq> None) \<and>
    calls s' = calls s @
      (if f = None then (if is_notify_running i then [Pthread_cancel, Pthread_join] else [])
       else if is_notify_running i then [] else [Pthread_create])"
proof -
  let ?i = "i\<lparr>notification_callback := f, notification_context := if f = None then None else c\<rparr>"
  let ?s = "at ?i s"
  have reg: "pg_register lib f c (at i s) =
      (if f = None then pg_toggle lib False ?s
       else if notification_callback i = None then pg_toggle lib True ?s else (True, ?s))"
    by (auto simp: pg_register_def Let_def at_def)
  obtain r0 t where t: "pg_register lib f c (at i s) = (r0, t)" by fastforce
  have s': "r = r0" "inst s' = Some (Db_postgresql (inst t))" "calls s' = calls t"
    using assms(2,4,5) t by (auto simp: db_blocklist_async_notification_register_def via_def at_def)
  have at: "inst ?s = ?i" "calls ?s = calls s" by (simp_all add: at_def)
  have keep: "notification_callback (inst (snd (pg_toggle lib b ?s))) = f \<and>
      notification_context (inst (snd (pg_toggle lib b ?s))) = (if f = None then None else c)" for b
    by (simp add: pg_toggle_def lib_call_def at_def)
  show ?thesis
  proof (cases "f \<noteq> None \<and> notification_callback i \<noteq> None")
    case True
    then show ?thesis using s' t reg assms(3) at by auto
  next
    case False
    then have u: "pg_toggle lib (f \<noteq> None) ?s = (r0, t)" using t reg by (cases f) auto
    have "is_notify_running (inst t) = (f \<noteq> None) \<and> r0 = ((f \<noteq> None) \<noteq> is_notify_running i) \<and>
      calls t = calls s @ (if (f \<noteq> None) = is_notify_running i then []
        else if f \<noteq> None then [Pthread_create] else [Pthread_cancel, Pthread_join])"
      using pg_toggle_step [of lib "f \<noteq> None" ?s, OF assms(1)] u at by simp
    then show ?thesis using keep [of "f \<noteq> None"] u s' False assms(3) by (cases f) auto
  qed
qed

theorem db_register_witness:
  "\<exists>r s' i'. db_blocklist_async_notification_register pg_two_rows (Some 1) (Some 2)
      \<lparr>calls = [], inst = Some (Db_postgresql pg_instance), err = None\<rparr> = (r, s') \<and>
    inst s' = Some (Db_postgresql i') \<and> notification_callback i' = Some 1 \<and> is_notify_running i' \<and> r \<and>
    calls s' = [Pthread_create]"
proof -
  let ?s = "\<lparr>calls = [], inst = Some (Db_postgresql pg_instance), err = None\<rparr>"
  obtain r s' where g: "db_blocklist_async_notification_register pg_two_rows (Some 1) (Some 2) ?s = (r, s')"
    by fastforce
  have "ret (pg_two_rows h c) = 0" if "c \<in> {Pthread_create, Pthread_cancel, Pthread_join}" for h c
    using that by (auto simp: pg_two_rows_def)
  moreover have "\<not> db_options_isset (options pg_instance) db_options_no_firewall"
    "is_notify_running pg_instance \<longleftrightarrow> notification_callback pg_instance \<noteq> None"
    "\<not> is_notify_running pg_instance"
    by (simp_all add: pg_instance_def db_instance.defs db_instance_base_def db_options_isset_def)
  ultimately show ?thesis using db_register [OF _ _ _ _ g, of pg_instance] g by fastforce
qed


definition csv_sample_handle :: db_handle where
  "csv_sample_handle = Db_csvfile (db_instance.extend db_instance_base
     \<lparr>filename = ''log.csv'', fptr = False, delimiter = '',''\<rparr>)"


end
