(* ===== verification/Daemon_Config.thy ===== *)
theory Daemon_Config
  imports Db_Interface Logging
begin

text \<open>
  What the configuration readers of both daemons share: \<open>config_read_yaml_file\<close> in
  \<open>src/pam-daemon/iptracking-pamd.c\<close> and \<open>src/firewall-daemon/iptracking-firewalld.c\<close>. The
  file system and libyaml are parameters: what they deliver is one of the cases of
  \<open>config_source\<close>.
\<close>

section \<open>Sources and outcomes\<close>

datatype config_source =
    File_not_opened
  | Parser_not_initialized
  | Document_not_loaded
  | Document yaml_document "yaml_node option"

text \<open>
  The outcome of reading: the process ended after a fatal message; an invalid access (in
  \<open>db_alloc\<close>); or the result of the function with the configuration and what it stored through
  \<open>event_db\<close>, where the outer \<open>None\<close> says that it stored nothing.
\<close>

datatype 'c config_outcome =
    Config_fatal
  | Config_invalid_access
  | Config_read bool 'c "db_handle option option"

section \<open>Items\<close>

text \<open>
  One item: when the path has a node its value is converted and stored; a value that cannot be
  converted ends the reading with \<open>rc = false\<close> and the configuration as it is.
\<close>

definition config_item ::
  "yaml_document \<Rightarrow> yaml_node option \<Rightarrow> cstr \<Rightarrow> (yaml_node \<Rightarrow> 'v option) \<Rightarrow> ('v \<Rightarrow> 'c \<Rightarrow> 'c) \<Rightarrow>
     'c \<Rightarrow> bool \<times> 'c" where
  "config_item doc node path get put c =
     (case yaml_helper_doc_node_at_path doc node path of
        None \<Rightarrow> (True, c)
      | Some n \<Rightarrow> (case get n of None \<Rightarrow> (False, c) | Some v \<Rightarrow> (True, put v c)))"

text \<open>Items in a row: the first one that fails is the last.\<close>

fun config_items :: "('c \<Rightarrow> bool \<times> 'c) list \<Rightarrow> 'c \<Rightarrow> bool \<times> 'c" where
  "config_items [] c = (True, c)"
| "config_items (f # fs) c = (case f c of (ok, c') \<Rightarrow> if ok then config_items fs c' else (False, c'))"

text \<open>Items below the node of a path, when there is one.\<close>

definition config_section ::
  "yaml_document \<Rightarrow> yaml_node option \<Rightarrow> cstr \<Rightarrow> (yaml_node option \<Rightarrow> ('c \<Rightarrow> bool \<times> 'c) list) \<Rightarrow>
     'c \<Rightarrow> bool \<times> 'c" where
  "config_section doc node path items c =
     (case yaml_helper_doc_node_at_path doc node path of
        None \<Rightarrow> (True, c)
      | Some n \<Rightarrow> config_items (items (Some n)) c)"

text \<open>The database's section comes first; its node goes to \<open>db_alloc\<close>.\<close>

definition config_database ::
  "build \<Rightarrow> bool \<Rightarrow> yaml_document \<Rightarrow> yaml_node option \<Rightarrow> 32 word \<Rightarrow> db_alloc_result option" where
  "config_database b malloc_ok doc root opts =
     (case yaml_helper_doc_node_at_path doc root ''database'' of
        None \<Rightarrow> None
      | Some n \<Rightarrow> Some (db_alloc b malloc_ok None doc (Some n) opts))"

definition config_read_document ::
  "build \<Rightarrow> bool \<Rightarrow> 32 word \<Rightarrow> (yaml_document \<Rightarrow> yaml_node option \<Rightarrow> 'c \<Rightarrow> bool \<times> 'c) \<Rightarrow>
     yaml_document \<Rightarrow> yaml_node option \<Rightarrow> 'c \<Rightarrow> 'c config_outcome" where
  "config_read_document b malloc_ok opts read_section doc root c =
     (case root of
        Some (YAML_MAPPING_NODE _) \<Rightarrow>
          (case config_database b malloc_ok doc root opts of
             Some Fatal \<Rightarrow> Config_fatal
           | Some Invalid_access \<Rightarrow> Config_invalid_access
           | Some (Allocated h) \<Rightarrow>
               (case read_section doc root c of (ok, c') \<Rightarrow> Config_read ok c' (Some h))
           | None \<Rightarrow>
               (case read_section doc root c of (ok, c') \<Rightarrow> Config_read ok c' None))
      | _ \<Rightarrow> Config_fatal)"

definition config_read_source ::
  "build \<Rightarrow> bool \<Rightarrow> 32 word \<Rightarrow> (yaml_document \<Rightarrow> yaml_node option \<Rightarrow> 'c \<Rightarrow> bool \<times> 'c) \<Rightarrow>
     config_source \<Rightarrow> 'c \<Rightarrow> 'c config_outcome" where
  "config_read_source b malloc_ok opts read_section src c =
     (case src of
        Document doc root \<Rightarrow> config_read_document b malloc_ok opts read_section doc root c
      | _ \<Rightarrow> Config_fatal)"

section \<open>Facts\<close>

text \<open>The converted value of an item, with what the field holds when there is no item.\<close>

definition item_ok :: "yaml_document \<Rightarrow> yaml_node option \<Rightarrow> cstr \<Rightarrow> (yaml_node \<Rightarrow> 'v option) \<Rightarrow> bool" where
  "item_ok doc node path get \<longleftrightarrow>
     (case yaml_helper_doc_node_at_path doc node path of None \<Rightarrow> True | Some n \<Rightarrow> get n \<noteq> None)"

definition item_value ::
  "yaml_document \<Rightarrow> yaml_node option \<Rightarrow> cstr \<Rightarrow> (yaml_node \<Rightarrow> 'v option) \<Rightarrow> 'v \<Rightarrow> 'v" where
  "item_value doc node path get dflt =
     (case yaml_helper_doc_node_at_path doc node path of
        None \<Rightarrow> dflt
      | Some n \<Rightarrow> (case get n of None \<Rightarrow> dflt | Some v \<Rightarrow> v))"

lemma config_item_eq:
  assumes "\<And>c. put (get_f c) c = c"
  shows "config_item doc node path get put c =
    (item_ok doc node path get, put (item_value doc node path get (get_f c)) c)"
  using assms by (simp add: config_item_def item_ok_def item_value_def split: option.splits)

text \<open>A section that has no node is like a section without items.\<close>

lemma item_no_node:
  assumes "node = None" shows "item_ok doc node path get" "item_value doc node path get d = d"
  using assms by (simp_all add: item_ok_def item_value_def yaml_helper_doc_node_at_path_def node_at_path.simps)

lemma no_path_below_NULL [simp]: "yaml_helper_doc_node_at_path doc None path = None"
  by (simp add: yaml_helper_doc_node_at_path_def node_at_path.simps)

lemma config_items_NULL:
  "\<forall>f \<in> set fs. f c = (True, c) \<Longrightarrow> config_items fs c = (True, c)"
  by (induction fs) simp_all

lemma config_section_eq:
  assumes "\<forall>f \<in> set (items None). f c = (True, c)"
  shows "config_section doc node path items c =
    config_items (items (yaml_helper_doc_node_at_path doc node path)) c"
  using config_items_NULL [of "items None" c] assms by (simp add: config_section_def split: option.split)

text \<open>A path below a node that a path leads to is one path.\<close>

lemma lookup_keys_append:
  "lookup_keys doc n (ks @ ls) =
     (case lookup_keys doc n ks of None \<Rightarrow> None | Some m \<Rightarrow> lookup_keys doc m ls)"
  by (induction ks arbitrary: n) (auto split: option.splits)

lemma path_lookup:
  assumes "ks \<noteq> []" "\<forall>k \<in> set ks. key_ok k"
  shows "yaml_helper_doc_node_at_path doc (Some n) (key_path ks) = lookup_keys doc n ks"
  using assms node_at_path_root [of "hd ks" "tl ks" doc n]
  by (cases ks) (simp_all add: yaml_helper_doc_node_at_path_def)

lemma path_below:
  assumes "ks \<noteq> []" "ls \<noteq> []" "\<forall>k \<in> set (ks @ ls). key_ok k"
  shows "yaml_helper_doc_node_at_path doc (yaml_helper_doc_node_at_path doc (Some n) (key_path ks)) (key_path ls) =
    yaml_helper_doc_node_at_path doc (Some n) (key_path (ks @ ls))"
  using assms by (simp add: path_lookup lookup_keys_append split: option.split)

lemma item_below:
  assumes "ks \<noteq> []" "ls \<noteq> []" "\<forall>k \<in> set (ks @ ls). key_ok k"
  shows "item_ok doc (yaml_helper_doc_node_at_path doc (Some n) (key_path ks)) (key_path ls) get =
      item_ok doc (Some n) (key_path (ks @ ls)) get"
    "item_value doc (yaml_helper_doc_node_at_path doc (Some n) (key_path ks)) (key_path ls) get d =
      item_value doc (Some n) (key_path (ks @ ls)) get d"
  unfolding item_ok_def item_value_def path_below [OF assms] by (rule refl)+

lemma handle_options_set [simp]: "handle_options (set_handle_options opts h) = opts"
  by (cases h) simp_all

lemma db_alloc_options:
  "db_alloc b malloc_ok name doc node opts = Allocated (Some h) \<Longrightarrow> handle_options h = opts"
  by (auto simp: db_alloc_def split: option.splits db_alloc_result.splits)

end
