(* ===== verification/Pamd_Config.thy ===== *)
theory Pamd_Config
  imports Daemon_Config Log_Queue_Correct
begin

text \<open>
  \<open>src/pam-daemon/iptracking-pamd.c\<close> up to the point where the threads are started: the
  configuration file, the command line, the validation and the creation of the queue.
\<close>

section \<open>The configuration\<close>

text \<open>The static variables of the file.\<close>

record pamd_config =
  log_pool_records_min :: "32 word"
  log_pool_records_max :: "32 word"
  log_pool_records_delta :: "32 word"
  push_wait_seconds_min :: int
  push_wait_seconds_max :: int
  push_wait_seconds_dt_thresh :: int
  push_wait_seconds_dt :: int
  socket_filepath :: cstr
  socket_backlog :: int
  socket_poll_interval :: int

text \<open>Their initial values, with the defaults of \<open>src/CMakeLists.txt\<close>; the path is the build's.\<close>

definition pamd_config_default :: "cstr \<Rightarrow> pamd_config" where
  "pamd_config_default socket_default =
     \<lparr>log_pool_records_min = 32, log_pool_records_max = 0, log_pool_records_delta = 32,
      push_wait_seconds_min = 5, push_wait_seconds_max = 600, push_wait_seconds_dt_thresh = 4,
      push_wait_seconds_dt = 5, socket_filepath = socket_default, socket_backlog = 5,
      socket_poll_interval = 90\<rparr>"

section \<open>Reading the file\<close>

definition pamd_records_items ::
  "yaml_document \<Rightarrow> yaml_node option \<Rightarrow> (pamd_config \<Rightarrow> bool \<times> pamd_config) list" where
  "pamd_records_items doc node =
     [config_item doc node ''min'' yaml_helper_get_scalar_uint32_value (\<lambda>v c. c\<lparr>log_pool_records_min := v\<rparr>),
      config_item doc node ''max'' yaml_helper_get_scalar_uint32_value (\<lambda>v c. c\<lparr>log_pool_records_max := v\<rparr>),
      config_item doc node ''delta'' yaml_helper_get_scalar_uint32_value (\<lambda>v c. c\<lparr>log_pool_records_delta := v\<rparr>)]"

definition pamd_wait_items ::
  "yaml_document \<Rightarrow> yaml_node option \<Rightarrow> (pamd_config \<Rightarrow> bool \<times> pamd_config) list" where
  "pamd_wait_items doc node =
     [config_item doc node ''min'' yaml_helper_get_scalar_int_value (\<lambda>v c. c\<lparr>push_wait_seconds_min := v\<rparr>),
      config_item doc node ''max'' yaml_helper_get_scalar_int_value (\<lambda>v c. c\<lparr>push_wait_seconds_max := v\<rparr>),
      config_item doc node ''delta'' yaml_helper_get_scalar_int_value (\<lambda>v c. c\<lparr>push_wait_seconds_dt := v\<rparr>),
      config_item doc node ''grow-threshold'' yaml_helper_get_scalar_int_value
        (\<lambda>v c. c\<lparr>push_wait_seconds_dt_thresh := v\<rparr>)]"

definition pamd_items ::
  "yaml_document \<Rightarrow> yaml_node option \<Rightarrow> (pamd_config \<Rightarrow> bool \<times> pamd_config) list" where
  "pamd_items doc node =
     [config_item doc node ''socket-file'' yaml_helper_get_scalar_value (\<lambda>v c. c\<lparr>socket_filepath := v\<rparr>),
      config_section doc node ''log-pool.records'' (pamd_records_items doc),
      config_section doc node ''log-pool.push-wait-seconds'' (pamd_wait_items doc)]"

definition pamd_read_section ::
  "yaml_document \<Rightarrow> yaml_node option \<Rightarrow> pamd_config \<Rightarrow> bool \<times> pamd_config" where
  "pamd_read_section doc root c = config_section doc root ''pamd'' (pamd_items doc) c"

definition pamd_config_read_yaml_file ::
  "build \<Rightarrow> bool \<Rightarrow> config_source \<Rightarrow> pamd_config \<Rightarrow> pamd_config config_outcome" where
  "pamd_config_read_yaml_file b malloc_ok src c =
     config_read_source b malloc_ok db_options_no_firewall pamd_read_section src c"

section \<open>Validating\<close>

datatype config_error =
    Lacks_database
  | Database_invalid "cstr option"
  | Records_min_above_max
  | Wait_min_above_max
  | Socket_file_not_removed cstr

text \<open>
  \<open>config_validate\<close>: the error it reports before it returns false, or the lines it logs before
  it returns true, and whether it called \<open>unlink\<close>. \<open>stat_rc\<close> and \<open>unlink_rc\<close> are what the file
  system answers for the path of the socket.
\<close>

definition pamd_summary :: "pamd_config \<Rightarrow> cstr list" where
  "pamd_summary c =
     [''socket-file = '' @ socket_filepath c,
      ''backlog = '' @ show_int (socket_backlog c),
      ''polling-interval = '' @ show_int (socket_poll_interval c),
      ''log-pool.records.min = '' @ show_nat (unat (log_pool_records_min c)),
      ''log-pool.records.max = '' @ show_nat (unat (log_pool_records_max c)),
      ''log-pool.records.delta = '' @ show_nat (unat (log_pool_records_delta c)),
      ''log-pool.push-wait-seconds.min = '' @ show_int (push_wait_seconds_min c) @ ''s'',
      ''log-pool.push-wait-seconds.max = '' @ show_int (push_wait_seconds_max c) @ ''s'',
      ''log-pool.push-wait-seconds.delta = '' @ show_int (push_wait_seconds_dt c) @ ''s'',
      ''log-pool.push-wait-seconds.grow-threshold = '' @ show_int (push_wait_seconds_dt_thresh c)]"

definition pamd_config_validate ::
  "int \<Rightarrow> int \<Rightarrow> pamd_config \<Rightarrow> db_handle option \<Rightarrow> (config_error + cstr list) \<times> bool" where
  "pamd_config_validate stat_rc unlink_rc c event_db =
     (if event_db = None then (Inl Lacks_database, False)
      else case db_has_valid_configuration event_db (Some None) of
        (valid, e) \<Rightarrow>
          if \<not> valid then (Inl (Database_invalid (Option.bind e id)), False)
          else if log_pool_records_max c \<noteq> 0 \<and> log_pool_records_min c > log_pool_records_max c
          then (Inl Records_min_above_max, False)
          else if push_wait_seconds_max c \<noteq> 0 \<and> push_wait_seconds_min c > push_wait_seconds_max c
          then (Inl Wait_min_above_max, False)
          else if stat_rc = 0 \<and> unlink_rc \<noteq> 0 then (Inl (Socket_file_not_removed (socket_filepath c)), True)
          else (Inr (pamd_summary c @ db_summarize_to_log event_db), stat_rc = 0))"

section \<open>The command line and the start\<close>

text \<open>
  The second pass over the options; the other options do nothing there. \<open>None\<close> is
  \<open>exit(EINVAL)\<close>. \<open>SOMAXCONN\<close> is the system's.
\<close>

datatype pamd_option = Opt_backlog cstr | Opt_poll_interval cstr | Opt_other

fun pamd_overrides :: "int \<Rightarrow> pamd_option list \<Rightarrow> pamd_config \<Rightarrow> pamd_config option" where
  "pamd_overrides somaxconn [] c = Some c"
| "pamd_overrides somaxconn (Opt_backlog optarg # os) c =
     (case c_strtol optarg of
        None \<Rightarrow> None
      | Some (ival, _) \<Rightarrow>
          if ival < 0 \<or> ival > somaxconn then None
          else pamd_overrides somaxconn os (c\<lparr>socket_backlog := ival\<rparr>))"
| "pamd_overrides somaxconn (Opt_poll_interval optarg # os) c =
     (case c_strtol optarg of
        None \<Rightarrow> None
      | Some (ival, _) \<Rightarrow>
          if ival < 0 \<or> ival > INT_MAX then None
          else pamd_overrides somaxconn os (c\<lparr>socket_poll_interval := ival\<rparr>))"
| "pamd_overrides somaxconn (Opt_other # os) c = pamd_overrides somaxconn os c"

definition pamd_lq_params :: "pamd_config \<Rightarrow> log_queue_params" where
  "pamd_lq_params c =
     \<lparr>records_min = log_pool_records_min c, records_max = log_pool_records_max c,
      records_delta = log_pool_records_delta c, wait_min = push_wait_seconds_min c,
      wait_max = push_wait_seconds_max c, wait_delta = push_wait_seconds_dt c,
      wait_grow_threshold = push_wait_seconds_dt_thresh c\<rparr>"

text \<open>
  \<open>main\<close> up to the threads. A file without a \<open>database\<close> section leaves \<open>tc.db\<close> as it was on
  the stack: what follows is undefined.
\<close>

datatype pamd_start =
    Exit_fatal
  | Exit_EINVAL
  | Undefined_behaviour
  | No_queue
  | Started pamd_config db_handle log_queue

definition pamd_main ::
  "build \<Rightarrow> bool \<Rightarrow> bool \<Rightarrow> int \<Rightarrow> int \<Rightarrow> int \<Rightarrow> config_source \<Rightarrow> pamd_option list \<Rightarrow> pamd_config \<Rightarrow> pamd_start"
  where
  "pamd_main b db_malloc_ok lq_malloc_ok stat_rc unlink_rc somaxconn src opts c0 =
     (case pamd_config_read_yaml_file b db_malloc_ok src c0 of
        Config_fatal \<Rightarrow> Exit_fatal
      | Config_invalid_access \<Rightarrow> Undefined_behaviour
      | Config_read ok c1 stored \<Rightarrow>
          if \<not> ok then Exit_EINVAL
          else case pamd_overrides somaxconn opts c1 of
            None \<Rightarrow> Exit_EINVAL
          | Some c \<Rightarrow>
              (case stored of
                 None \<Rightarrow> Undefined_behaviour
               | Some the_db \<Rightarrow>
                   (case pamd_config_validate stat_rc unlink_rc c the_db of
                      (Inl _, _) \<Rightarrow> Exit_EINVAL
                    | (Inr _, _) \<Rightarrow>
                        (case log_queue_create lq_malloc_ok (Some (pamd_lq_params c)) of
                           None \<Rightarrow> No_queue
                         | Some lq \<Rightarrow> Started c (the the_db) lq))))"
section \<open>Properties\<close>

lemmas pamd_items_defs = pamd_items_def pamd_records_items_def pamd_wait_items_def

lemma pamd_items_NULL:
  "\<forall>f \<in> set (pamd_records_items doc None). f c = (True, c)"
  "\<forall>f \<in> set (pamd_wait_items doc None). f c = (True, c)"
  "\<forall>f \<in> set (pamd_items doc None). f c = (True, c)"
  by (simp_all add: pamd_items_defs config_item_def config_section_def)

lemmas pamd_item_eqs =
  config_item_eq [where get_f = socket_filepath and put = "\<lambda>v c. c\<lparr>socket_filepath := v\<rparr>", simplified]
  config_item_eq [where get_f = log_pool_records_min and put = "\<lambda>v c. c\<lparr>log_pool_records_min := v\<rparr>", simplified]
  config_item_eq [where get_f = log_pool_records_max and put = "\<lambda>v c. c\<lparr>log_pool_records_max := v\<rparr>", simplified]
  config_item_eq [where get_f = log_pool_records_delta and put = "\<lambda>v c. c\<lparr>log_pool_records_delta := v\<rparr>", simplified]
  config_item_eq [where get_f = push_wait_seconds_min and put = "\<lambda>v c. c\<lparr>push_wait_seconds_min := v\<rparr>", simplified]
  config_item_eq [where get_f = push_wait_seconds_max and put = "\<lambda>v c. c\<lparr>push_wait_seconds_max := v\<rparr>", simplified]
  config_item_eq [where get_f = push_wait_seconds_dt and put = "\<lambda>v c. c\<lparr>push_wait_seconds_dt := v\<rparr>", simplified]
  config_item_eq [where get_f = push_wait_seconds_dt_thresh and put = "\<lambda>v c. c\<lparr>push_wait_seconds_dt_thresh := v\<rparr>", simplified]

definition pamd_key :: "string list \<Rightarrow> cstr" where
  "pamd_key ks = key_path (''pamd'' # ks)"

lemma below_pamd:
  assumes "ls \<noteq> []" "\<forall>k \<in> set ls. key_ok k"
  shows "item_ok doc (yaml_helper_doc_node_at_path doc (Some n) ''pamd'') (key_path ls) get =
      item_ok doc (Some n) (pamd_key ls) get"
    "item_value doc (yaml_helper_doc_node_at_path doc (Some n) ''pamd'') (key_path ls) get d =
      item_value doc (Some n) (pamd_key ls) get d"
  using item_below [of "[''pamd'']" ls doc n] assms by (simp_all add: pamd_key_def key_ok_def)

lemma below_pamd_section:
  assumes "ls \<noteq> []" "ms \<noteq> []" "\<forall>k \<in> set (ls @ ms). key_ok k"
  shows "item_ok doc (yaml_helper_doc_node_at_path doc
        (yaml_helper_doc_node_at_path doc (Some n) ''pamd'') (key_path ls)) (key_path ms) get =
      item_ok doc (Some n) (pamd_key (ls @ ms)) get"
    "item_value doc (yaml_helper_doc_node_at_path doc
        (yaml_helper_doc_node_at_path doc (Some n) ''pamd'') (key_path ls)) (key_path ms) get d =
      item_value doc (Some n) (pamd_key (ls @ ms)) get d"
proof -
  have p: "yaml_helper_doc_node_at_path doc (yaml_helper_doc_node_at_path doc (Some n) ''pamd'') (key_path ls) =
      yaml_helper_doc_node_at_path doc (Some n) (pamd_key ls)"
    using path_below [of "[''pamd'']" ls doc n] assms by (simp add: pamd_key_def key_ok_def)
  show "item_ok doc (yaml_helper_doc_node_at_path doc
        (yaml_helper_doc_node_at_path doc (Some n) ''pamd'') (key_path ls)) (key_path ms) get =
      item_ok doc (Some n) (pamd_key (ls @ ms)) get"
    "item_value doc (yaml_helper_doc_node_at_path doc
        (yaml_helper_doc_node_at_path doc (Some n) ''pamd'') (key_path ls)) (key_path ms) get d =
      item_value doc (Some n) (pamd_key (ls @ ms)) get d"
    unfolding p using item_below [of "''pamd'' # ls" ms doc n] assms by (simp_all add: pamd_key_def key_ok_def)
qed

text \<open>Each section on its own: whether it is accepted and what it stores.\<close>

lemma pamd_records_result:
  "config_items (pamd_records_items doc node) c = (r, d) \<Longrightarrow>
    (r \<longleftrightarrow> (\<forall>k \<in> {''min'', ''max'', ''delta''}. item_ok doc node k yaml_helper_get_scalar_uint32_value)) \<and>
    (r \<longrightarrow> d = c\<lparr>
      log_pool_records_min := item_value doc node ''min'' yaml_helper_get_scalar_uint32_value (log_pool_records_min c),
      log_pool_records_max := item_value doc node ''max'' yaml_helper_get_scalar_uint32_value (log_pool_records_max c),
      log_pool_records_delta := item_value doc node ''delta'' yaml_helper_get_scalar_uint32_value (log_pool_records_delta c)\<rparr>)"
  by (simp add: pamd_records_items_def pamd_item_eqs split: if_splits)

lemma pamd_wait_result:
  "config_items (pamd_wait_items doc node) c = (r, d) \<Longrightarrow>
    (r \<longleftrightarrow> (\<forall>k \<in> {''min'', ''max'', ''delta'', ''grow-threshold''}. item_ok doc node k yaml_helper_get_scalar_int_value)) \<and>
    (r \<longrightarrow> d = c\<lparr>
      push_wait_seconds_min := item_value doc node ''min'' yaml_helper_get_scalar_int_value (push_wait_seconds_min c),
      push_wait_seconds_max := item_value doc node ''max'' yaml_helper_get_scalar_int_value (push_wait_seconds_max c),
      push_wait_seconds_dt := item_value doc node ''delta'' yaml_helper_get_scalar_int_value (push_wait_seconds_dt c),
      push_wait_seconds_dt_thresh := item_value doc node ''grow-threshold'' yaml_helper_get_scalar_int_value (push_wait_seconds_dt_thresh c)\<rparr>)"
  by (simp add: pamd_wait_items_def pamd_item_eqs split: if_splits)

lemma pamd_sections:
  "config_section doc node p (pamd_records_items doc) c =
    config_items (pamd_records_items doc (yaml_helper_doc_node_at_path doc node p)) c"
  "config_section doc node p (pamd_wait_items doc) c =
    config_items (pamd_wait_items doc (yaml_helper_doc_node_at_path doc node p)) c"
  "config_section doc node p (pamd_items doc) c =
    config_items (pamd_items doc (yaml_helper_doc_node_at_path doc node p)) c"
  by (intro config_section_eq pamd_items_NULL)+

lemma pamd_keys_ok:
  "key_ok ''socket-file''" "key_ok ''log-pool''" "key_ok ''records''" "key_ok ''push-wait-seconds''"
  "key_ok ''min''" "key_ok ''max''" "key_ok ''delta''" "key_ok ''grow-threshold''"
  by (simp_all add: key_ok_def)

text \<open>The nested lookups of the reader are lookups of one path.\<close>

lemma pamd_paths:
  assumes "key_ok k"
  shows "item_ok doc (yaml_helper_doc_node_at_path doc (yaml_helper_doc_node_at_path doc (Some n) ''pamd'')
      ''log-pool.records'') k get = item_ok doc (Some n) (pamd_key [''log-pool'', ''records'', k]) get"
    "item_ok doc (yaml_helper_doc_node_at_path doc (yaml_helper_doc_node_at_path doc (Some n) ''pamd'')
      ''log-pool.push-wait-seconds'') k get =
      item_ok doc (Some n) (pamd_key [''log-pool'', ''push-wait-seconds'', k]) get"
    "item_value doc (yaml_helper_doc_node_at_path doc (yaml_helper_doc_node_at_path doc (Some n) ''pamd'')
      ''log-pool.records'') k get x = item_value doc (Some n) (pamd_key [''log-pool'', ''records'', k]) get x"
    "item_value doc (yaml_helper_doc_node_at_path doc (yaml_helper_doc_node_at_path doc (Some n) ''pamd'')
      ''log-pool.push-wait-seconds'') k get x =
      item_value doc (Some n) (pamd_key [''log-pool'', ''push-wait-seconds'', k]) get x"
  using below_pamd_section [of "[''log-pool'', ''records'']" "[k]" doc n]
    below_pamd_section [of "[''log-pool'', ''push-wait-seconds'']" "[k]" doc n] assms
  by (simp_all add: pamd_keys_ok)

lemma pamd_socket_path:
  "item_ok doc (yaml_helper_doc_node_at_path doc (Some n) ''pamd'') ''socket-file'' get =
    item_ok doc (Some n) (pamd_key [''socket-file'']) get"
  "item_value doc (yaml_helper_doc_node_at_path doc (Some n) ''pamd'') ''socket-file'' get x =
    item_value doc (Some n) (pamd_key [''socket-file'']) get x"
  using below_pamd [of "[''socket-file'']" doc n] by (simp_all add: pamd_keys_ok)

text \<open>
  C32: what the daemon reads from its configuration file. With \<open>key\<close> the path of keys below
  \<open>pamd\<close>: the file is accepted exactly when each of the eight items is absent or has a value
  that converts; and then every variable has the value of its item, or keeps its default when
  the item is absent. The order of the items in the file and the nesting of the reader's
  conditions do not matter.
\<close>

theorem pamd_config_values:
  assumes "pamd_read_section doc (Some root) c = (ok, c')"
  shows "(ok \<longleftrightarrow>
      item_ok doc (Some root) (pamd_key [''socket-file'']) yaml_helper_get_scalar_value \<and>
      (\<forall>k \<in> {''min'', ''max'', ''delta''}.
        item_ok doc (Some root) (pamd_key [''log-pool'', ''records'', k]) yaml_helper_get_scalar_uint32_value) \<and>
      (\<forall>k \<in> {''min'', ''max'', ''delta'', ''grow-threshold''}.
        item_ok doc (Some root) (pamd_key [''log-pool'', ''push-wait-seconds'', k]) yaml_helper_get_scalar_int_value)) \<and>
    (ok \<longrightarrow> (let str = item_value doc (Some root) (pamd_key [''socket-file'']) yaml_helper_get_scalar_value;
         rec = \<lambda>k. item_value doc (Some root) (pamd_key [''log-pool'', ''records'', k]) yaml_helper_get_scalar_uint32_value;
         wait = \<lambda>k. item_value doc (Some root) (pamd_key [''log-pool'', ''push-wait-seconds'', k]) yaml_helper_get_scalar_int_value
       in c' = c\<lparr>socket_filepath := str (socket_filepath c),
                  log_pool_records_min := rec ''min'' (log_pool_records_min c),
                  log_pool_records_max := rec ''max'' (log_pool_records_max c),
                  log_pool_records_delta := rec ''delta'' (log_pool_records_delta c),
                  push_wait_seconds_min := wait ''min'' (push_wait_seconds_min c),
                  push_wait_seconds_max := wait ''max'' (push_wait_seconds_max c),
                  push_wait_seconds_dt := wait ''delta'' (push_wait_seconds_dt c),
                  push_wait_seconds_dt_thresh := wait ''grow-threshold'' (push_wait_seconds_dt_thresh c)\<rparr>))"
proof -
  let ?n = "yaml_helper_doc_node_at_path doc (Some root) ''pamd''"
  let ?rec = "yaml_helper_doc_node_at_path doc ?n ''log-pool.records''"
  let ?wait = "yaml_helper_doc_node_at_path doc ?n ''log-pool.push-wait-seconds''"
  let ?c = "c\<lparr>socket_filepath := item_value doc ?n ''socket-file'' yaml_helper_get_scalar_value (socket_filepath c)\<rparr>"
  obtain r1 d1 where records: "config_items (pamd_records_items doc ?rec) ?c = (r1, d1)" by fastforce
  obtain r2 d2 where waits: "config_items (pamd_wait_items doc ?wait) d1 = (r2, d2)" by fastforce
  have run: "(ok, c') =
      (if item_ok doc ?n ''socket-file'' yaml_helper_get_scalar_value
       then if r1 then (r2, d2) else (False, d1) else (False, ?c))"
    using assms records waits
    by (auto simp: pamd_read_section_def pamd_sections pamd_items_def pamd_item_eqs split: if_splits)
  show ?thesis
    using run pamd_records_result [OF records] pamd_wait_result [OF waits]
    by (auto simp: Let_def pamd_paths pamd_socket_path pamd_keys_ok split: if_splits)
qed

text \<open>
  A file with a CSV database and a first pool of no records:
  \<open>{database: {driver-name: csvfile, filename: f}, pamd: {log-pool: {records: {min: 0}}}}\<close>.
\<close>

definition pamd_doc :: yaml_document where
  "pamd_doc = map_of
     [(1, YAML_MAPPING_NODE [(2, 3), (8, 9)]), (2, YAML_SCALAR_NODE ''database''),
      (3, YAML_MAPPING_NODE [(4, 5), (6, 7)]), (4, YAML_SCALAR_NODE ''driver-name''),
      (5, YAML_SCALAR_NODE ''csvfile''), (6, YAML_SCALAR_NODE ''filename''), (7, YAML_SCALAR_NODE ''f''),
      (8, YAML_SCALAR_NODE ''pamd''), (9, YAML_MAPPING_NODE [(10, 11)]), (10, YAML_SCALAR_NODE ''log-pool''),
      (11, YAML_MAPPING_NODE [(12, 13)]), (12, YAML_SCALAR_NODE ''records''),
      (13, YAML_MAPPING_NODE [(14, 15)]), (14, YAML_SCALAR_NODE ''min''), (15, YAML_SCALAR_NODE ''0'')]"

definition pamd_root :: yaml_node where
  "pamd_root = YAML_MAPPING_NODE [(2, 3), (8, 9)]"

lemma pamd_lookup:
  "\<forall>k \<in> set ks. key_ok k \<Longrightarrow>
     yaml_helper_doc_node_at_path doc (Some n) (pamd_key ks) = lookup_keys doc n (''pamd'' # ks)"
  using path_lookup [of "''pamd'' # ks" doc n] by (simp add: pamd_key_def key_ok_def)

lemma pamd_doc_min:
  "yaml_helper_doc_node_at_path pamd_doc (Some pamd_root) (pamd_key [''log-pool'', ''records'', ''min'']) =
    Some (YAML_SCALAR_NODE ''0'')"
  by (simp add: pamd_lookup pamd_keys_ok mapping_entry_def pamd_doc_def pamd_root_def)

lemma pamd_doc_others:
  "yaml_helper_doc_node_at_path pamd_doc (Some pamd_root) (pamd_key [''socket-file'']) = None"
  "k \<in> {''max'', ''delta''} \<Longrightarrow>
    yaml_helper_doc_node_at_path pamd_doc (Some pamd_root) (pamd_key [''log-pool'', ''records'', k]) = None"
  "k \<in> {''min'', ''max'', ''delta'', ''grow-threshold''} \<Longrightarrow>
    yaml_helper_doc_node_at_path pamd_doc (Some pamd_root) (pamd_key [''log-pool'', ''push-wait-seconds'', k]) = None"
  by (auto simp: pamd_lookup pamd_keys_ok mapping_entry_def pamd_doc_def pamd_root_def)

lemma uint32_zero: "yaml_helper_get_scalar_uint32_value (YAML_SCALAR_NODE ''0'') = Some 0"
  using c_strtol_show_nat [of 0]
  by (simp add: yaml_helper_get_scalar_uint32_value_def cstr_of_no_nul show_nat_0)

theorem pamd_config_values_witness:
  "\<exists>c'. pamd_read_section pamd_doc (Some pamd_root) (pamd_config_default ''s'') = (True, c') \<and>
     log_pool_records_min c' = 0 \<and> log_pool_records_max c' = 0 \<and> push_wait_seconds_max c' = 600 \<and>
     socket_filepath c' = ''s''"
proof -
  let ?c = "pamd_config_default ''s''"
  obtain ok c' where r: "pamd_read_section pamd_doc (Some pamd_root) ?c = (ok, c')" by fastforce
  have ok: "ok"
    using pamd_config_values [OF r, THEN conjunct1]
    by (simp add: item_ok_def pamd_doc_min pamd_doc_others uint32_zero)
  then have "c' = ?c\<lparr>log_pool_records_min := 0\<rparr>"
    using pamd_config_values [OF r, THEN conjunct2]
    by (simp add: item_value_def Let_def pamd_doc_min pamd_doc_others uint32_zero pamd_config_default_def)
  with r ok show ?thesis by (simp add: pamd_config_default_def)
qed

lemma pamd_overrides_bounds:
  "pamd_overrides somaxconn os c = Some c' \<Longrightarrow>
     0 \<le> socket_backlog c \<and> socket_backlog c \<le> m \<and> somaxconn \<le> m \<Longrightarrow>
     0 \<le> socket_poll_interval c \<and> socket_poll_interval c \<le> INT_MAX \<Longrightarrow>
     0 \<le> socket_backlog c' \<and> socket_backlog c' \<le> m \<and> 0 \<le> socket_poll_interval c' \<and>
     socket_poll_interval c' \<le> INT_MAX"
  by (induction somaxconn os c rule: pamd_overrides.induct) (auto split: option.splits if_splits)

lemma pamd_main_started:
  assumes "pamd_main b dbm lqm st un somaxconn src opts c0 = Started c h lq"
  obtains c1 e where "pamd_overrides somaxconn opts c1 = Some c"
    "pamd_config_read_yaml_file b dbm src c0 = Config_read True c1 (Some (Some h))"
    "db_has_valid_configuration (Some h) (Some None) = (True, e)"
    "\<not> (log_pool_records_max c \<noteq> 0 \<and> log_pool_records_min c > log_pool_records_max c)"
    "\<not> (push_wait_seconds_max c \<noteq> 0 \<and> push_wait_seconds_min c > push_wait_seconds_max c)"
    "log_queue_create lqm (Some (pamd_lq_params c)) = Some lq"
  using assms
  by (auto simp: pamd_main_def pamd_config_validate_def split: config_outcome.splits option.splits if_splits prod.splits sum.splits)

lemma pamd_read_file:
  assumes "pamd_config_read_yaml_file b dbm src c0 = Config_read True c1 (Some (Some h))"
  obtains doc root where "src = Document doc (Some root)" "pamd_read_section doc (Some root) c0 = (True, c1)"
    "handle_options h = db_options_no_firewall"
  using assms
  by (auto simp: pamd_config_read_yaml_file_def config_read_source_def config_read_document_def
      config_database_def db_alloc_options
      split: config_source.splits option.splits yaml_node.splits db_alloc_result.splits prod.splits)

lemma pamd_section_keeps:
  "pamd_read_section doc root c = (ok, c') \<Longrightarrow>
     socket_backlog c' = socket_backlog c \<and> socket_poll_interval c' = socket_poll_interval c"
  by (auto simp: pamd_read_section_def pamd_sections pamd_items_def pamd_item_eqs pamd_records_items_def
      pamd_wait_items_def split: if_splits)

text \<open>
  C31: what holds when the daemon starts its threads, from whatever file and options. The
  database's configuration is valid and the firewall functions are switched off; the minima do
  not exceed the maxima that are set; the command line's numbers are in range; the queue is
  empty, has the configured parameters and satisfies its invariant exactly when the first
  pool and the growth are not 0. Nothing rejects a first pool of 0 records: then the first
  event pushed is an invalid memory access.
\<close>

theorem pamd_start_state:
  assumes "pamd_main b dbm lqm st un somaxconn src opts (pamd_config_default s) = Started c h lq"
  shows "fst (db_has_valid_configuration (Some h) (Some None)) \<and>
    handle_options h = db_options_no_firewall \<and>
    (log_pool_records_max c \<noteq> 0 \<longrightarrow> log_pool_records_min c \<le> log_pool_records_max c) \<and>
    (push_wait_seconds_max c \<noteq> 0 \<longrightarrow> push_wait_seconds_min c \<le> push_wait_seconds_max c) \<and>
    0 \<le> socket_backlog c \<and> socket_backlog c \<le> max 5 somaxconn \<and>
    0 \<le> socket_poll_interval c \<and> socket_poll_interval c \<le> INT_MAX \<and>
    params lq = pamd_lq_params c \<and> lq_abs lq = [] \<and>
    (lq_inv lq \<longleftrightarrow> log_pool_records_min c \<noteq> 0 \<and> log_pool_records_delta c \<noteq> 0) \<and>
    (log_pool_records_min c = 0 \<longrightarrow> log_queue_push ((True, True, others) # rounds) lq d = None)"
proof -
  from assms obtain c1 e where c1: "pamd_overrides somaxconn opts c1 = Some c"
    "pamd_config_read_yaml_file b dbm src (pamd_config_default s) = Config_read True c1 (Some (Some h))"
    "db_has_valid_configuration (Some h) (Some None) = (True, e)"
    "\<not> (log_pool_records_max c \<noteq> 0 \<and> log_pool_records_min c > log_pool_records_max c)"
    "\<not> (push_wait_seconds_max c \<noteq> 0 \<and> push_wait_seconds_min c > push_wait_seconds_max c)"
    "log_queue_create lqm (Some (pamd_lq_params c)) = Some lq"
    by (rule pamd_main_started)
  from c1(2) obtain doc root where doc: "pamd_read_section doc (Some root) (pamd_config_default s) = (True, c1)"
    "handle_options h = db_options_no_firewall" by (rule pamd_read_file)
  have bounds: "0 \<le> socket_backlog c \<and> socket_backlog c \<le> max 5 somaxconn \<and>
      0 \<le> socket_poll_interval c \<and> socket_poll_interval c \<le> INT_MAX"
    using pamd_overrides_bounds [OF c1(1), of "max 5 somaxconn"] pamd_section_keeps [OF doc(1)]
    by (simp add: pamd_config_default_def)
  have lq: "log_queue_create True (Some (pamd_lq_params c)) = Some lq"
    using c1(6) by (cases lqm) (simp_all add: log_queue_create_def)
  have ok: "params_ok (pamd_lq_params c) \<longleftrightarrow> log_pool_records_min c \<noteq> 0 \<and> log_pool_records_delta c \<noteq> 0"
    using c1(4) by (auto simp: params_ok_def pamd_lq_params_def)
  show ?thesis
    using c1(3-5) doc(2) bounds create_inv_iff [OF lq] ok push_no_first_pool [OF lq, of others rounds d]
    by (auto simp: pamd_lq_params_def)
qed

definition build_all :: build where
  "build_all = \<lparr>HAVE_POSTGRESQL = True, HAVE_SQLITE3 = True, HAVE_MYSQL = True\<rparr>"

text \<open>The sample file, read step by step.\<close>

lemma pamd_doc_steps:
  "yaml_helper_doc_node_at_path pamd_doc (Some pamd_root) ''database'' = Some (YAML_MAPPING_NODE [(4, 5), (6, 7)])"
  "yaml_helper_doc_node_at_path pamd_doc (Some (YAML_MAPPING_NODE [(4, 5), (6, 7)])) ''driver-name'' =
     Some (YAML_SCALAR_NODE ''csvfile'')"
  "yaml_helper_doc_node_at_path pamd_doc (Some (YAML_MAPPING_NODE [(4, 5), (6, 7)])) ''filename'' =
     Some (YAML_SCALAR_NODE ''f'')"
  "yaml_helper_doc_node_at_path pamd_doc (Some (YAML_MAPPING_NODE [(4, 5), (6, 7)])) ''delimiter'' = None"
  "yaml_helper_doc_node_at_path pamd_doc (Some pamd_root) ''pamd'' = Some (YAML_MAPPING_NODE [(10, 11)])"
  "yaml_helper_doc_node_at_path pamd_doc (Some (YAML_MAPPING_NODE [(10, 11)])) ''socket-file'' = None"
  "yaml_helper_doc_node_at_path pamd_doc (Some (YAML_MAPPING_NODE [(10, 11)])) ''log-pool.records'' =
     Some (YAML_MAPPING_NODE [(14, 15)])"
  "yaml_helper_doc_node_at_path pamd_doc (Some (YAML_MAPPING_NODE [(10, 11)])) ''log-pool.push-wait-seconds'' = None"
  "yaml_helper_doc_node_at_path pamd_doc (Some (YAML_MAPPING_NODE [(14, 15)])) ''min'' = Some (YAML_SCALAR_NODE ''0'')"
  "yaml_helper_doc_node_at_path pamd_doc (Some (YAML_MAPPING_NODE [(14, 15)])) ''max'' = None"
  "yaml_helper_doc_node_at_path pamd_doc (Some (YAML_MAPPING_NODE [(14, 15)])) ''delta'' = None"
  using path_lookup [of "[k]" pamd_doc n for k n]
    path_lookup [of "[''log-pool'', ''records'']" pamd_doc "YAML_MAPPING_NODE [(10, 11)]"]
    path_lookup [of "[''log-pool'', ''push-wait-seconds'']" pamd_doc "YAML_MAPPING_NODE [(10, 11)]"]
  by (simp_all add: key_ok_def mapping_entry_def pamd_doc_def pamd_root_def)

lemma pamd_doc_read: "pamd_read_section pamd_doc (Some pamd_root) c = (True, c\<lparr>log_pool_records_min := 0\<rparr>)"
  by (simp add: pamd_read_section_def config_section_def pamd_items_defs config_item_def pamd_doc_steps uint32_zero)

definition pamd_sample_db :: db_handle where
  "pamd_sample_db = Db_csvfile (db_instance.extend (db_instance_base\<lparr>options := db_options_no_firewall\<rparr>)
     \<lparr>filename = ''f'', fptr = False, delimiter = '',''\<rparr>)"

lemma pamd_doc_db:
  "db_alloc build_all True None pamd_doc (Some (YAML_MAPPING_NODE [(4, 5), (6, 7)])) db_options_no_firewall =
    Allocated (Some pamd_sample_db)"
proof -
  have "db_driver_lookup build_all ''csvfile'' = Some Csvfile"
    by (simp add: db_driver_lookup_def db_drivers_def c_strcaseeq_def)
  then show ?thesis
    by (simp add: db_alloc_def conf_node_def conf_scalar_def pamd_doc_steps yaml_helper_get_scalar_value_def
        cstr_of_no_nul driver_alloc_def csvfile_alloc_def pamd_sample_db_def db_instance.defs db_instance_base_def)
qed

lemma pamd_main_sample:
  "pamd_main build_all True True (- 1) 0 128 (Document pamd_doc (Some pamd_root)) [Opt_other]
     (pamd_config_default ''s'') =
   Started ((pamd_config_default ''s'')\<lparr>log_pool_records_min := 0\<rparr>) pamd_sample_db
     (the (log_queue_create True (Some (pamd_lq_params ((pamd_config_default ''s'')\<lparr>log_pool_records_min := 0\<rparr>)))))"
proof -
  have "db_has_valid_configuration (Some pamd_sample_db) e = (True, e)" for e
    by (simp add: db_has_valid_configuration_def pamd_sample_db_def csvfile_has_valid_configuration_def)
  then show ?thesis
    by (simp add: pamd_main_def pamd_config_read_yaml_file_def config_read_source_def config_read_document_def
        config_database_def pamd_doc_steps(1) pamd_doc_db pamd_doc_read pamd_config_validate_def
        log_queue_create_def pamd_config_default_def pamd_root_def [symmetric] split: yaml_node.splits)
      (simp add: pamd_root_def)
qed

theorem pamd_start_state_witness:
  "\<exists>c h lq. pamd_main build_all True True (- 1) 0 128 (Document pamd_doc (Some pamd_root)) [Opt_other]
       (pamd_config_default ''s'') = Started c h lq \<and>
     lq_abs lq = [] \<and> \<not> lq_inv lq \<and> log_queue_push [(True, True, id)] lq sample_event = None"
  using pamd_start_state [OF pamd_main_sample, of id "[]" sample_event] pamd_main_sample by simp

end
