(* ===== verification/Pamd.thy ===== *)
theory Pamd
  imports Pamd_Config
begin

text \<open>
  The threads of \<open>src/pam-daemon/iptracking-pamd.c\<close>: the database thread, the event thread, the
  shutdown thread and the signal handler, sharing \<open>is_running\<close>, the event queue and the
  condition variables. Each thread is a program counter and a function from the shared state
  to the next; a step of the daemon is a step of one of them, a signal, or a spurious wakeup.
  What a critical section does is one step, and so is the signal handler; \<open>Pamd_Signals\<close> has the
  locks and the handler inside the thread it interrupts. Database and sockets are parameters.
\<close>

section \<open>The shared state\<close>

text \<open>\<open>db_thread_entry\<close> and \<open>db_runloop\<close>.\<close>

datatype db_pc =
    Db_outer
  | Db_open
  | Db_loop
  | Db_pop
  | Db_wait
  | Db_woken
  | Db_log log_data
  | Db_close
  | Db_done

text \<open>\<open>event_thread_entry\<close>; \<open>Ev_push\<close> has the record and the state of the wait in \<open>log_queue_push\<close>.\<close>

datatype ev_pc =
    Ev_outer
  | Ev_socket
  | Ev_listen
  | Ev_poll
  | Ev_accept
  | Ev_recv
  | Ev_push log_data "int \<times> int"
  | Ev_done

datatype sh_pc = Sh_start | Sh_wait | Sh_woken | Sh_interrupt | Sh_done

text \<open>
  \<open>socket_file\<close>: the path of the socket exists. \<open>server_fds\<close>: the number of server sockets
  that are open. \<open>accepted\<close> and \<open>logged\<close> record the history: the events put into the queue, and
  the events given to \<open>db_log_one_event\<close> with its result.
\<close>

record pamd_state =
  is_running :: bool
  db_pc :: db_pc
  ev_pc :: ev_pc
  sh_pc :: sh_pc
  queue :: log_queue
  db :: "db_handle option dbs"
  socket_file :: bool
  server_fds :: nat
  accepted :: "log_data list"
  logged :: "(log_data \<times> bool) list"

definition pamd_init :: "db_handle \<Rightarrow> log_queue \<Rightarrow> pamd_state" where
  "pamd_init h lq =
     \<lparr>is_running = True, db_pc = Db_outer, ev_pc = Ev_outer, sh_pc = Sh_start, queue = lq,
      db = \<lparr>calls = [], inst = Some h, err = None\<rparr>, socket_file = False, server_fds = 0,
      accepted = [], logged = []\<rparr>"

text \<open>The event thread ends the process when the path does not fit into \<open>sun_path\<close>.\<close>

definition event_path_ok :: "cstr \<Rightarrow> bool" where
  "event_path_ok path \<longleftrightarrow> length path < 108"

datatype 's outcome = Step 's | Blocked | Crash

text \<open>\<open>pthread_cond_broadcast(&lq->data_ready)\<close>.\<close>

definition data_ready :: "pamd_state \<Rightarrow> pamd_state" where
  "data_ready s = (if db_pc s = Db_wait then s\<lparr>db_pc := Db_woken\<rparr> else s)"

section \<open>The database thread\<close>

text \<open>Take the oldest record, or go on without one.\<close>

definition db_take :: "pamd_state \<Rightarrow> pamd_state outcome" where
  "db_take s =
     (case lq_take (queue s) of
        None \<Rightarrow> Crash
      | Some (None, q) \<Rightarrow> Step (s\<lparr>queue := q, db_pc := Db_loop\<rparr>)
      | Some (Some d, q) \<Rightarrow> Step (s\<lparr>queue := q, db_pc := Db_log d\<rparr>))"

definition db_thread_step :: "db_library \<Rightarrow> pamd_state \<Rightarrow> pamd_state outcome" where
  "db_thread_step lib s =
     (case db_pc s of
        Db_outer \<Rightarrow>
          Step (if is_running s then s\<lparr>db_pc := Db_open, db := (db s)\<lparr>err := Some None\<rparr>\<rparr>
                else s\<lparr>db_pc := Db_done\<rparr>)
      | Db_open \<Rightarrow>
          Step (if is_running s
                then (case db_open lib (db s) of
                        (ok, w) \<Rightarrow> s\<lparr>db := w, db_pc := (if ok then Db_loop else Db_open)\<rparr>)
                else s\<lparr>db_pc := Db_loop\<rparr>)
      | Db_loop \<Rightarrow> Step (s\<lparr>db_pc := (if is_running s then Db_pop else Db_close)\<rparr>)
      | Db_pop \<Rightarrow> (if used_head (queue s) = None then Step (s\<lparr>db_pc := Db_wait\<rparr>) else db_take s)
      | Db_wait \<Rightarrow> Blocked
      | Db_woken \<Rightarrow> db_take s
      | Db_log d \<Rightarrow>
          Step (case db_log_one_event lib d (db s) of
                  (ok, w) \<Rightarrow> s\<lparr>db := w, logged := logged s @ [(d, ok)], db_pc := Db_loop\<rparr>)
      | Db_close \<Rightarrow>
          Step (s\<lparr>db := snd (db_close lib ((db s)\<lparr>err := None\<rparr>)), db_pc := Db_outer\<rparr>)
      | Db_done \<Rightarrow> Blocked)"

section \<open>The event thread\<close>

abbreviation EINTR :: int where "EINTR \<equiv> 4"
abbreviation ECONNABORTED :: int where "ECONNABORTED \<equiv> 103"
abbreviation POLLIN :: "16 word" where "POLLIN \<equiv> 1"

text \<open>
  What the operating system answers. \<open>recv_result\<close>: the bytes \<open>recv\<close> returns with, none of them
  when it fails; \<open>None\<close> as long as the client has not sent a whole record, keeps the
  connection, and no signal interrupts the call.
\<close>

datatype accept_result = Accept_failed int | Accepted

record ev_env =
  socket_ok :: bool
  fcntl_ok :: bool
  bind_ok :: bool
  listen_ok :: bool
  poll_result :: int
  poll_errno :: int
  poll_revents :: "16 word"
  accept_result :: accept_result
  recv_result :: "char list option"
  calloc_ok :: bool
  realloc_ok :: bool
  realloc_moves :: bool

text \<open>\<open>is_polling\<close> and \<open>is_accepting\<close> after a call of \<open>poll\<close>.\<close>

definition poll_turn :: "ev_env \<Rightarrow> bool \<times> bool" where
  "poll_turn env =
     (if poll_result env = - 1 then (if poll_errno env = EINTR then (True, True) else (False, False))
      else if poll_result env = 0 then (True, True)
      else ((poll_revents env OR POLLIN) \<noteq> POLLIN, True))"

text \<open>What \<open>recv\<close> delivered: a record, when it is complete and valid.\<close>

definition event_received :: "char list \<Rightarrow> log_data option" where
  "event_received bytes =
     (if length bytes = 128 \<and> log_data_is_valid (Some (log_data_of_bytes bytes))
      then Some (log_data_of_bytes bytes) else None)"

text \<open>
  Setting up the socket. \<open>bind\<close> fails when the path exists and creates it otherwise; every
  failure is followed by \<open>sleep(5)\<close> and another turn. The socket is not closed when \<open>fcntl\<close>
  fails.
\<close>

definition event_setup :: "ev_env \<Rightarrow> pamd_state \<Rightarrow> pamd_state" where
  "event_setup env s =
     (if \<not> socket_ok env then s\<lparr>ev_pc := Ev_outer\<rparr>
      else if \<not> fcntl_ok env then s\<lparr>server_fds := server_fds s + 1, ev_pc := Ev_outer\<rparr>
      else if socket_file s \<or> \<not> bind_ok env then s\<lparr>ev_pc := Ev_outer\<rparr>
      else if \<not> listen_ok env then s\<lparr>socket_file := True, ev_pc := Ev_outer\<rparr>
      else s\<lparr>socket_file := True, server_fds := server_fds s + 1, ev_pc := Ev_listen\<rparr>)"

definition event_close :: "pamd_state \<Rightarrow> pamd_state" where
  "event_close s = s\<lparr>server_fds := server_fds s - 1, ev_pc := Ev_outer\<rparr>"

definition event_accept :: "ev_env \<Rightarrow> pamd_state \<Rightarrow> pamd_state" where
  "event_accept env s =
     (case accept_result env of
        Accept_failed e \<Rightarrow> if e = ECONNABORTED \<or> e = EINTR then s\<lparr>ev_pc := Ev_listen\<rparr> else event_close s
      | Accepted \<Rightarrow> s\<lparr>ev_pc := Ev_recv\<rparr>)"

text \<open>\<open>recv\<close> with \<open>MSG_WAITALL\<close> on a socket that blocks.\<close>

definition event_recv :: "ev_env \<Rightarrow> pamd_state \<Rightarrow> pamd_state outcome" where
  "event_recv env s =
     (case recv_result env of
        None \<Rightarrow> Blocked
      | Some bytes \<Rightarrow>
          Step (case event_received bytes of
                  None \<Rightarrow> s\<lparr>ev_pc := Ev_listen\<rparr>
                | Some d \<Rightarrow> s\<lparr>ev_pc := Ev_push d (wait_min (params (queue s)), 1)\<rparr>))"

text \<open>
  A growing queue is reallocated with its lock and its condition variable. When \<open>realloc\<close> moves it,
  a database thread inside \<open>pthread_cond_wait\<close> is left on the released block: it waits on a
  condition variable, and will lock a mutex, that no longer exist.
\<close>

definition queue_moved :: "ev_env \<Rightarrow> log_queue \<Rightarrow> log_queue \<Rightarrow> bool" where
  "queue_moved env q q' \<longleftrightarrow> realloc_moves env \<and> rec_pools q' \<noteq> rec_pools q"

definition in_cond_wait :: "db_pc \<Rightarrow> bool" where
  "in_cond_wait p \<longleftrightarrow> p = Db_wait \<or> p = Db_woken"

text \<open>One attempt of \<open>log_queue_push\<close>, with the sleep that follows it at the limit.\<close>

definition event_push :: "ev_env \<Rightarrow> log_data \<Rightarrow> int \<times> int \<Rightarrow> pamd_state \<Rightarrow> pamd_state outcome" where
  "event_push env d w s =
     (case push_attempt (calloc_ok env) (realloc_ok env) (queue s) d of
        None \<Rightarrow> Crash
      | Some (a, q) \<Rightarrow>
          if queue_moved env (queue s) q \<and> in_cond_wait (db_pc s) then Crash
          else (case a of
                  Stored \<Rightarrow>
                    Step (data_ready (s\<lparr>queue := q, accepted := accepted s @ [d], ev_pc := Ev_listen\<rparr>))
                | At_Limit \<Rightarrow> Step (s\<lparr>queue := q, ev_pc := Ev_push d (push_wait_next (params q) w)\<rparr>)
                | No_Memory \<Rightarrow> Step (s\<lparr>queue := q, ev_pc := Ev_listen\<rparr>)))"

definition event_thread_step :: "ev_env \<Rightarrow> pamd_state \<Rightarrow> pamd_state outcome" where
  "event_thread_step env s =
     (case ev_pc s of
        Ev_outer \<Rightarrow> Step (s\<lparr>ev_pc := (if is_running s then Ev_socket else Ev_done)\<rparr>)
      | Ev_socket \<Rightarrow> Step (event_setup env s)
      | Ev_listen \<Rightarrow> Step (if is_running s then s\<lparr>ev_pc := Ev_poll\<rparr> else event_close s)
      | Ev_poll \<Rightarrow>
          Step (if is_running s
                then (case poll_turn env of
                        (is_polling, is_accepting) \<Rightarrow>
                          if is_polling then s
                          else if is_accepting then s\<lparr>ev_pc := Ev_accept\<rparr>
                          else event_close s)
                else s\<lparr>ev_pc := Ev_listen\<rparr>)
      | Ev_accept \<Rightarrow> Step (if is_running s then event_accept env s else s\<lparr>ev_pc := Ev_listen\<rparr>)
      | Ev_recv \<Rightarrow> event_recv env s
      | Ev_push d w \<Rightarrow> event_push env d w s
      | Ev_done \<Rightarrow> Blocked)"

section \<open>Shutdown\<close>

text \<open>
  The shutdown thread takes the mutex and waits in one step. A signal that arrives while it
  does not wait is not remembered.
\<close>

definition shutdown_thread_step :: "pamd_state \<Rightarrow> pamd_state outcome" where
  "shutdown_thread_step s =
     (case sh_pc s of
        Sh_start \<Rightarrow> Step (s\<lparr>sh_pc := Sh_wait\<rparr>)
      | Sh_wait \<Rightarrow> Blocked
      | Sh_woken \<Rightarrow> Step (s\<lparr>is_running := False, sh_pc := Sh_interrupt\<rparr>)
      | Sh_interrupt \<Rightarrow> Step (data_ready (s\<lparr>sh_pc := Sh_done\<rparr>))
      | Sh_done \<Rightarrow> Blocked)"

definition handle_termination :: "pamd_state \<Rightarrow> pamd_state" where
  "handle_termination s = (if sh_pc s = Sh_wait then s\<lparr>sh_pc := Sh_woken\<rparr> else s)"

text \<open>
  The end of \<open>main\<close>, when the three threads have been joined: the socket's path is removed,
  the database and the queue are released.
\<close>

definition pamd_joined :: "pamd_state \<Rightarrow> bool" where
  "pamd_joined s \<longleftrightarrow> db_pc s = Db_done \<and> ev_pc s = Ev_done \<and> sh_pc s = Sh_done"

definition pamd_finish ::
  "bool \<Rightarrow> db_library \<Rightarrow> pamd_state \<Rightarrow> bool \<times> db_call list \<times> (addr \<Rightarrow> log_record option)" where
  "pamd_finish unlink_ok lib s =
     (socket_file s \<and> \<not> unlink_ok, db_dealloc lib (db s), snd (log_queue_destroy (Some (queue s))))"

section \<open>The daemon\<close>

inductive pamd_step :: "db_library \<Rightarrow> pamd_state \<Rightarrow> pamd_state \<Rightarrow> bool" for lib where
  db_thread: "db_thread_step lib s = Step t \<Longrightarrow> pamd_step lib s t"
| event_thread: "event_thread_step env s = Step t \<Longrightarrow> pamd_step lib s t"
| shutdown_thread: "shutdown_thread_step s = Step t \<Longrightarrow> pamd_step lib s t"
| signal: "pamd_step lib s (handle_termination s)"
| spurious_pop: "db_pc s = Db_wait \<Longrightarrow> pamd_step lib s (s\<lparr>db_pc := Db_woken\<rparr>)"
| spurious_shutdown: "sh_pc s = Sh_wait \<Longrightarrow> pamd_step lib s (s\<lparr>sh_pc := Sh_woken\<rparr>)"

inductive pamd_reachable :: "db_library \<Rightarrow> pamd_state \<Rightarrow> pamd_state \<Rightarrow> bool" for lib and s0 where
  start: "pamd_reachable lib s0 s0"
| step: "pamd_reachable lib s0 s \<Longrightarrow> pamd_step lib s t \<Longrightarrow> pamd_reachable lib s0 t"

inductive_cases pamd_stepE: "pamd_step lib s t"

end
