(* ===== verification/Pamd_Correct.thy ===== *)
theory Pamd_Correct
  imports Pamd
begin

text \<open>
  The event daemon over all interleavings of its threads: what holds in every reachable state,
  what reaches the database, and what happens at shutdown.
\<close>

section \<open>The invariant\<close>

text \<open>The event taken from the queue and not yet given to the database.\<close>

definition pending :: "pamd_state \<Rightarrow> log_data list" where
  "pending s = (case db_pc s of Db_log d \<Rightarrow> [d] | _ \<Rightarrow> [])"

definition acked :: "pamd_state \<Rightarrow> log_data list" where
  "acked s = map fst (filter snd (logged s))"

definition listening :: "ev_pc \<Rightarrow> bool" where
  "listening p \<longleftrightarrow> (case p of Ev_listen \<Rightarrow> True | Ev_poll \<Rightarrow> True | Ev_accept \<Rightarrow> True | Ev_recv \<Rightarrow> True | Ev_push d w \<Rightarrow> True | _ \<Rightarrow> False)"

definition valid_event :: "log_data \<Rightarrow> bool" where
  "valid_event d \<longleftrightarrow> log_data_is_valid (Some d)"

definition queue_ok :: "log_queue_params \<Rightarrow> pamd_state \<Rightarrow> bool" where
  "queue_ok ps s \<longleftrightarrow> lq_inv (queue s) \<and> params (queue s) = ps \<and>
     accepted s = map fst (logged s) @ pending s @ lq_abs (queue s)"

definition events_ok :: "pamd_state \<Rightarrow> bool" where
  "events_ok s \<longleftrightarrow> list_all valid_event (accepted s) \<and>
     (case ev_pc s of Ev_push d w \<Rightarrow> valid_event d | _ \<Rightarrow> True)"

definition socket_inv :: "pamd_state \<Rightarrow> bool" where
  "socket_inv s \<longleftrightarrow> (listening (ev_pc s) \<longrightarrow> socket_file s \<and> 0 < server_fds s)"

definition shutdown_ok :: "pamd_state \<Rightarrow> bool" where
  "shutdown_ok s \<longleftrightarrow> (is_running s \<longleftrightarrow> sh_pc s \<in> {Sh_start, Sh_wait, Sh_woken}) \<and>
     (db_pc s \<in> {Db_close, Db_done} \<or> ev_pc s = Ev_done \<longrightarrow> \<not> is_running s)"

lemma pending_upd [simp]:
  "pending (s\<lparr>queue := q\<rparr>) = pending s" "pending (s\<lparr>accepted := a\<rparr>) = pending s"
  "pending (s\<lparr>ev_pc := p\<rparr>) = pending s" "pending (s\<lparr>sh_pc := p'\<rparr>) = pending s"
  "pending (s\<lparr>is_running := b\<rparr>) = pending s" "pending (s\<lparr>logged := l\<rparr>) = pending s"
  "pending (s\<lparr>db := w\<rparr>) = pending s" "pending (s\<lparr>socket_file := b\<rparr>) = pending s"
  "pending (s\<lparr>server_fds := n\<rparr>) = pending s"
  by (simp_all add: pending_def)

lemma data_ready_simps [simp]:
  "queue (data_ready s) = queue s" "accepted (data_ready s) = accepted s" "logged (data_ready s) = logged s"
  "ev_pc (data_ready s) = ev_pc s" "is_running (data_ready s) = is_running s" "sh_pc (data_ready s) = sh_pc s"
  "db (data_ready s) = db s" "socket_file (data_ready s) = socket_file s"
  "server_fds (data_ready s) = server_fds s" "pending (data_ready s) = pending s"
  by (simp_all add: data_ready_def pending_def)

lemma db_pc_data_ready: "db_pc (data_ready s) = (if db_pc s = Db_wait then Db_woken else db_pc s)"
  by (simp add: data_ready_def)

lemma handle_termination_simps [simp]:
  "queue (handle_termination s) = queue s" "accepted (handle_termination s) = accepted s"
  "logged (handle_termination s) = logged s" "ev_pc (handle_termination s) = ev_pc s"
  "db_pc (handle_termination s) = db_pc s" "is_running (handle_termination s) = is_running s"
  "db (handle_termination s) = db s" "socket_file (handle_termination s) = socket_file s"
  "server_fds (handle_termination s) = server_fds s" "pending (handle_termination s) = pending s"
  by (simp_all add: handle_termination_def pending_def)

text \<open>Taking from a consistent queue never fails.\<close>

lemma db_take_cases:
  assumes "lq_inv (queue s)"
  obtains q where "lq_abs (queue s) = []" "db_take s = Step (s\<lparr>queue := q, db_pc := Db_loop\<rparr>)"
      "lq_inv q" "params q = params (queue s)" "lq_abs q = []"
  | d q where "lq_abs (queue s) = d # lq_abs q" "db_take s = Step (s\<lparr>queue := q, db_pc := Db_log d\<rparr>)"
      "lq_inv q" "params q = params (queue s)"
proof -
  obtain q where q: "lq_take (queue s) = Some (case lq_abs (queue s) of [] \<Rightarrow> None | x # _ \<Rightarrow> Some x, q)"
    "lq_inv q" "params q = params (queue s)" "lq_abs q = tl (lq_abs (queue s))"
    using lq_take_law [OF assms] by blast
  show thesis
    by (cases "lq_abs (queue s)") (use q that in \<open>auto simp: db_take_def\<close>)
qed

text \<open>The pools of a queue change only when one is added, which is when no record is free.\<close>

lemma link_pool_pools: "link_pool n p lq = Some lq' \<Longrightarrow> rec_pools lq' = rec_pools lq"
  by (induction n arbitrary: p lq)
    (auto simp: set_link_def split: bind_splits option.splits)

lemma take_free_pools: "take_free lq = Some (a, lq') \<Longrightarrow> rec_pools lq' = rec_pools lq"
  by (auto simp: take_free_def set_link_def split: bind_splits option.splits)

lemma push_attempt_pools:
  assumes "push_attempt c r lq d = Some (a, q)"
  shows "rec_pools q = (if a = Stored \<and> n_rec_free lq = 0 then rec_pools lq @ [next_block lq] else rec_pools lq)"
  using assms
  by (auto simp: push_attempt_def log_queue_alloc_record_def log_queue_add_pool_def log_record_create_def
      set_data_def dest!: link_pool_pools take_free_pools split: bind_splits option.splits if_splits)

lemma event_push_cases:
  assumes "lq_inv (queue s)"
  obtains q where "event_push env d w s = Step (data_ready (s\<lparr>queue := q, accepted := accepted s @ [d], ev_pc := Ev_listen\<rparr>))"
      "lq_inv q" "params q = params (queue s)" "lq_abs q = lq_abs (queue s) @ [d]"
      "length (lq_abs (queue s)) < records_limit (params (queue s))"
  | "event_push env d w s = Step (s\<lparr>ev_pc := Ev_push d (push_wait_next (params (queue s)) w)\<rparr>)"
      "length (lq_abs (queue s)) = records_limit (params (queue s))"
  | "event_push env d w s = Step (s\<lparr>ev_pc := Ev_listen\<rparr>)" "\<not> (calloc_ok env \<and> realloc_ok env)"
      "length (lq_abs (queue s)) \<noteq> records_limit (params (queue s))"
  | "event_push env d w s = Crash" "realloc_moves env" "in_cond_wait (db_pc s)" "n_rec_free (queue s) = 0"
      "length (lq_abs (queue s)) < records_limit (params (queue s))"
proof -
  obtain a q where a: "push_attempt (calloc_ok env) (realloc_ok env) (queue s) d = Some (a, q)" "lq_inv q"
    "a = At_Limit \<longleftrightarrow> length (lq_abs (queue s)) = records_limit (params (queue s))"
    "a = No_Memory \<longrightarrow> \<not> (calloc_ok env \<and> realloc_ok env)" "params q = params (queue s)"
    "if a = Stored then lq_abs q = lq_abs (queue s) @ [d] else q = queue s"
    using push_attempt_spec [OF assms, of "calloc_ok env" "realloc_ok env" d] by blast
  note limit = inv_limit [OF assms] and pools = push_attempt_pools [OF a(1)]
  show thesis
  proof (cases a)
    case Stored
    show ?thesis
    proof (cases "queue_moved env (queue s) q \<and> in_cond_wait (db_pc s)")
      case True
      then have "event_push env d w s = Crash" "n_rec_free (queue s) = 0"
        using a(1) pools by (auto simp: event_push_def queue_moved_def split: if_splits)
      then show ?thesis using that(4) True Stored a(3) limit by (simp add: queue_moved_def)
    next
      case False
      then have "event_push env d w s =
          Step (data_ready (s\<lparr>queue := q, accepted := accepted s @ [d], ev_pc := Ev_listen\<rparr>))"
        using Stored a(1) by (simp add: event_push_def)
      then show ?thesis using that(1) [of q] Stored a limit by simp
    qed
  next
    case At_Limit
    then show ?thesis using that(2) a by (simp add: event_push_def queue_moved_def)
  next
    case No_Memory
    then show ?thesis using that(3) a by (simp add: event_push_def queue_moved_def)
  qed
qed

section \<open>Every step keeps it\<close>

lemma queue_ok_db:
  assumes "queue_ok ps s" "db_thread_step lib s = Step t"
  shows "queue_ok ps t"
proof -
  have q: "lq_inv (queue s)" "params (queue s) = ps"
    and acc: "accepted s = map fst (logged s) @ pending s @ lq_abs (queue s)"
    using assms(1) by (simp_all add: queue_ok_def)
  have take: "queue_ok ps t" if "db_take s = Step t" "pending s = []"
    using q(1)
  proof (cases rule: db_take_cases)
    case (1 q')
    with that q acc show ?thesis by (auto simp: queue_ok_def pending_def)
  next
    case (2 d q')
    with that q acc show ?thesis by (auto simp: queue_ok_def pending_def)
  qed
  show ?thesis
  proof (cases "db_pc s = Db_woken \<or> db_pc s = Db_pop \<and> used_head (queue s) \<noteq> None")
    case True
    then show ?thesis using take assms(2) by (auto simp: db_thread_step_def pending_def)
  next
    case False
    then show ?thesis using assms(2) q acc
      by (cases "db_pc s")
        (auto simp: db_thread_step_def queue_ok_def pending_def split: if_splits prod.splits)
  qed
qed

lemma queue_ok_event:
  assumes "queue_ok ps s" "event_thread_step env s = Step t"
  shows "queue_ok ps t"
proof (cases "\<exists>d w. ev_pc s = Ev_push d w")
  case True
  then obtain d w where p: "ev_pc s = Ev_push d w" by blast
  then have t: "event_push env d w s = Step t" using assms(2) by (simp add: event_thread_step_def)
  have "lq_inv (queue s)" using assms(1) by (simp add: queue_ok_def)
  then show ?thesis
    by (cases rule: event_push_cases [where env = env and d = d and w = w])
      (use t assms(1) in \<open>auto simp: queue_ok_def\<close>)
next
  case False
  then show ?thesis using assms
    by (cases "ev_pc s")
      (auto simp: event_thread_step_def event_setup_def event_close_def event_accept_def event_recv_def queue_ok_def
        split: if_splits prod.splits accept_result.splits option.splits)
qed

lemma shutdown_keeps:
  assumes "shutdown_thread_step s = Step t"
  shows "queue t = queue s" "accepted t = accepted s" "logged t = logged s"
    "ev_pc t = ev_pc s" "db t = db s" "socket_file t = socket_file s" "server_fds t = server_fds s"
    "db_pc t = db_pc s \<or> db_pc s = Db_wait \<and> db_pc t = Db_woken" "pending t = pending s"
  using assms
  by (auto simp: shutdown_thread_step_def db_pc_data_ready split: sh_pc.splits if_splits)

lemma queue_ok_step:
  assumes "pamd_step lib s t" "queue_ok ps s"
  shows "queue_ok ps t"
  using assms
proof cases
  case db_thread
  with assms(2) show ?thesis by (rule queue_ok_db)
next
  case (event_thread env)
  with assms(2) show ?thesis by (blast intro: queue_ok_event)
next
  case shutdown_thread
  with assms(2) show ?thesis by (simp add: queue_ok_def shutdown_keeps)
next
  case spurious_pop
  with assms(2) show ?thesis by (simp add: queue_ok_def pending_def)
qed (use assms(2) in \<open>auto simp: queue_ok_def\<close>)

lemma event_received_valid: "event_received bytes = Some d \<Longrightarrow> valid_event d"
  by (simp add: event_received_def valid_event_def split: if_splits)

lemma events_ok_event:
  assumes "queue_ok ps s" "events_ok s" "event_thread_step env s = Step t"
  shows "events_ok t"
proof (cases "\<exists>d w. ev_pc s = Ev_push d w")
  case True
  then obtain d w where p: "ev_pc s = Ev_push d w" by blast
  then have t: "event_push env d w s = Step t" using assms(3) by (simp add: event_thread_step_def)
  have "lq_inv (queue s)" using assms(1) by (simp add: queue_ok_def)
  then show ?thesis
    by (cases rule: event_push_cases [where env = env and d = d and w = w])
      (use t p assms(2) in \<open>auto simp: events_ok_def\<close>)
next
  case False
  then show ?thesis using assms(2,3)
    by (cases "ev_pc s")
      (auto simp: event_thread_step_def event_setup_def event_close_def event_accept_def event_recv_def events_ok_def
        event_received_valid split: if_splits prod.splits accept_result.splits option.splits)
qed

lemma db_thread_keeps:
  assumes "db_thread_step lib s = Step t"
  shows "accepted t = accepted s" "ev_pc t = ev_pc s" "sh_pc t = sh_pc s" "is_running t = is_running s"
    "socket_file t = socket_file s" "server_fds t = server_fds s"
  using assms
  by (auto simp: db_thread_step_def db_take_def split: db_pc.splits prod.splits option.splits if_splits)

lemma events_ok_step:
  assumes "pamd_step lib s t" "queue_ok ps s" "events_ok s"
  shows "events_ok t"
  using assms
proof cases
  case (event_thread env)
  with assms(2,3) show ?thesis by (blast intro: events_ok_event)
qed (use assms(3) in \<open>auto simp: events_ok_def db_thread_keeps shutdown_keeps\<close>)

lemma event_push_keeps:
  "event_push env d w s = Step t \<Longrightarrow> socket_file t = socket_file s \<and> server_fds t = server_fds s \<and>
     is_running t = is_running s \<and> sh_pc t = sh_pc s \<and> listening (ev_pc t) \<and>
     (db_pc t = db_pc s \<or> db_pc s = Db_wait \<and> db_pc t = Db_woken) \<and> db t = db s \<and> logged t = logged s"
  by (auto simp: event_push_def listening_def db_pc_data_ready split: option.splits prod.splits attempt.splits if_splits)

lemma socket_inv_step:
  assumes "pamd_step lib s t" "socket_inv s"
  shows "socket_inv t"
  using assms
proof cases
  case (event_thread env)
  then show ?thesis using assms(2)
    by (cases "ev_pc s")
      (auto simp: event_thread_step_def event_setup_def event_close_def event_accept_def event_recv_def socket_inv_def
        listening_def dest!: event_push_keeps split: if_splits prod.splits accept_result.splits option.splits)
qed (use assms(2) in \<open>auto simp: socket_inv_def db_thread_keeps shutdown_keeps\<close>)

text \<open>What a step of the event thread leaves alone.\<close>

definition event_frame :: "pamd_state \<Rightarrow> pamd_state \<Rightarrow> bool" where
  "event_frame s t \<longleftrightarrow> db t = db s \<and> logged t = logged s \<and> is_running t = is_running s \<and> sh_pc t = sh_pc s \<and>
     (db_pc t = db_pc s \<or> db_pc s = Db_wait \<and> db_pc t = Db_woken) \<and>
     (ev_pc t = Ev_done \<longrightarrow> \<not> is_running s)"

lemma event_frames:
  "event_frame s (event_setup env s)" "event_frame s (event_close s)" "event_frame s (event_accept env s)"
  by (simp_all add: event_frame_def event_setup_def event_close_def event_accept_def
      split: accept_result.split option.split)

lemma event_thread_keeps:
  assumes "event_thread_step env s = Step t"
  shows "event_frame s t"
proof (cases "ev_pc s")
  case (Ev_push d w)
  with assms have "event_push env d w s = Step t" by (simp add: event_thread_step_def)
  then show ?thesis using event_push_keeps [of env d w s t] by (auto simp: event_frame_def listening_def)
next
  case Ev_socket
  with assms show ?thesis by (auto simp: event_thread_step_def event_frames)
next
  case Ev_listen
  with assms show ?thesis using event_frames(2) [of s] by (auto simp: event_thread_step_def event_frame_def split: if_splits)
next
  case Ev_poll
  with assms show ?thesis using event_frames(2) [of s]
    by (auto simp: event_thread_step_def event_frame_def split: if_splits prod.splits)
next
  case Ev_accept
  with assms show ?thesis using event_frames(3) [of s env]
    by (auto simp: event_thread_step_def event_frame_def split: if_splits)
qed (use assms in \<open>auto simp: event_thread_step_def event_frame_def event_recv_def split: if_splits option.splits\<close>)

lemma db_take_running: "db_take s = Step t \<Longrightarrow> db_pc t = Db_loop \<or> (\<exists>d. db_pc t = Db_log d)"
  by (auto simp: db_take_def split: option.splits)

lemma db_thread_ends:
  "db_thread_step lib s = Step t \<Longrightarrow> db_pc t \<in> {Db_close, Db_done} \<Longrightarrow> \<not> is_running s"
  by (cases "db_pc s")
    (auto simp: db_thread_step_def dest: db_take_running split: if_splits prod.splits)

lemma shutdown_ok_step:
  assumes "pamd_step lib s t" "shutdown_ok s"
  shows "shutdown_ok t"
  using assms
proof cases
  case db_thread
  then show ?thesis using assms(2) db_thread_keeps [OF db_thread] db_thread_ends [OF db_thread]
    by (auto simp: shutdown_ok_def)
next
  case (event_thread env)
  then show ?thesis using assms(2) event_thread_keeps [OF event_thread]
    by (auto simp: shutdown_ok_def event_frame_def)
next
  case shutdown_thread
  then show ?thesis using assms(2)
    by (cases "sh_pc s") (auto simp: shutdown_thread_step_def shutdown_ok_def db_pc_data_ready)
qed (use assms(2) in \<open>auto simp: shutdown_ok_def handle_termination_def\<close>)
section \<open>Reachable states\<close>

lemma pamd_init_ok:
  assumes "lq_inv lq" "lq_abs lq = []"
  shows "queue_ok (params lq) (pamd_init h lq)" "events_ok (pamd_init h lq)" "socket_inv (pamd_init h lq)"
    "shutdown_ok (pamd_init h lq)"
  using assms
  by (simp_all add: queue_ok_def events_ok_def socket_inv_def shutdown_ok_def pamd_init_def pending_def listening_def)

lemma reachable_ok:
  assumes "pamd_reachable lib (pamd_init h lq) s" "lq_inv lq" "lq_abs lq = []"
  shows "queue_ok (params lq) s \<and> events_ok s \<and> socket_inv s \<and> shutdown_ok s"
  using assms(1)
proof induction
  case start
  then show ?case using pamd_init_ok [OF assms(2,3)] by simp
next
  case (step s t)
  then show ?case
    using queue_ok_step [OF step.hyps(2)] events_ok_step [OF step.hyps(2)] socket_inv_step [OF step.hyps(2)]
      shutdown_ok_step [OF step.hyps(2)] by blast
qed

text \<open>
  No thread accesses memory it must not, unless the queue is moved while the database thread
  waits on it.
\<close>

lemma db_no_crash:
  assumes "queue_ok ps s"
  shows "db_thread_step lib s \<noteq> Crash"
proof -
  have q: "lq_inv (queue s)" using assms by (simp add: queue_ok_def)
  have "db_take s \<noteq> Crash" using q by (cases rule: db_take_cases) auto
  then show ?thesis by (auto simp: db_thread_step_def split: db_pc.splits)
qed

lemma event_crash:
  assumes "queue_ok ps s" "event_thread_step env s = Crash"
  obtains d w where "ev_pc s = Ev_push d w" "realloc_moves env" "in_cond_wait (db_pc s)"
    "n_rec_free (queue s) = 0" "length (lq_abs (queue s)) < records_limit ps"
proof -
  have q: "lq_inv (queue s)" "params (queue s) = ps" using assms(1) by (simp_all add: queue_ok_def)
  obtain d w where p: "ev_pc s = Ev_push d w" "event_push env d w s = Crash"
    using assms(2) by (auto simp: event_thread_step_def event_recv_def split: ev_pc.splits option.splits)
  show thesis
    using q(1)
    by (cases rule: event_push_cases [where env = env and d = d and w = w]) (use p q that in auto)
qed

section \<open>What reaches the database\<close>

definition stored_ok :: "db_handle \<Rightarrow> pamd_state \<Rightarrow> bool" where
  "stored_ok h s \<longleftrightarrow> db_row (inst (db s)) = db_row (Some h) \<and>
     (\<exists>sent. db_rows (inst (db s)) (calls (db s)) = map (db_row (Some h)) sent \<and>
        subseq sent (map fst (logged s)) \<and> subseq (acked s) sent)"

lemma stored_ok_init: "stored_ok h (pamd_init h lq)"
proof -
  have "db_rows (Some h) [] = []"
    by (cases h) (simp_all add: db_rows_def csv_rows_def pg_rows_def sqlite3_rows_def mysql_rows_def)
  then show ?thesis by (auto simp: stored_ok_def pamd_init_def acked_def)
qed

lemma stored_ok_same:
  assumes "stored_ok h s" "logged t = logged s" "db_row (inst (db t)) = db_row (inst (db s))"
    "db_rows (inst (db t)) (calls (db t)) = db_rows (inst (db s)) (calls (db s))"
  shows "stored_ok h t"
  using assms by (simp add: stored_ok_def acked_def)

lemma stored_ok_db:
  assumes "stored_ok h s" "db_thread_step lib s = Step t"
  shows "stored_ok h t"
proof (cases "db_pc s")
  case Db_open
  obtain ok w where o: "db_open lib (db s) = (ok, w)" by fastforce
  show ?thesis using assms(2) Db_open o dbi.open_stores_nothing [OF o]
    by (intro stored_ok_same [OF assms(1)]) (auto simp: db_thread_step_def split: if_splits)
next
  case (Db_log d)
  obtain ok w where l: "db_log_one_event lib d (db s) = (ok, w)" by fastforce
  have t: "t = s\<lparr>db := w, logged := logged s @ [(d, ok)], db_pc := Db_loop\<rparr>"
    using assms(2) Db_log l by (simp add: db_thread_step_def)
  obtain sent where sent: "db_row (inst (db s)) = db_row (Some h)"
    "db_rows (inst (db s)) (calls (db s)) = map (db_row (Some h)) sent"
    "subseq sent (map fst (logged s))" "subseq (acked s) sent"
    using assms(1) by (auto simp: stored_ok_def)
  show ?thesis
    using dbi.log_one_rows [OF l, of "[]" sent "map fst (logged s)" "acked s"] sent dbi.log_keeps [OF l]
    by (auto simp: stored_ok_def t acked_def)
next
  case Db_close
  obtain ok w where c: "db_close lib ((db s)\<lparr>err := None\<rparr>) = (ok, w)" by fastforce
  show ?thesis using assms(2) Db_close c dbi.close_stores_nothing [OF c]
    by (intro stored_ok_same [OF assms(1)]) (auto simp: db_thread_step_def)
qed (use assms in \<open>auto simp: db_thread_step_def db_take_def stored_ok_def acked_def
    split: if_splits option.splits prod.splits\<close>)

lemma stored_ok_step:
  assumes "pamd_step lib s t" "stored_ok h s"
  shows "stored_ok h t"
  using assms
proof cases
  case db_thread
  with assms(2) show ?thesis by (rule stored_ok_db)
next
  case (event_thread env)
  show ?thesis using stored_ok_same [OF assms(2), of t] event_thread_keeps [OF event_thread]
    by (simp add: event_frame_def)
next
  case shutdown_thread
  show ?thesis using stored_ok_same [OF assms(2), of t] shutdown_keeps [OF shutdown_thread] by simp
qed (use stored_ok_same [OF assms(2)] in \<open>simp_all\<close>)

lemma reachable_stored:
  "pamd_reachable lib (pamd_init h lq) s \<Longrightarrow> stored_ok h s"
  by (induction rule: pamd_reachable.induct) (auto simp: stored_ok_init intro: stored_ok_step)

end
