(* ===== verification/Pamd_Properties.thy ===== *)
theory Pamd_Properties
  imports Pamd_Correct
begin

text \<open>
  Schedules of the event daemon's threads, and the properties of the daemon: the account of
  every event over all interleavings, what the database holds, and the behaviour at shutdown
  and after a failure of the socket.
\<close>

section \<open>Runs\<close>

text \<open>A schedule: which thread moves, or a signal.\<close>

datatype choice = Run_db | Run_event ev_env | Run_shutdown | Raise_signal

definition outcome_state :: "pamd_state outcome \<Rightarrow> pamd_state option" where
  "outcome_state r = (case r of Step t \<Rightarrow> Some t | _ \<Rightarrow> None)"

fun pamd_run :: "db_library \<Rightarrow> choice list \<Rightarrow> pamd_state \<Rightarrow> pamd_state option" where
  "pamd_run lib [] s = Some s"
| "pamd_run lib (c # cs) s =
     (case (case c of
              Run_db \<Rightarrow> outcome_state (db_thread_step lib s)
            | Run_event env \<Rightarrow> outcome_state (event_thread_step env s)
            | Run_shutdown \<Rightarrow> outcome_state (shutdown_thread_step s)
            | Raise_signal \<Rightarrow> Some (handle_termination s)) of
        None \<Rightarrow> None
      | Some t \<Rightarrow> pamd_run lib cs t)"

lemma pamd_run_reachable:
  "pamd_run lib cs s = Some t \<Longrightarrow> pamd_reachable lib s0 s \<Longrightarrow> pamd_reachable lib s0 t"
proof (induction cs arbitrary: s)
  case (Cons c cs)
  then obtain u where u: "pamd_step lib s u" "pamd_run lib cs u = Some t"
    by (cases c) (auto simp: outcome_state_def split: outcome.splits option.splits intro: pamd_step.intros)
  show ?case by (rule Cons.IH [OF u(2) pamd_reachable.step [OF Cons.prems(2) u(1)]])
qed simp

lemma reachable_from:
  assumes "pamd_reachable lib s t" "P s" "\<And>u v. P u \<Longrightarrow> pamd_step lib u v \<Longrightarrow> P v"
  shows "P t"
  using assms(1) by (induction) (use assms(2,3) in auto)

lemma pamd_run_append:
  "pamd_run lib (cs @ ds) s = (case pamd_run lib cs s of None \<Rightarrow> None | Some t \<Rightarrow> pamd_run lib ds t)"
  by (induction cs arbitrary: s) (auto split: option.split)

text \<open>A client that delivers the given bytes, on a system where every call succeeds.\<close>

definition ev_good :: "char list \<Rightarrow> ev_env" where
  "ev_good bytes = \<lparr>socket_ok = True, fcntl_ok = True, bind_ok = True, listen_ok = True, poll_result = 1,
     poll_errno = 0, poll_revents = POLLIN, accept_result = Accepted,
     recv_result = Some bytes, calloc_ok = True, realloc_ok = True, realloc_moves = False\<rparr>"

lemma sample_event_received: "event_received (log_data_bytes sample_event) = Some sample_event"
proof -
  have wf: "log_data_wf sample_event" by (simp add: log_data_wf_def sample_event_def)
  have "log_data_is_valid (Some sample_event)"
    by (simp add: log_data_is_valid_def field_ok_iff sample_event_def cstr_of_strncpy)
  then show ?thesis using log_data_bytes_length [OF wf] log_data_bytes_inverse [OF wf]
    by (simp add: event_received_def)
qed

lemmas event_step_simps = outcome_state_def event_thread_step_def event_setup_def event_accept_def event_recv_def
  event_close_def poll_turn_def ev_good_def

definition one_event :: "choice list" where
  "one_event = replicate 7 (Run_event (ev_good (log_data_bytes sample_event)))"

lemma one_event_run:
  assumes "lq_inv lq" "lq_abs lq = []" "0 < records_limit (params lq)"
  shows "\<exists>q. pamd_run lib one_event (pamd_init h lq) =
      Some ((pamd_init h lq)\<lparr>ev_pc := Ev_listen, queue := q, socket_file := True, server_fds := 1,
        accepted := [sample_event]\<rparr>) \<and>
    lq_inv q \<and> lq_abs q = [sample_event] \<and> params q = params lq"
proof -
  let ?env = "ev_good (log_data_bytes sample_event)"
  let ?s = "(pamd_init h lq)\<lparr>socket_file := True, server_fds := 1,
    ev_pc := Ev_push sample_event (wait_min (params lq), 1)\<rparr>"
  have run: "pamd_run lib (replicate 6 (Run_event ?env)) (pamd_init h lq) = Some ?s"
    by (simp add: numeral_eq_Suc pamd_init_def event_step_simps sample_event_received)
  have one: "one_event = replicate 6 (Run_event ?env) @ [Run_event ?env]"
    by (simp add: one_event_def numeral_eq_Suc)
  have "lq_inv (queue ?s)" using assms(1) by (simp add: pamd_init_def)
  then obtain q where q: "event_push ?env sample_event (wait_min (params lq), 1) ?s =
      Step ((pamd_init h lq)\<lparr>ev_pc := Ev_listen, queue := q, socket_file := True, server_fds := 1,
        accepted := [sample_event]\<rparr>)" "lq_inv q" "lq_abs q = [sample_event]" "params q = params lq"
    by (cases rule: event_push_cases [where env = ?env and d = sample_event and w = "(wait_min (params lq), 1)"])
      (use assms in \<open>auto simp: pamd_init_def ev_good_def data_ready_def\<close>)
  have "pamd_run lib one_event (pamd_init h lq) = pamd_run lib [Run_event ?env] ?s"
    unfolding one pamd_run_append run by simp
  then show ?thesis using q by (intro exI [of _ q]) (simp add: event_thread_step_def outcome_state_def)
qed

text \<open>The sample database opens on a system where every call succeeds.\<close>

lemma csv_sample_opens:
  obtains w where "db_open pg_all_ok \<lparr>calls = [], inst = Some csv_sample_handle, err = Some None\<rparr> = (True, w)"
  by (simp add: db_open_def driver_open_def csv_sample_handle_def csvfile_open_def lib_call_def pg_all_ok_def
      db_instance.defs db_instance_base_def db_options_isset_def)

lemma empty_small_created: "log_queue_create True (Some small_params) = Some empty_small"
  by (simp add: empty_small_def log_queue_create_def)

section \<open>The properties of the event daemon\<close>

text \<open>
  Every interleaving of the event daemon's threads, against any database, any clients and
  any outcome of the system calls. Every event that was accepted was complete and valid; each
  is in exactly one place, in the order of arrival: given to the database, in the hands of the
  database thread, or in the queue; the queue keeps within its limit; and no thread accesses
  memory it must not, except when a growing queue is moved while the database thread waits on it.
\<close>

theorem pamd_events_accounted:
  assumes "pamd_reachable lib (pamd_init h lq) s" "lq_inv lq" "lq_abs lq = []"
  shows "accepted s = map fst (logged s) @ pending s @ lq_abs (queue s) \<and>
    list_all (\<lambda>d. log_data_is_valid (Some d)) (accepted s) \<and>
    length (lq_abs (queue s)) \<le> records_limit (params lq) \<and>
    db_thread_step lib s \<noteq> Crash \<and>
    (event_thread_step env s = Crash \<longrightarrow> realloc_moves env \<and> in_cond_wait (db_pc s))"
proof -
  have ok: "queue_ok (params lq) s" "events_ok s" using reachable_ok [OF assms] by simp_all
  then have "length (lq_abs (queue s)) \<le> records_limit (params lq)"
    using inv_limit [of "queue s"] by (simp add: queue_ok_def)
  moreover have "list_all (\<lambda>d. log_data_is_valid (Some d)) (accepted s)"
    using ok(2) by (simp add: events_ok_def valid_event_def [abs_def])
  moreover have "event_thread_step env s = Crash \<longrightarrow> realloc_moves env \<and> in_cond_wait (db_pc s)"
    using event_crash [OF ok(1)] by blast
  ultimately show ?thesis using ok db_no_crash [OF ok(1), of lib] by (simp add: queue_ok_def)
qed

theorem pamd_events_accounted_witness:
  "\<exists>s. pamd_run pg_all_ok (one_event @ [Run_db]) (pamd_init csv_sample_handle empty_small) = Some s \<and>
    [sample_event] = map fst (logged s) @ pending s @ lq_abs (queue s) \<and>
    length (lq_abs (queue s)) \<le> 1 \<and> event_thread_step (ev_good (replicate 128 nul)) s \<noteq> Crash"
proof -
  obtain q where q: "pamd_run pg_all_ok one_event (pamd_init csv_sample_handle empty_small) =
      Some ((pamd_init csv_sample_handle empty_small)\<lparr>ev_pc := Ev_listen, queue := q, socket_file := True,
        server_fds := 1, accepted := [sample_event]\<rparr>)"
    using one_event_run [of empty_small] empty_small_inv small_params_ok by auto
  then obtain s where s: "pamd_run pg_all_ok (one_event @ [Run_db]) (pamd_init csv_sample_handle empty_small) = Some s"
    "accepted s = [sample_event]"
    by (simp add: pamd_run_append outcome_state_def db_thread_step_def pamd_init_def del: pamd_run.simps)
      (simp add: outcome_state_def db_thread_step_def)
  show ?thesis
    using pamd_events_accounted [OF pamd_run_reachable [OF s(1) pamd_reachable.start],
        of "ev_good (replicate 128 nul)"] s empty_small_inv small_params_ok by (auto simp: ev_good_def)
qed

text \<open>
  C19: The queue's lock and condition variable are part of the block that grows. In the
  first run the database connects and waits for data; a client delivers the first event, for
  which the queue gets its first pool. When \<open>realloc\<close> moves the block the database thread is
  left waiting on released memory; in place, or without memory for the pool, nothing is touched
  that must not be.
\<close>

theorem pamd_queue_moved:
  assumes "log_queue_create True (Some ps) = Some lq" "params_ok ps"
    "db_open lib \<lparr>calls = [], inst = Some h, err = Some None\<rparr> = (True, w)" "event_received bytes = Some d"
  shows "\<exists>s. pamd_run lib (replicate 4 Run_db @ replicate 6 (Run_event (ev_good bytes))) (pamd_init h lq) = Some s \<and>
    db_pc s = Db_wait \<and> accepted s = [] \<and>
    (\<forall>env. event_thread_step env s = Crash \<longleftrightarrow> calloc_ok env \<and> realloc_ok env \<and> realloc_moves env)"
proof -
  let ?s = "(pamd_init h lq)\<lparr>db := w, db_pc := Db_wait, socket_file := True, server_fds := 1,
    ev_pc := Ev_push d (wait_min ps, 1)\<rparr>"
  have lq: "used_head lq = None" "params lq = ps" "n_rec_free lq = 0" "n_rec_pools lq = 0"
    using assms(1) by (auto simp: log_queue_create_def)
  have inv: "lq_inv lq" "lq_abs lq = []" using create_inv [OF assms(1)] assms(2) lq(2) by simp_all
  have run: "pamd_run lib (replicate 4 Run_db @ replicate 6 (Run_event (ev_good bytes))) (pamd_init h lq) = Some ?s"
    using assms(3,4) lq by (simp add: numeral_eq_Suc pamd_init_def db_thread_step_def event_step_simps)
  have "event_push env d v ?s = Crash \<longleftrightarrow> calloc_ok env \<and> realloc_ok env \<and> realloc_moves env" for env v
  proof -
    obtain a q where a: "push_attempt (calloc_ok env) (realloc_ok env) lq d = Some (a, q)"
      "a = At_Limit \<longleftrightarrow> length (lq_abs lq) = records_limit ps" "a = No_Memory \<longrightarrow> \<not> (calloc_ok env \<and> realloc_ok env)"
      using push_attempt_spec [OF inv(1), of "calloc_ok env" "realloc_ok env" d] lq(2) by blast
    have "a \<noteq> At_Limit" using a(2) inv(2) records_limit_pos [OF assms(2)] by simp
    moreover have "a = No_Memory" if "\<not> (calloc_ok env \<and> realloc_ok env)"
      using a(1) lq that
      by (auto simp: push_attempt_def log_queue_alloc_record_def log_queue_add_pool_def log_record_create_def
          grow_count_def split: if_splits bind_splits)
    ultimately have "a = Stored \<longleftrightarrow> calloc_ok env \<and> realloc_ok env" using a(3) by (cases a) auto
    then show ?thesis using a(1) push_attempt_pools [OF a(1)] lq(3)
      by (auto simp: event_push_def queue_moved_def in_cond_wait_def pamd_init_def split: attempt.split)
  qed
  then have "\<forall>env. event_thread_step env ?s = Crash \<longleftrightarrow> calloc_ok env \<and> realloc_ok env \<and> realloc_moves env"
    by (simp add: event_thread_step_def)
  with run show ?thesis by (intro exI [of _ ?s]) (simp add: pamd_init_def)
qed

theorem pamd_queue_moved_witness:
  "\<exists>s. pamd_reachable pg_all_ok (pamd_init csv_sample_handle empty_small) s \<and> accepted s = [] \<and>
    event_thread_step ((ev_good [])\<lparr>realloc_moves := True\<rparr>) s = Crash"
proof -
  obtain w where w: "db_open pg_all_ok \<lparr>calls = [], inst = Some csv_sample_handle, err = Some None\<rparr> = (True, w)"
    by (rule csv_sample_opens)
  show ?thesis
    using pamd_queue_moved [OF empty_small_created small_params_ok(1) w sample_event_received]
      pamd_run_reachable [OF _ pamd_reachable.start] by (fastforce simp: ev_good_def)
qed

text \<open>
  What the event daemon stores, with any of the four databases. At every moment of every
  interleaving the rows in the database are rows of accepted events, in the order of their
  arrival and at most one per event, and the row of every acknowledged event is among them.
\<close>

theorem pamd_stores_in_order:
  assumes "pamd_reachable lib (pamd_init h lq) s" "lq_inv lq" "lq_abs lq = []"
  shows "\<exists>sent. db_rows (inst (db s)) (calls (db s)) = map (db_row (Some h)) sent \<and>
    subseq sent (accepted s) \<and> subseq (map fst (filter snd (logged s))) sent"
proof -
  obtain sent where sent: "db_rows (inst (db s)) (calls (db s)) = map (db_row (Some h)) sent"
    "subseq sent (map fst (logged s))" "subseq (map fst (filter snd (logged s))) sent"
    using reachable_stored [OF assms(1)] by (auto simp: stored_ok_def acked_def)
  moreover have "subseq (map fst (logged s)) (accepted s)"
    using reachable_ok [OF assms] by (simp add: queue_ok_def prefix_imp_subseq)
  ultimately show ?thesis by (blast intro: subseq_order.order_trans)
qed

text \<open>
  C33: a lost wakeup at shutdown. When the signal arrives between the database thread's check of
  \<open>is_running\<close> and its wait for data, the broadcast finds nobody waiting: the daemon reaches a
  state in which the other two threads have ended and the database thread waits, and nothing
  but a spurious wakeup moves it.
\<close>

theorem pamd_lost_wakeup:
  assumes "lq_inv lq" "lq_abs lq = []" "db_open lib \<lparr>calls = [], inst = Some h, err = Some None\<rparr> = (True, w)"
  shows "\<exists>s. pamd_reachable lib (pamd_init h lq) s \<and> \<not> is_running s \<and>
    db_pc s = Db_wait \<and> ev_pc s = Ev_done \<and> sh_pc s = Sh_done \<and>
    (\<forall>t. pamd_step lib s t \<longrightarrow> t = s \<or> t = s\<lparr>db_pc := Db_woken\<rparr>)"
proof -
  let ?s = "(pamd_init h lq)\<lparr>is_running := False, db_pc := Db_wait, ev_pc := Ev_done, sh_pc := Sh_done, db := w\<rparr>"
  have "used_head lq = None" using lq_empty_head [OF assms(1)] assms(2) by simp
  then have "pamd_run lib [Run_shutdown, Run_db, Run_db, Run_db, Raise_signal, Run_shutdown, Run_shutdown,
      Run_event env, Run_db] (pamd_init h lq) = Some ?s" for env
    using assms(3)
    by (simp add: outcome_state_def shutdown_thread_step_def db_thread_step_def event_thread_step_def
        pamd_init_def handle_termination_def data_ready_def)
  then have "pamd_reachable lib (pamd_init h lq) ?s"
    by (rule pamd_run_reachable) (rule pamd_reachable.start)
  moreover have "t = ?s \<or> t = ?s\<lparr>db_pc := Db_woken\<rparr>" if "pamd_step lib ?s t" for t
    using that
    by cases (auto simp: db_thread_step_def event_thread_step_def shutdown_thread_step_def handle_termination_def)
  ultimately show ?thesis by (intro exI [of _ ?s]) simp
qed

theorem pamd_lost_wakeup_witness:
  "\<exists>s. pamd_reachable pg_all_ok (pamd_init csv_sample_handle empty_small) s \<and> \<not> is_running s \<and>
    db_pc s = Db_wait \<and> ev_pc s = Ev_done \<and> sh_pc s = Sh_done \<and>
    (\<forall>t. pamd_step pg_all_ok s t \<longrightarrow> t = s \<or> t = s\<lparr>db_pc := Db_woken\<rparr>)"
  using csv_sample_opens pamd_lost_wakeup empty_small_inv by metis

theorem pamd_stores_in_order_witness:
  "\<exists>s sent. pamd_run pg_all_ok (one_event @ [Run_db, Run_db]) (pamd_init csv_sample_handle empty_small) = Some s \<and>
    db_rows (inst (db s)) (calls (db s)) = map (db_row (Some csv_sample_handle)) sent \<and>
    subseq sent [sample_event]"
proof -
  let ?i = "pamd_init csv_sample_handle empty_small"
  obtain q where q: "pamd_run pg_all_ok one_event ?i =
      Some (?i\<lparr>ev_pc := Ev_listen, queue := q, socket_file := True, server_fds := 1, accepted := [sample_event]\<rparr>)"
    using one_event_run [of empty_small] empty_small_inv small_params_ok by auto
  obtain s where s: "pamd_run pg_all_ok (one_event @ [Run_db, Run_db]) ?i = Some s" "accepted s = [sample_event]"
    unfolding pamd_run_append q
    by (simp add: outcome_state_def db_thread_step_def pamd_init_def split: prod.split)
  show ?thesis
    using pamd_stores_in_order [OF pamd_run_reachable [OF s(1) pamd_reachable.start]] s empty_small_inv by auto
qed

text \<open>
  C34: shutdown against a full queue. Once \<open>is_running\<close> is false and the database thread will not
  take another event, an event thread that is pushing against a full queue sleeps and retries
  forever: the daemon is never joined, whatever happens.
\<close>

theorem pamd_full_queue_never_stops:
  assumes "pamd_reachable lib (pamd_init h lq) s" "lq_inv lq" "lq_abs lq = []"
    "\<not> is_running s" "ev_pc s = Ev_push d w" "db_pc s \<in> {Db_outer, Db_open, Db_loop, Db_close, Db_done}"
    "length (lq_abs (queue s)) = records_limit (params lq)"
    "pamd_reachable lib s t"
  shows "(\<exists>w'. ev_pc t = Ev_push d w') \<and> \<not> pamd_joined t \<and> accepted t = accepted s"
proof -
  let ?P = "\<lambda>u. queue_ok (params lq) u \<and> \<not> is_running u \<and> (\<exists>w'. ev_pc u = Ev_push d w') \<and>
    db_pc u \<in> {Db_outer, Db_open, Db_loop, Db_close, Db_done} \<and>
    length (lq_abs (queue u)) = records_limit (params lq) \<and> accepted u = accepted s"
  have "?P t"
    using assms(8)
  proof (rule reachable_from)
    show "?P s" using reachable_ok [OF assms(1-3)] assms(4-7) by auto
    fix u v assume P: "?P u" and st: "pamd_step lib u v"
    have q: "queue_ok (params lq) v" using queue_ok_step [OF st] P by blast
    from st show "?P v"
    proof cases
      case db_thread
      then show ?thesis using P q
        by (auto simp: db_thread_step_def)
    next
      case (event_thread env)
      obtain w' where w: "ev_pc u = Ev_push d w'" using P by blast
      have "lq_inv (queue u)" using P by (simp add: queue_ok_def)
      then show ?thesis
        by (cases rule: event_push_cases [where env = env and d = d and w = w'])
          (use P q event_thread w in \<open>auto simp: event_thread_step_def queue_ok_def\<close>)
    next
      case shutdown_thread
      then show ?thesis using P q shutdown_keeps [OF shutdown_thread]
        by (auto simp: shutdown_thread_step_def split: sh_pc.splits)
    qed (use P q in auto)
  qed
  then show ?thesis by (auto simp: pamd_joined_def)
qed

theorem pamd_full_queue_never_stops_witness:
  "\<exists>s. pamd_reachable pg_all_ok (pamd_init csv_sample_handle empty_small) s \<and> \<not> is_running s \<and>
    sh_pc s = Sh_interrupt \<and> (\<forall>t. pamd_reachable pg_all_ok s t \<longrightarrow> \<not> pamd_joined t)"
proof -
  let ?i = "pamd_init csv_sample_handle empty_small"
  let ?more = "replicate 4 (Run_event (ev_good (log_data_bytes sample_event))) @
    [Run_shutdown, Raise_signal, Run_shutdown]"
  obtain q where q: "pamd_run pg_all_ok one_event ?i =
      Some (?i\<lparr>ev_pc := Ev_listen, queue := q, socket_file := True, server_fds := 1, accepted := [sample_event]\<rparr>)"
    "lq_abs q = [sample_event]" "params q = small_params"
    using one_event_run [of empty_small] empty_small_inv small_params_ok by auto
  let ?s = "?i\<lparr>queue := q, socket_file := True, server_fds := 1, accepted := [sample_event], is_running := False,
    ev_pc := Ev_push sample_event (wait_min small_params, 1), sh_pc := Sh_interrupt\<rparr>"
  have "pamd_run pg_all_ok (one_event @ ?more) ?i = Some ?s"
    unfolding pamd_run_append q(1) option.case
    by (simp add: numeral_eq_Suc pamd_init_def event_step_simps sample_event_received q(3)
        shutdown_thread_step_def handle_termination_def)
  then have r: "pamd_reachable pg_all_ok ?i ?s"
    by (rule pamd_run_reachable) (rule pamd_reachable.start)
  have "\<not> pamd_joined t" if "pamd_reachable pg_all_ok ?s t" for t
    using pamd_full_queue_never_stops [OF r _ _ _ _ _ _ that] empty_small_inv small_params_ok q(2)
    by (simp add: pamd_init_def)
  with r show ?thesis by (intro exI [of _ ?s]) (simp add: pamd_init_def)
qed

text \<open>
  C22: a client that stays silent. The event thread reads from a client with a \<open>recv\<close> that waits for
  all 128 bytes, without a time limit. When a client has connected and sends nothing, the
  daemon can come to a state in which the signal has been handled and the other two threads have
  ended, while the event thread waits: nothing moves the daemon any more but that client (or a
  signal that happens to interrupt the call).
\<close>

theorem pamd_silent_client:
  "\<exists>s. pamd_reachable lib (pamd_init h lq) s \<and> \<not> is_running s \<and> db_pc s = Db_done \<and> sh_pc s = Sh_done \<and>
    \<not> pamd_joined s \<and>
    (\<forall>t. pamd_step lib s t \<longrightarrow> t = s \<or> (\<exists>env bytes. recv_result env = Some bytes \<and> event_thread_step env s = Step t))"
proof -
  let ?i = "pamd_init h lq"
  let ?s = "?i\<lparr>ev_pc := Ev_recv, socket_file := True, server_fds := 1, is_running := False, sh_pc := Sh_done, db_pc := Db_done\<rparr>"
  have "pamd_run lib (replicate 5 (Run_event (ev_good [])) @ [Run_shutdown, Raise_signal, Run_shutdown, Run_shutdown, Run_db]) ?i =
      Some ?s"
    by (simp add: numeral_eq_Suc pamd_init_def event_step_simps shutdown_thread_step_def handle_termination_def
        db_thread_step_def data_ready_def)
  then have "pamd_reachable lib ?i ?s" by (rule pamd_run_reachable) (rule pamd_reachable.start)
  moreover have "t = ?s \<or> (\<exists>env bytes. recv_result env = Some bytes \<and> event_thread_step env ?s = Step t)"
    if "pamd_step lib ?s t" for t
    using that
    by cases (auto simp: db_thread_step_def shutdown_thread_step_def handle_termination_def event_thread_step_def
        event_recv_def split: option.splits)
  ultimately show ?thesis by (intro exI [of _ ?s]) (auto simp: pamd_joined_def)
qed

theorem pamd_silent_client_witness:
  "\<exists>s. pamd_reachable pg_all_ok (pamd_init csv_sample_handle empty_small) s \<and> \<not> is_running s \<and> \<not> pamd_joined s \<and>
    handle_termination s = s \<and> (\<forall>t. db_thread_step pg_all_ok s \<noteq> Step t \<and> shutdown_thread_step s \<noteq> Step t)"
proof -
  obtain s where "pamd_reachable pg_all_ok (pamd_init csv_sample_handle empty_small) s" "\<not> is_running s"
    "db_pc s = Db_done" "sh_pc s = Sh_done" "\<not> pamd_joined s"
    using pamd_silent_client [of pg_all_ok csv_sample_handle empty_small] by blast
  then show ?thesis
    by (intro exI [of _ s]) (simp add: handle_termination_def db_thread_step_def shutdown_thread_step_def)
qed

text \<open>
  The path of the socket. The event thread never removes the path it bound, so after it has
  given up a socket (\<open>poll\<close> or \<open>accept\<close> failed, or \<open>listen\<close> did) every later \<open>bind\<close> fails: it
  never listens again and no event is ever accepted, while the daemon keeps running.
\<close>

theorem pamd_never_rebinds:
  assumes "socket_file s" "\<not> listening (ev_pc s)" "pamd_reachable lib s t"
  shows "\<not> listening (ev_pc t) \<and> accepted t = accepted s"
proof -
  let ?P = "\<lambda>u. socket_file u \<and> \<not> listening (ev_pc u) \<and> accepted u = accepted s"
  have "?P t"
    using assms(3)
  proof (rule reachable_from)
    show "?P s" using assms by simp
    fix u v assume P: "?P u" and st: "pamd_step lib u v"
    from st show "?P v"
    proof cases
      case db_thread
      then show ?thesis using P db_thread_keeps [OF db_thread] by simp
    next
      case (event_thread env)
      then show ?thesis using P
        by (cases "ev_pc u") (auto simp: event_thread_step_def event_setup_def listening_def split: if_splits)
    next
      case shutdown_thread
      then show ?thesis using P shutdown_keeps [OF shutdown_thread] by simp
    qed (use P in auto)
  qed
  then show ?thesis by simp
qed

theorem pamd_never_rebinds_witness:
  "\<exists>s. pamd_run pg_all_ok (one_event @ [Run_event (ev_good []), Run_event ((ev_good [])\<lparr>poll_result := - 1\<rparr>)])
      (pamd_init csv_sample_handle empty_small) = Some s \<and> is_running s \<and>
    (\<forall>t. pamd_reachable pg_all_ok s t \<longrightarrow> accepted t = [sample_event])"
proof -
  let ?i = "pamd_init csv_sample_handle empty_small"
  obtain q where q: "pamd_run pg_all_ok one_event ?i =
      Some (?i\<lparr>ev_pc := Ev_listen, queue := q, socket_file := True, server_fds := 1, accepted := [sample_event]\<rparr>)"
    using one_event_run [of empty_small] empty_small_inv small_params_ok by auto
  let ?s = "?i\<lparr>queue := q, socket_file := True, server_fds := 0, accepted := [sample_event], ev_pc := Ev_outer\<rparr>"
  have s: "pamd_run pg_all_ok (one_event @ [Run_event (ev_good []), Run_event ((ev_good [])\<lparr>poll_result := - 1\<rparr>)]) ?i =
      Some ?s"
    unfolding pamd_run_append q(1) option.case by (simp add: pamd_init_def event_step_simps)
  have "accepted t = [sample_event]" if "pamd_reachable pg_all_ok ?s t" for t
    using pamd_never_rebinds [OF _ _ that] by (simp add: listening_def)
  with s show ?thesis by (intro exI [of _ ?s]) (simp add: pamd_init_def)
qed

lemma db_from_loop:
  assumes "\<not> is_running s" "db_pc s = Db_loop"
  shows "\<exists>t. pamd_run lib (replicate 3 Run_db) s = Some t \<and> db_pc t = Db_done \<and> logged t = logged s \<and> queue t = queue s"
  using assms by (simp add: numeral_eq_Suc outcome_state_def db_thread_step_def)

lemma db_to_loop:
  assumes "pamd_run lib (replicate k Run_db) s = Some u" "\<not> is_running u" "db_pc u = Db_loop" "k \<le> 2"
    "length (logged u) \<le> Suc (length (logged s))" "length (lq_abs (queue s)) \<le> Suc (length (lq_abs (queue u)))"
  shows "\<exists>n \<le> 5. \<exists>t. pamd_run lib (replicate n Run_db) s = Some t \<and> db_pc t = Db_done \<and>
    length (logged t) \<le> Suc (length (logged s)) \<and> length (lq_abs (queue s)) \<le> Suc (length (lq_abs (queue t)))"
proof -
  obtain t where t: "pamd_run lib (replicate 3 Run_db) u = Some t" "db_pc t = Db_done"
    "logged t = logged u" "queue t = queue u"
    using db_from_loop [OF assms(2,3)] by blast
  have "pamd_run lib (replicate (k + 3) Run_db) s = Some t"
    unfolding replicate_add pamd_run_append by (simp only: assms(1) t(1) option.case)
  with t assms show ?thesis by (intro exI [of _ "k + 3"] conjI exI [of _ t]) auto
qed

text \<open>
  C35: the database thread at shutdown. Once \<open>is_running\<close> is false it ends within five of its own
  steps, from wherever it is, unless it waits for data or is about to wait on an empty queue. It
  gives at most one more event to the database: what is queued then is lost.
\<close>

theorem pamd_db_thread_stops:
  assumes "pamd_reachable lib (pamd_init h lq) s" "lq_inv lq" "lq_abs lq = []" "\<not> is_running s"
    "db_pc s \<noteq> Db_wait" "\<not> (db_pc s = Db_pop \<and> lq_abs (queue s) = [])"
  shows "\<exists>n \<le> 5. \<exists>t. pamd_run lib (replicate n Run_db) s = Some t \<and> db_pc t = Db_done \<and>
    length (logged t) \<le> Suc (length (logged s)) \<and>
    length (lq_abs (queue s)) \<le> Suc (length (lq_abs (queue t)))"
proof -
  have inv: "lq_inv (queue s)" using reachable_ok [OF assms(1-3)] by (simp add: queue_ok_def)
  note step = outcome_state_def db_thread_step_def
  have take: ?thesis if p: "db_thread_step lib s = db_take s"
    using inv
  proof (cases rule: db_take_cases)
    case (1 q)
    then show ?thesis using assms(4) p
      by (intro db_to_loop [of lib 1 _ "s\<lparr>queue := q, db_pc := Db_loop\<rparr>"]) (simp_all add: outcome_state_def)
  next
    case (2 d q)
    obtain ok w where l: "db_log_one_event lib d (db s) = (ok, w)" by fastforce
    show ?thesis using 2 assms(4) p l
      by (intro db_to_loop [of lib 2 _ "s\<lparr>queue := q, db := w, logged := logged s @ [(d, ok)], db_pc := Db_loop\<rparr>"])
        (simp_all add: numeral_eq_Suc outcome_state_def, simp_all add: db_thread_step_def)
  qed
  show ?thesis
  proof (cases "db_pc s")
    case Db_outer
    then show ?thesis using assms(4) by (intro exI [of _ 1]) (simp add: step)
  next
    case Db_open
    then show ?thesis using assms(4)
      by (intro db_to_loop [of lib 1 _ "s\<lparr>db_pc := Db_loop\<rparr>"]) (simp_all add: step)
  next
    case Db_loop
    then show ?thesis using assms(4) by (intro db_to_loop [of lib 0 _ s]) simp_all
  next
    case Db_pop
    then show ?thesis using take lq_empty_head [OF inv] assms(6) by (simp add: db_thread_step_def)
  next
    case Db_woken
    then show ?thesis using take by (simp add: db_thread_step_def)
  next
    case (Db_log d)
    obtain ok w where "db_log_one_event lib d (db s) = (ok, w)" by fastforce
    then show ?thesis using Db_log assms(4)
      by (intro db_to_loop [of lib 1 _ "s\<lparr>db := w, logged := logged s @ [(d, ok)], db_pc := Db_loop\<rparr>"])
        (simp_all add: step)
  next
    case Db_close
    then show ?thesis using assms(4) by (intro exI [of _ 2]) (simp add: numeral_eq_Suc step)
  next
    case Db_done
    then show ?thesis by (intro exI [of _ 0]) simp
  qed (use assms(5) in simp)
qed

theorem pamd_db_thread_stops_witness:
  "\<exists>s n t. pamd_run pg_all_ok [Run_shutdown, Raise_signal, Run_shutdown] (pamd_init csv_sample_handle empty_small) = Some s \<and>
    n \<le> 5 \<and> pamd_run pg_all_ok (replicate n Run_db) s = Some t \<and> db_pc t = Db_done"
proof -
  let ?i = "pamd_init csv_sample_handle empty_small"
  let ?s = "?i\<lparr>is_running := False, sh_pc := Sh_interrupt\<rparr>"
  have s: "pamd_run pg_all_ok [Run_shutdown, Raise_signal, Run_shutdown] ?i = Some ?s"
    by (simp add: outcome_state_def shutdown_thread_step_def handle_termination_def pamd_init_def)
  show ?thesis
    using pamd_db_thread_stops [OF pamd_run_reachable [OF s pamd_reachable.start]] s empty_small_inv
    by (fastforce simp: pamd_init_def)
qed

end
