(* ===== verification/Pamd_Refinement.thy ===== *)
theory Pamd_Refinement
  imports Pamd_Properties
begin

text \<open>
  The event daemon against an abstract specification: events are in transit from the moment they
  are accepted until they are handed to the database, in order and in bounded number. The
  threads, the queue with its memory, the socket and the signals refine it. And progress: while
  the daemon runs no event is stuck behind a sleeping thread.
\<close>

section \<open>Simulation\<close>

text \<open>
  A step system that simulates another one by a function on its states, under an invariant of its
  own; a step may be none of the abstract system.
\<close>

locale simulation =
  fixes cstep :: "'c \<Rightarrow> 'c \<Rightarrow> bool"
    and astep :: "'a \<Rightarrow> 'a \<Rightarrow> bool"
    and inv :: "'c \<Rightarrow> bool"
    and abs :: "'c \<Rightarrow> 'a"
  assumes inv_step: "inv s \<Longrightarrow> cstep s t \<Longrightarrow> inv t"
    and sim_step: "inv s \<Longrightarrow> cstep s t \<Longrightarrow> abs t = abs s \<or> astep (abs s) (abs t)"
begin

lemma reach:
  assumes "rtranclp cstep s t" "inv s"
  shows "inv t \<and> rtranclp astep (abs s) (abs t)"
  using assms(1)
proof induction
  case base
  then show ?case using assms(2) by simp
next
  case (step t u)
  then have "inv u" using inv_step by blast
  moreover have "rtranclp astep (abs s) (abs u)"
    using step sim_step [of t u] by (metis rtranclp.rtrancl_into_rtrancl)
  ultimately show ?case by simp
qed

text \<open>What the abstract system keeps holds of the abstraction of every state.\<close>

lemma transfer:
  assumes "rtranclp cstep s t" "inv s" "P (abs s)" "\<And>a b. P a \<Longrightarrow> astep a b \<Longrightarrow> P b"
  shows "P (abs t)"
proof -
  have "rtranclp astep (abs s) (abs t)" using reach [OF assms(1,2)] by simp
  then show ?thesis by induction (use assms(3,4) in auto)
qed

end

section \<open>The specification\<close>

record delivery =
  in_transit :: "log_data list"
  handed :: "(log_data \<times> bool) list"

inductive delivery_step :: "nat \<Rightarrow> delivery \<Rightarrow> delivery \<Rightarrow> bool" for cap where
  accept: "valid_event d \<Longrightarrow> length (in_transit a) \<le> cap \<Longrightarrow>
    delivery_step cap a (a\<lparr>in_transit := in_transit a @ [d]\<rparr>)"
| hand_over: "in_transit a = d # ds \<Longrightarrow>
    delivery_step cap a (a\<lparr>in_transit := ds, handed := handed a @ [(d, ok)]\<rparr>)"

inductive_cases delivery_stepE: "delivery_step cap a b"

text \<open>What arrived only ever grows, events stay in order, and no more than the limit are in transit.\<close>

definition arrived :: "delivery \<Rightarrow> log_data list" where
  "arrived a = map fst (handed a) @ in_transit a"

lemma delivery_step_facts:
  assumes "delivery_step cap a b"
  shows "prefix (arrived a) (arrived b)" "prefix (handed a) (handed b)"
    "length (in_transit a) \<le> Suc cap \<Longrightarrow> length (in_transit b) \<le> Suc cap"
    "list_all valid_event (arrived a) \<Longrightarrow> list_all valid_event (arrived b)"
  using assms by (auto simp: arrived_def elim!: delivery_stepE)

section \<open>The daemon refines it\<close>

definition delivery_of :: "pamd_state \<Rightarrow> delivery" where
  "delivery_of s = \<lparr>in_transit = pending s @ lq_abs (queue s), handed = logged s\<rparr>"

definition pamd_ok :: "log_queue_params \<Rightarrow> pamd_state \<Rightarrow> bool" where
  "pamd_ok ps s \<longleftrightarrow> queue_ok ps s \<and> events_ok s \<and> shutdown_ok s"

lemma delivery_of_db:
  assumes "queue_ok ps s" "db_thread_step lib s = Step t"
  shows "delivery_of t = delivery_of s \<or> delivery_step cap (delivery_of s) (delivery_of t)"
proof -
  have inv: "lq_inv (queue s)" using assms(1) by (simp add: queue_ok_def)
  have take: "delivery_of t = delivery_of s" if "db_take s = Step t" "pending s = []"
    using inv by (cases rule: db_take_cases) (use that in \<open>auto simp: delivery_of_def pending_def\<close>)
  show ?thesis
  proof (cases "db_pc s")
    case (Db_log d)
    obtain ok w where l: "db_log_one_event lib d (db s) = (ok, w)" by fastforce
    have "delivery_of t = (delivery_of s)\<lparr>in_transit := lq_abs (queue s), handed := handed (delivery_of s) @ [(d, ok)]\<rparr>"
      using assms(2) Db_log l by (auto simp: db_thread_step_def delivery_of_def pending_def)
    moreover have "in_transit (delivery_of s) = d # lq_abs (queue s)"
      using Db_log by (simp add: delivery_of_def pending_def)
    ultimately show ?thesis by (metis delivery_step.hand_over)
  next
    case Db_pop
    then show ?thesis using take assms(2)
      by (auto simp: db_thread_step_def delivery_of_def pending_def split: if_splits)
  next
    case Db_woken
    then show ?thesis using take assms(2) by (auto simp: db_thread_step_def pending_def)
  qed (use assms(2) in \<open>auto simp: db_thread_step_def delivery_of_def pending_def split: if_splits prod.splits\<close>)
qed

lemma length_pending: "length (pending s) \<le> 1"
  by (cases "db_pc s") (simp_all add: pending_def)

lemma delivery_of_event:
  assumes "queue_ok ps s" "events_ok s" "event_thread_step env s = Step t"
  shows "delivery_of t = delivery_of s \<or> delivery_step (records_limit ps) (delivery_of s) (delivery_of t)"
proof (cases "\<exists>d w. ev_pc s = Ev_push d w")
  case True
  then obtain d w where p: "ev_pc s = Ev_push d w" by blast
  then have t: "event_push env d w s = Step t" using assms(3) by (simp add: event_thread_step_def)
  have inv: "lq_inv (queue s)" "params (queue s) = ps" using assms(1) by (simp_all add: queue_ok_def)
  have d: "valid_event d" using assms(2) p by (simp add: events_ok_def)
  from inv(1) show ?thesis
  proof (cases rule: event_push_cases [where env = env and d = d and w = w])
    case (1 q)
    have "delivery_of t = (delivery_of s)\<lparr>in_transit := in_transit (delivery_of s) @ [d]\<rparr>"
      using t 1 by (auto simp: delivery_of_def)
    moreover have "length (in_transit (delivery_of s)) \<le> records_limit ps"
      using 1(5) length_pending [of s] inv(2) by (simp add: delivery_of_def)
    ultimately show ?thesis using delivery_step.accept [OF d] by metis
  qed (use t in \<open>auto simp: delivery_of_def\<close>)
next
  case False
  then show ?thesis using assms(3)
    by (cases "ev_pc s")
      (auto simp: event_thread_step_def event_setup_def event_close_def event_accept_def event_recv_def delivery_of_def
        split: if_splits prod.splits accept_result.splits option.splits)
qed

interpretation pamd_delivery: simulation "pamd_step lib" "delivery_step (records_limit ps)" "pamd_ok ps" delivery_of
  for lib ps
proof unfold_locales
  fix s t
  assume ok: "pamd_ok ps s" and st: "pamd_step lib s t"
  show "pamd_ok ps t"
    using ok queue_ok_step [OF st] events_ok_step [OF st] shutdown_ok_step [OF st] by (auto simp: pamd_ok_def)
  from st show "delivery_of t = delivery_of s \<or> delivery_step (records_limit ps) (delivery_of s) (delivery_of t)"
  proof cases
    case db_thread
    then show ?thesis using delivery_of_db [OF _ db_thread, of ps] ok by (simp add: pamd_ok_def)
  next
    case (event_thread env)
    then show ?thesis using delivery_of_event ok by (simp add: pamd_ok_def)
  next
    case shutdown_thread
    then show ?thesis by (simp add: delivery_of_def shutdown_keeps)
  next
    case spurious_pop
    then show ?thesis by (simp add: delivery_of_def pending_def)
  qed (simp_all add: delivery_of_def)
qed

lemma reachable_rtranclp: "pamd_reachable lib s t \<Longrightarrow> rtranclp (pamd_step lib) s t"
  by (induction rule: pamd_reachable.induct) auto

lemma pamd_init_delivery:
  assumes "lq_inv lq" "lq_abs lq = []"
  shows "pamd_ok (params lq) (pamd_init h lq)" "delivery_of (pamd_init h lq) = \<lparr>in_transit = [], handed = []\<rparr>"
  using pamd_init_ok [OF assms] assms
  by (simp_all add: pamd_ok_def delivery_of_def pamd_init_def pending_def)

text \<open>
  C5: The event daemon refines the delivery of events. Seen through the events in transit (the one
  in the hands of the database thread, then the queue's contents) and those handed over, every
  step of every thread, every signal and every wakeup is either nothing, or the acceptance of
  one valid event within the limit, or the handing over of the oldest event in transit; and what
  every reachable state shows is reachable in the specification.
\<close>

theorem pamd_refines_delivery:
  assumes "pamd_reachable lib (pamd_init h lq) s" "lq_inv lq" "lq_abs lq = []"
  shows "rtranclp (delivery_step (records_limit (params lq))) \<lparr>in_transit = [], handed = []\<rparr> (delivery_of s) \<and>
    length (in_transit (delivery_of s)) \<le> Suc (records_limit (params lq)) \<and>
    (\<forall>t. pamd_step lib s t \<longrightarrow> delivery_of t = delivery_of s \<or>
       delivery_step (records_limit (params lq)) (delivery_of s) (delivery_of t))"
proof -
  note init = pamd_init_delivery [OF assms(2,3), of h] and run = reachable_rtranclp [OF assms(1)]
  have r: "pamd_ok (params lq) s"
    "rtranclp (delivery_step (records_limit (params lq))) \<lparr>in_transit = [], handed = []\<rparr> (delivery_of s)"
    using pamd_delivery.reach [OF run init(1)] init(2) by simp_all
  moreover have "length (in_transit (delivery_of s)) \<le> Suc (records_limit (params lq))"
    by (rule pamd_delivery.transfer [OF run init(1), where P = "\<lambda>a. length (in_transit a) \<le> Suc (records_limit (params lq))"])
      (use init(2) delivery_step_facts(3) in auto)
  ultimately show ?thesis using pamd_delivery.sim_step [OF r(1)] by blast
qed

theorem pamd_refines_delivery_witness:
  "\<exists>s. pamd_run pg_all_ok one_event (pamd_init csv_sample_handle empty_small) = Some s \<and>
    delivery_of s = \<lparr>in_transit = [sample_event], handed = []\<rparr> \<and>
    rtranclp (delivery_step 1) \<lparr>in_transit = [], handed = []\<rparr> \<lparr>in_transit = [sample_event], handed = []\<rparr>"
proof -
  let ?i = "pamd_init csv_sample_handle empty_small"
  obtain q where q: "pamd_run pg_all_ok one_event ?i =
      Some (?i\<lparr>ev_pc := Ev_listen, queue := q, socket_file := True, server_fds := 1, accepted := [sample_event]\<rparr>)"
    "lq_abs q = [sample_event]"
    using one_event_run [of empty_small] empty_small_inv small_params_ok by auto
  then have d: "delivery_of (?i\<lparr>ev_pc := Ev_listen, queue := q, socket_file := True, server_fds := 1,
      accepted := [sample_event]\<rparr>) = \<lparr>in_transit = [sample_event], handed = []\<rparr>"
    by (simp add: delivery_of_def pamd_init_def pending_def)
  show ?thesis
    using pamd_refines_delivery [OF pamd_run_reachable [OF q(1) pamd_reachable.start]] q d
      empty_small_inv small_params_ok by auto
qed

section \<open>Progress\<close>

text \<open>The database thread sleeps only on an empty queue: every push that stores wakes it.\<close>

definition wait_ok :: "pamd_state \<Rightarrow> bool" where
  "wait_ok s \<longleftrightarrow> (db_pc s = Db_wait \<longrightarrow> lq_abs (queue s) = [])"

lemma wait_ok_event:
  assumes "lq_inv (queue s)" "wait_ok s" "event_thread_step env s = Step t"
  shows "wait_ok t"
proof (cases "\<exists>d w. ev_pc s = Ev_push d w")
  case True
  then obtain d w where p: "ev_pc s = Ev_push d w" by blast
  then have t: "event_push env d w s = Step t" using assms(3) by (simp add: event_thread_step_def)
  from assms(1) show ?thesis
    by (cases rule: event_push_cases [where env = env and d = d and w = w])
      (use t assms(2) in \<open>auto simp: wait_ok_def db_pc_data_ready\<close>)
next
  case False
  then show ?thesis using assms(2,3)
    by (cases "ev_pc s")
      (auto simp: event_thread_step_def event_setup_def event_close_def event_accept_def event_recv_def wait_ok_def
        split: if_splits prod.splits accept_result.splits option.splits)
qed

lemma wait_ok_db:
  assumes "lq_inv (queue s)" "db_thread_step lib s = Step t"
  shows "wait_ok t"
proof (cases "db_pc s")
  case Db_pop
  then show ?thesis using assms lq_empty_head [OF assms(1)]
    by (auto simp: db_thread_step_def wait_ok_def dest: db_take_running split: if_splits)
next
  case Db_woken
  then show ?thesis using assms(2) by (auto simp: db_thread_step_def wait_ok_def dest: db_take_running)
qed (use assms(2) in \<open>auto simp: db_thread_step_def wait_ok_def split: if_splits prod.splits\<close>)

lemma wait_ok_step:
  assumes "pamd_step lib s t" "pamd_ok ps s" "wait_ok s"
  shows "wait_ok t"
proof -
  have inv: "lq_inv (queue s)" using assms(2) by (simp add: pamd_ok_def queue_ok_def)
  from assms(1) show ?thesis
  proof cases
    case db_thread
    then show ?thesis by (rule wait_ok_db [OF inv])
  next
    case (event_thread env)
    then show ?thesis by (rule wait_ok_event [OF inv assms(3)])
  next
    case shutdown_thread
    show ?thesis using assms(3) shutdown_keeps [OF shutdown_thread] by (auto simp: wait_ok_def)
  qed (use assms(3) in \<open>simp_all add: wait_ok_def\<close>)
qed

lemma reachable_wait_ok:
  assumes "pamd_reachable lib (pamd_init h lq) s" "lq_inv lq" "lq_abs lq = []"
  shows "pamd_ok (params lq) s \<and> wait_ok s"
  using assms(1)
proof induction
  case start
  then show ?case using pamd_init_delivery(1) [OF assms(2,3)] by (simp add: wait_ok_def pamd_init_def)
next
  case (step s t)
  then show ?case using wait_ok_step [OF step.hyps(2)] pamd_delivery.inv_step [OF _ step.hyps(2)] by blast
qed

text \<open>From the loop, three steps of the database thread hand over one queued event.\<close>

lemma drain_one:
  assumes "lq_inv (queue s)" "is_running s" "db_pc s = Db_pop \<or> db_pc s = Db_woken" "lq_abs (queue s) = d # ds"
  shows "\<exists>t. pamd_run lib (replicate 2 Run_db) s = Some t \<and> db_pc t = Db_loop \<and> is_running t \<and> lq_inv (queue t) \<and>
    lq_abs (queue t) = ds \<and> map fst (logged t) = map fst (logged s) @ [d]"
proof -
  have "db_thread_step lib s = db_take s"
    using assms(3,4) lq_empty_head [OF assms(1)] by (auto simp: db_thread_step_def)
  moreover obtain q where q: "db_take s = Step (s\<lparr>queue := q, db_pc := Db_log d\<rparr>)" "lq_inv q" "lq_abs q = ds"
    using assms(1) by (cases rule: db_take_cases) (use assms(4) in auto)
  moreover obtain ok w where "db_log_one_event lib d (db s) = (ok, w)" by fastforce
  ultimately show ?thesis using assms(2)
    by (simp add: numeral_eq_Suc outcome_state_def) (simp add: db_thread_step_def)
qed

lemma drain_loop:
  assumes "lq_inv (queue s)" "is_running s" "db_pc s = Db_loop"
  shows "\<exists>t. pamd_run lib (replicate (3 * length (lq_abs (queue s))) Run_db) s = Some t \<and>
    map fst (logged t) = map fst (logged s) @ lq_abs (queue s)"
  using assms
proof (induction "lq_abs (queue s)" arbitrary: s)
  case Nil
  then show ?case by (intro exI [of _ s]) (simp flip: Nil.hyps)
next
  case (Cons d ds)
  let ?s = "s\<lparr>db_pc := Db_pop\<rparr>"
  have one: "pamd_run lib (replicate 1 Run_db) s = Some ?s"
    using Cons.prems by (simp add: outcome_state_def db_thread_step_def)
  obtain u where u: "pamd_run lib (replicate 2 Run_db) ?s = Some u" "db_pc u = Db_loop" "is_running u"
    "lq_inv (queue u)" "lq_abs (queue u) = ds" "map fst (logged u) = map fst (logged s) @ [d]"
    using drain_one [of ?s d ds lib] Cons.prems Cons.hyps(2) by auto
  obtain t where t: "pamd_run lib (replicate (3 * length ds) Run_db) u = Some t"
    "map fst (logged t) = map fst (logged u) @ ds"
    using Cons.hyps(1) [of u] u by auto
  have "replicate (3 * length (d # ds)) Run_db = replicate 1 Run_db @ replicate 2 Run_db @ replicate (3 * length ds) Run_db"
    by (simp add: numeral_eq_Suc)
  then have "pamd_run lib (replicate (3 * length (d # ds)) Run_db) s = Some t"
    by (simp only: pamd_run_append one u(1) t(1) option.case)
  then show ?case using t(2) u(6) by (intro exI [of _ t]) (simp flip: Cons.hyps(2))
qed

lemma drain_from:
  assumes "pamd_run lib (replicate k Run_db) s = Some u" "lq_inv (queue u)" "is_running u" "db_pc u = Db_loop"
    "map fst (logged u) @ lq_abs (queue u) = acc" "k + 3 * length (lq_abs (queue u)) \<le> m"
  shows "\<exists>n \<le> m. \<exists>t. pamd_run lib (replicate n Run_db) s = Some t \<and> map fst (logged t) = acc"
proof -
  obtain t where t: "pamd_run lib (replicate (3 * length (lq_abs (queue u))) Run_db) u = Some t"
    "map fst (logged t) = map fst (logged u) @ lq_abs (queue u)"
    using drain_loop [OF assms(2-4)] by blast
  have "pamd_run lib (replicate (k + 3 * length (lq_abs (queue u))) Run_db) s = Some t"
    by (simp only: replicate_add pamd_run_append assms(1) t(1) option.case)
  then show ?thesis using t(2) assms(5,6) by blast
qed

text \<open>
  C13: Progress of the event daemon. While it runs and its database has been opened, no event is
  stuck, whatever the other threads did before: the database thread waits only on an empty
  queue, and from any reachable state at most three of its own steps per event in transit hand
  every accepted event to the database, in order.
\<close>

theorem pamd_drains:
  assumes "pamd_reachable lib (pamd_init h lq) s" "lq_inv lq" "lq_abs lq = []"
    "is_running s" "db_pc s \<notin> {Db_outer, Db_open}"
  shows "(db_pc s = Db_wait \<longrightarrow> lq_abs (queue s) = []) \<and>
    (\<exists>n \<le> 3 * length (pending s @ lq_abs (queue s)). \<exists>t. pamd_run lib (replicate n Run_db) s = Some t \<and>
       map fst (logged t) = accepted s)"
proof -
  have ok: "queue_ok (params lq) s" "shutdown_ok s" "wait_ok s"
    using reachable_wait_ok [OF assms(1-3)] by (simp_all add: pamd_ok_def)
  have inv: "lq_inv (queue s)" and acc: "accepted s = map fst (logged s) @ pending s @ lq_abs (queue s)"
    using ok(1) by (simp_all add: queue_ok_def)
  let ?goal = "\<exists>n \<le> 3 * length (pending s @ lq_abs (queue s)). \<exists>t. pamd_run lib (replicate n Run_db) s = Some t \<and>
       map fst (logged t) = accepted s"
  have pop: ?goal if p: "db_pc s = Db_pop \<or> db_pc s = Db_woken"
  proof (cases "lq_abs (queue s)")
    case Nil
    then show ?thesis using acc p by (intro exI [of _ 0]) (auto simp: pending_def)
  next
    case (Cons d ds)
    obtain u where u: "pamd_run lib (replicate 2 Run_db) s = Some u" "db_pc u = Db_loop" "is_running u"
      "lq_inv (queue u)" "lq_abs (queue u) = ds" "map fst (logged u) = map fst (logged s) @ [d]"
      using drain_one [OF inv assms(4) p Cons] by blast
    show ?thesis using acc p Cons u by (intro drain_from [OF u(1)]) (auto simp: pending_def)
  qed
  have ?goal
  proof (cases "db_pc s")
    case Db_loop
    then show ?thesis using acc inv assms(4) by (intro drain_from [of lib 0 _ s]) (simp_all add: pending_def)
  next
    case (Db_log d)
    obtain b w where "db_log_one_event lib d (db s) = (b, w)" by fastforce
    then have "pamd_run lib (replicate 1 Run_db) s = Some (s\<lparr>db := w, logged := logged s @ [(d, b)], db_pc := Db_loop\<rparr>)"
      using Db_log by (simp add: outcome_state_def db_thread_step_def)
    then show ?thesis by (rule drain_from) (use acc inv assms(4) Db_log in \<open>simp_all add: pending_def\<close>)
  next
    case Db_wait
    then show ?thesis using acc ok(3) by (intro exI [of _ 0]) (simp add: wait_ok_def pending_def)
  qed (use pop assms(4,5) ok(2) in \<open>simp_all add: shutdown_ok_def\<close>)
  then show ?thesis using ok(3) by (simp add: wait_ok_def)
qed

theorem pamd_drains_witness:
  "\<exists>s n t. pamd_run pg_all_ok (replicate 4 Run_db @ one_event) (pamd_init csv_sample_handle empty_small) = Some s \<and>
    db_pc s = Db_woken \<and> n \<le> 3 \<and> pamd_run pg_all_ok (replicate n Run_db) s = Some t \<and>
    map fst (logged t) = [sample_event]"
proof -
  obtain w where w: "db_open pg_all_ok \<lparr>calls = [], inst = Some csv_sample_handle, err = Some None\<rparr> = (True, w)"
    by (rule csv_sample_opens)
  let ?i = "pamd_init csv_sample_handle empty_small"
  let ?j = "?i\<lparr>db := w, db_pc := Db_wait\<rparr>"
  let ?env = "ev_good (log_data_bytes sample_event)"
  let ?k = "?j\<lparr>socket_file := True, server_fds := 1, ev_pc := Ev_push sample_event (wait_min small_params, 1)\<rparr>"
  have inv: "lq_inv empty_small" "lq_abs empty_small = []" "used_head empty_small = None"
    using empty_small_inv lq_empty_head by auto
  have j: "pamd_run pg_all_ok (replicate 4 Run_db) ?i = Some ?j"
    using w inv by (simp add: numeral_eq_Suc pamd_init_def db_thread_step_def outcome_state_def)
  have k: "pamd_run pg_all_ok (replicate 6 (Run_event ?env)) ?j = Some ?k"
    by (simp add: numeral_eq_Suc pamd_init_def event_step_simps sample_event_received)
  have one: "one_event = replicate 6 (Run_event ?env) @ [Run_event ?env]"
    by (simp add: one_event_def numeral_eq_Suc)
  have "lq_inv (queue ?k)" using inv by (simp add: pamd_init_def)
  then obtain q where q: "event_push ?env sample_event (wait_min small_params, 1) ?k =
      Step (data_ready (?k\<lparr>queue := q, accepted := [sample_event], ev_pc := Ev_listen\<rparr>))" "lq_abs q = [sample_event]"
    by (cases rule: event_push_cases [where env = ?env and d = sample_event and w = "(wait_min small_params, 1)"])
      (use inv small_params_ok in \<open>auto simp: pamd_init_def ev_good_def\<close>)
  let ?s = "data_ready (?k\<lparr>queue := q, accepted := [sample_event], ev_pc := Ev_listen\<rparr>)"
  have s: "pamd_run pg_all_ok (replicate 4 Run_db @ one_event) ?i = Some ?s"
    unfolding one pamd_run_append j k option.case using q(1) by (simp add: event_thread_step_def outcome_state_def)
  have f: "db_pc ?s = Db_woken" "accepted ?s = [sample_event]" "is_running ?s" "queue ?s = q" "pending ?s = []"
    by (simp_all add: db_pc_data_ready pamd_init_def pending_def)
  show ?thesis
    using pamd_drains [OF pamd_run_reachable [OF s pamd_reachable.start] inv(1,2)] s f q(2) by auto
qed

end
