(* ===== verification/Ipset_Helper.thy ===== *)
theory Ipset_Helper
  imports Prelude
begin

text \<open>
  \<open>src/firewall-daemon/ipset_helper.c\<close>, in both of its variants: over libipset's command
  interface (\<open>USE_IPSET_IPSET_API\<close>) and over its sessions. libipset is a parameter that answers
  each call with a number, depending on the calls before it.

  What libipset documents of its commands is written down once, as the effect of a call that
  returned 0 on the sets in the kernel: \<open>create\<close> makes an empty set, or leaves the one there is
  (under the option \<open>-exist\<close>, which \<open>ipset_helper_add\<close> switches on for the session; without it
  the call fails), \<open>add\<close> puts an element in,
  \<open>destroy\<close> removes a set, \<open>swap\<close> exchanges the contents of two sets, \<open>rename\<close> gives a set
  another name. A call that fails changes nothing.
\<close>

section \<open>libipset\<close>

datatype ipset_cmd = Cmd_create | Cmd_add | Cmd_destroy | Cmd_swap | Cmd_rename

datatype ipset_call =
    Load_types
  | Ipset_init
  | Ipset_fini
  | Parse_argv "cstr list"
  | Data_reset
  | Parse_setname cstr
  | Parse_setname2 cstr
  | Parse_typename cstr
  | Type_get
  | Data_set_type
  | Parse_elem cstr
  | Envopt_exist
  | Ipset_cmd ipset_cmd
  | Report_error

type_synonym ipset_history = "(ipset_call \<times> int) list"
type_synonym ipset_library = "ipset_history \<Rightarrow> ipset_call \<Rightarrow> int"

text \<open>
  The helper: whether it has a session and a set type, and the calls made through it with their
  results. For a call that returns a pointer, 0 is NULL.
\<close>

record ipset_helper =
  session :: bool
  set_type :: bool
  history :: ipset_history

definition ipset_call :: "ipset_library \<Rightarrow> ipset_call \<Rightarrow> ipset_helper \<Rightarrow> int \<times> ipset_helper" where
  "ipset_call lib c h = (let rc = lib (history h) c in (rc, h\<lparr>history := history h @ [(c, rc)]\<rparr>))"

definition ipset_do :: "ipset_library \<Rightarrow> ipset_call \<Rightarrow> ipset_helper \<Rightarrow> ipset_helper" where
  "ipset_do lib c h = snd (ipset_call lib c h)"

text \<open>Calls in a row, each one only when the one before returned 0; the last result.\<close>

fun ipset_calls :: "ipset_library \<Rightarrow> ipset_call list \<Rightarrow> int \<Rightarrow> ipset_helper \<Rightarrow> int \<times> ipset_helper" where
  "ipset_calls lib [] rc h = (rc, h)"
| "ipset_calls lib (c # cs) rc h =
     (case ipset_call lib c h of (r, h') \<Rightarrow> if r = 0 then ipset_calls lib cs r h' else (r, h'))"

section \<open>The variant over the command interface\<close>

definition api_init :: "ipset_library \<Rightarrow> bool \<Rightarrow> ipset_helper option \<times> ipset_history" where
  "api_init lib types_loaded =
     (let h0 = (if types_loaded then [] else [(Load_types, lib [] Load_types)]);
          rc = lib h0 Ipset_init; h1 = h0 @ [(Ipset_init, rc)]
      in (if rc = 0 then None else Some \<lparr>session = True, set_type = True, history = h1\<rparr>, h1))"

definition api_fini :: "ipset_library \<Rightarrow> ipset_helper \<Rightarrow> int \<times> ipset_helper" where
  "api_fini lib h = ipset_call lib Ipset_fini h"

definition api_create :: "ipset_library \<Rightarrow> cstr \<Rightarrow> ipset_helper \<Rightarrow> int \<times> ipset_helper" where
  "api_create lib set_name_rebuild h =
     ipset_call lib (Parse_argv [''ipset'', ''create'', set_name_rebuild, ''hash:net'']) h"

definition api_add :: "ipset_library \<Rightarrow> cstr \<Rightarrow> cstr \<Rightarrow> ipset_helper \<Rightarrow> int \<times> ipset_helper" where
  "api_add lib set_name_rebuild an_ip_entity h =
     ipset_call lib (Parse_argv [''ipset'', ''add'', set_name_rebuild, an_ip_entity, ''-exist'']) h"

definition api_destroy :: "ipset_library \<Rightarrow> cstr \<Rightarrow> ipset_helper \<Rightarrow> int \<times> ipset_helper" where
  "api_destroy lib set_name h = ipset_call lib (Parse_argv [''ipset'', ''destroy'', set_name]) h"

definition api_activate :: "ipset_library \<Rightarrow> cstr \<Rightarrow> cstr \<Rightarrow> ipset_helper \<Rightarrow> int \<times> ipset_helper" where
  "api_activate lib set_name_rebuild set_name_prod h =
     (case ipset_call lib (Parse_argv [''ipset'', ''swap'', set_name_rebuild, set_name_prod]) h of
        (rc, h1) \<Rightarrow>
          if rc = 0 then ipset_call lib (Parse_argv [''ipset'', ''destroy'', set_name_rebuild]) h1
          else case ipset_call lib (Parse_argv [''ipset'', ''rename'', set_name_rebuild, set_name_prod]) h1 of
                 (rc, h2) \<Rightarrow>
                   if rc = 0 then (rc, h2)
                   else ipset_call lib (Parse_argv [''ipset'', ''destroy'', set_name_rebuild]) h2)"

section \<open>The variant over sessions\<close>

definition session_init :: "ipset_library \<Rightarrow> bool \<Rightarrow> bool \<Rightarrow> ipset_helper option \<times> ipset_history" where
  "session_init lib types_loaded calloc_ok =
     (let h0 = (if types_loaded then [] else [(Load_types, lib [] Load_types)])
      in if calloc_ok
         then (let rc = lib h0 Ipset_init; h1 = h0 @ [(Ipset_init, rc)]
               in (if rc = 0 then None else Some \<lparr>session = True, set_type = False, history = h1\<rparr>, h1))
         else (None, h0))"

definition session_fini :: "ipset_library \<Rightarrow> ipset_helper \<Rightarrow> int \<times> ipset_helper" where
  "session_fini lib h = (0, if session h then ipset_do lib Ipset_fini h else h)"

definition session_create :: "ipset_library \<Rightarrow> cstr \<Rightarrow> ipset_helper \<Rightarrow> int \<times> ipset_helper" where
  "session_create lib set_name_rebuild h =
     (if session h
      then case ipset_calls lib [Parse_setname set_name_rebuild, Parse_typename ''hash:net''] 0 (ipset_do lib Data_reset h) of
             (rc, h1) \<Rightarrow>
               if rc = 0
               then case ipset_call lib Type_get h1 of
                      (ty, h2) \<Rightarrow>
                        (let h3 = h2\<lparr>set_type := (ty \<noteq> 0)\<rparr>
                         in if ty \<noteq> 0 then ipset_call lib (Ipset_cmd Cmd_create) h3 else (- 22, h3))
               else (rc, h1)
      else (- 1, h))"

text \<open>Without a set type the element cannot be parsed: \<open>set_type->last_elem_optional\<close> is an access through NULL.\<close>

definition session_add :: "ipset_library \<Rightarrow> cstr \<Rightarrow> cstr \<Rightarrow> ipset_helper \<Rightarrow> (int \<times> ipset_helper) option" where
  "session_add lib set_name_rebuild an_ip_entity h =
     (if session h
      then case ipset_calls lib [Parse_setname set_name_rebuild] 0 (ipset_do lib Data_set_type (ipset_do lib Data_reset h)) of
             (rc, h1) \<Rightarrow>
               if rc = 0
               then if set_type h1
                    then Some (case ipset_call lib (Parse_elem an_ip_entity) h1 of
                           (rc, h2) \<Rightarrow>
                             if rc = 0 then ipset_call lib (Ipset_cmd Cmd_add) (ipset_do lib Envopt_exist h2)
                             else (rc, h2))
                    else None
               else Some (rc, h1)
      else Some (- 1, h))"

definition session_destroy :: "ipset_library \<Rightarrow> cstr \<Rightarrow> ipset_helper \<Rightarrow> int \<times> ipset_helper" where
  "session_destroy lib set_name h =
     (if session h
      then ipset_calls lib [Parse_setname set_name, Ipset_cmd Cmd_destroy] 0 (ipset_do lib Data_reset h)
      else (- 1, h))"

text \<open>The swap, or the rename when the swap itself failed; \<open>should_destroy\<close> is the last component.\<close>

definition session_exchange ::
  "ipset_library \<Rightarrow> cstr \<Rightarrow> cstr \<Rightarrow> ipset_helper \<Rightarrow> int \<times> bool \<times> ipset_helper" where
  "session_exchange lib set_name_rebuild set_name_prod h =
     (case ipset_calls lib [Parse_setname set_name_rebuild, Parse_setname2 set_name_prod] 0 (ipset_do lib Data_reset h) of
        (rc, h1) \<Rightarrow>
          if rc = 0
          then case ipset_call lib (Ipset_cmd Cmd_swap) h1 of
                 (rc, h2) \<Rightarrow>
                   if rc \<noteq> 0
                   then case ipset_calls lib [Parse_setname set_name_rebuild, Parse_setname2 set_name_prod,
                               Ipset_cmd Cmd_rename] 0 (ipset_do lib Data_reset h2) of
                          (rc, h3) \<Rightarrow> (rc, rc \<noteq> 0, h3)
                   else (rc, True, h2)
          else (rc, True, h1))"

definition session_activate :: "ipset_library \<Rightarrow> cstr \<Rightarrow> cstr \<Rightarrow> ipset_helper \<Rightarrow> int \<times> ipset_helper" where
  "session_activate lib set_name_rebuild set_name_prod h =
     (if session h
      then case session_exchange lib set_name_rebuild set_name_prod h of
             (rc, should_destroy, h1) \<Rightarrow>
               (rc, if should_destroy
                    then ipset_do lib (Ipset_cmd Cmd_destroy)
                           (ipset_do lib (Parse_setname set_name_rebuild) (ipset_do lib Data_reset h1))
                    else h1)
      else (- 1, h))"

section \<open>The last error message\<close>

text \<open>
  \<open>while ( e > s && (*e || isspace(*e)) ) e--;\<close> starts at the terminating NUL, which is neither
  a character nor white space: it stops at once, and nothing is removed from the end.
\<close>

fun backtrack :: "cstr \<Rightarrow> nat \<Rightarrow> nat" where
  "backtrack s 0 = 0"
| "backtrack s (Suc k) =
     (let c = (if Suc k < length s then s ! Suc k else nul)
      in if c \<noteq> nul \<or> c_isspace c then backtrack s k else Suc k)"

definition ipset_helper_last_error_message :: "cstr option \<Rightarrow> cstr" where
  "ipset_helper_last_error_message session_error_str =
     (case session_error_str of
        None \<Rightarrow> []
      | Some t \<Rightarrow>
          (let s = dropWhile c_isspace t;
               nchar = backtrack s (length s)
           in take (if nchar \<ge> 256 then 255 else nchar) s))"

section \<open>What the calls do to the sets\<close>

type_synonym ipset_sets = "cstr \<Rightarrow> cstr set option"

text \<open>The data of a session between two resets.\<close>

record session_data =
  d_setname :: "cstr option"
  d_setname2 :: "cstr option"
  d_elem :: "cstr option"

definition no_data :: session_data where
  "no_data = \<lparr>d_setname = None, d_setname2 = None, d_elem = None\<rparr>"

definition create_set :: "cstr \<Rightarrow> ipset_sets \<Rightarrow> ipset_sets" where
  "create_set n S = S(n \<mapsto> (case S n of None \<Rightarrow> {} | Some A \<Rightarrow> A))"

definition add_elem :: "cstr \<Rightarrow> cstr \<Rightarrow> ipset_sets \<Rightarrow> ipset_sets" where
  "add_elem n x S = S(n := map_option (insert x) (S n))"

definition swap_sets :: "cstr \<Rightarrow> cstr \<Rightarrow> ipset_sets \<Rightarrow> ipset_sets" where
  "swap_sets n p S = S(n := S p, p := S n)"

definition rename_set :: "cstr \<Rightarrow> cstr \<Rightarrow> ipset_sets \<Rightarrow> ipset_sets" where
  "rename_set n p S = (S(n := None))(p := S n)"

fun argv_effect :: "cstr list \<Rightarrow> ipset_sets \<Rightarrow> ipset_sets" where
  "argv_effect [_, c, n] S = (if c = ''destroy'' then S(n := None) else S)"
| "argv_effect [_, c, n, p] S =
     (if c = ''create'' then create_set n S
      else if c = ''swap'' then swap_sets n p S
      else if c = ''rename'' then rename_set n p S else S)"
| "argv_effect [_, c, n, x, _] S = (if c = ''add'' then add_elem n x S else S)"
| "argv_effect _ S = S"

text \<open>A \<open>destroy\<close> without a name destroys every set, as documented of the command.\<close>

fun cmd_effect :: "ipset_cmd \<Rightarrow> session_data \<Rightarrow> ipset_sets \<Rightarrow> ipset_sets" where
  "cmd_effect Cmd_create d S = (case d_setname d of None \<Rightarrow> S | Some n \<Rightarrow> create_set n S)"
| "cmd_effect Cmd_add d S =
     (case (d_setname d, d_elem d) of (Some n, Some x) \<Rightarrow> add_elem n x S | _ \<Rightarrow> S)"
| "cmd_effect Cmd_destroy d S = (case d_setname d of None \<Rightarrow> (\<lambda>_. None) | Some n \<Rightarrow> S(n := None))"
| "cmd_effect Cmd_swap d S =
     (case (d_setname d, d_setname2 d) of (Some n, Some p) \<Rightarrow> swap_sets n p S | _ \<Rightarrow> S)"
| "cmd_effect Cmd_rename d S =
     (case (d_setname d, d_setname2 d) of (Some n, Some p) \<Rightarrow> rename_set n p S | _ \<Rightarrow> S)"

fun call_effect :: "session_data \<times> ipset_sets \<Rightarrow> ipset_call \<times> int \<Rightarrow> session_data \<times> ipset_sets" where
  "call_effect (d, S) (Data_reset, rc) = (no_data, S)"
| "call_effect (d, S) (Parse_setname n, rc) = (if rc = 0 then (d\<lparr>d_setname := Some n\<rparr>, S) else (d, S))"
| "call_effect (d, S) (Parse_setname2 n, rc) = (if rc = 0 then (d\<lparr>d_setname2 := Some n\<rparr>, S) else (d, S))"
| "call_effect (d, S) (Parse_elem x, rc) = (if rc = 0 then (d\<lparr>d_elem := Some x\<rparr>, S) else (d, S))"
| "call_effect (d, S) (Ipset_cmd c, rc) = (d, if rc = 0 then cmd_effect c d S else S)"
| "call_effect (d, S) (Parse_argv argv, rc) = (d, if rc = 0 then argv_effect argv S else S)"
| "call_effect (d, S) (_, rc) = (d, S)"

text \<open>The kernel's sets after a history, from the sets there were at the start.\<close>

definition ipset_world :: "ipset_sets \<Rightarrow> ipset_helper \<Rightarrow> session_data \<times> ipset_sets" where
  "ipset_world S0 h = foldl call_effect (no_data, S0) (history h)"

definition ipset_sets :: "ipset_sets \<Rightarrow> ipset_helper \<Rightarrow> ipset_sets" where
  "ipset_sets S0 h = snd (ipset_world S0 h)"

lemma ipset_call_world:
  "ipset_call lib c h = (rc, h') \<Longrightarrow> ipset_world S0 h' = call_effect (ipset_world S0 h) (c, rc) \<and>
     session h' = session h \<and> set_type h' = set_type h"
  by (auto simp: ipset_call_def ipset_world_def Let_def)

lemma ipset_do_world [simp]:
  "session (ipset_do lib c h) = session h" "set_type (ipset_do lib c h) = set_type h"
  by (simp_all add: ipset_do_def ipset_call_def Let_def)

lemma ipset_do_effect:
  "\<exists>rc. ipset_world S0 (ipset_do lib c h) = call_effect (ipset_world S0 h) (c, rc)"
  by (auto simp: ipset_do_def ipset_call_def ipset_world_def Let_def)

lemma ipset_do_reset:
  "ipset_world S0 (ipset_do lib Data_reset h) = (no_data, ipset_sets S0 h)"
  by (cases "ipset_world S0 h") (auto simp: ipset_do_def ipset_call_def ipset_world_def ipset_sets_def Let_def)

lemma ipset_do_quiet:
  "c \<in> {Data_set_type, Envopt_exist} \<Longrightarrow> ipset_world S0 (ipset_do lib c h) = ipset_world S0 h"
  by (cases "ipset_world S0 h") (auto simp: ipset_do_def ipset_call_def ipset_world_def Let_def)

section \<open>The contract of the helper\<close>

text \<open>
  What the firewall daemon relies on. \<open>ok\<close> and \<open>ready\<close> say that the helper can be used and that
  it can take elements, \<open>named\<close> that a name is one the library accepts.
\<close>

locale ipset_ops =
  fixes ok :: "'h \<Rightarrow> bool"
    and ready :: "'h \<Rightarrow> bool"
    and named :: "cstr \<Rightarrow> bool"
    and sets :: "'h \<Rightarrow> ipset_sets"
    and create :: "cstr \<Rightarrow> 'h \<Rightarrow> int \<times> 'h"
    and add :: "cstr \<Rightarrow> cstr \<Rightarrow> 'h \<Rightarrow> (int \<times> 'h) option"
    and destroy :: "cstr \<Rightarrow> 'h \<Rightarrow> int \<times> 'h"
  assumes create_law: "ok h \<Longrightarrow> create n h = (rc, h') \<Longrightarrow>
      ok h' \<and> sets h' = (if rc = 0 then create_set n (sets h) else sets h) \<and> (rc = 0 \<longrightarrow> ready h' \<and> named n)"
    and add_law: "ok h \<Longrightarrow> ready h \<Longrightarrow> \<exists>rc h'. add n x h = Some (rc, h') \<and> ok h' \<and> ready h' \<and>
      sets h' = (if rc = 0 then add_elem n x (sets h) else sets h)"
    and destroy_law: "ok h \<Longrightarrow> destroy n h = (rc, h') \<Longrightarrow>
      ok h' \<and> sets h' = (if rc = 0 then (sets h)(n := None) else sets h)"

locale ipset_activation = ipset_ops ok ready named sets create add destroy
  for ok :: "'h \<Rightarrow> bool" and ready named sets create add destroy +
  fixes activate :: "cstr \<Rightarrow> cstr \<Rightarrow> 'h \<Rightarrow> int \<times> 'h"
  assumes activate_law: "ok h \<Longrightarrow> named n \<Longrightarrow> n \<noteq> p \<Longrightarrow> activate n p h = (rc, h') \<Longrightarrow>
      ok h' \<and> sets h' p = (if rc = 0 then sets h n else sets h p)"

lemma sets_call:
  assumes "ipset_call lib c h = (rc, h')"
  shows "ipset_sets S0 h' = snd (call_effect (ipset_world S0 h) (c, rc))" "session h' = session h"
    "set_type h' = set_type h"
  using ipset_call_world [OF assms] by (simp_all add: ipset_sets_def)

lemma argv_call:
  assumes "ipset_call lib (Parse_argv argv) h = (rc, h')"
  shows "ipset_sets S0 h' = (if rc = 0 then argv_effect argv (ipset_sets S0 h) else ipset_sets S0 h)"
    "session h' = session h"
  using sets_call [OF assms] by (cases "ipset_world S0 h", simp add: ipset_sets_def)+

interpretation api: ipset_ops "\<lambda>h. True" "\<lambda>h. True" "\<lambda>n. True" "ipset_sets S0" "api_create lib"
  "\<lambda>n x h. Some (api_add lib n x h)" "api_destroy lib" for S0 lib
proof unfold_locales
  fix h h' n x rc
  show "True \<and> ipset_sets S0 h' = (if rc = 0 then create_set n (ipset_sets S0 h) else ipset_sets S0 h) \<and> (rc = 0 \<longrightarrow> True \<and> True)"
    if "api_create lib n h = (rc, h')"
    using argv_call [OF that [unfolded api_create_def]] by simp
  show "\<exists>rc h'. Some (api_add lib n x h) = Some (rc, h') \<and> True \<and> True \<and>
      ipset_sets S0 h' = (if rc = 0 then add_elem n x (ipset_sets S0 h) else ipset_sets S0 h)"
  proof -
    obtain rc h' where a: "api_add lib n x h = (rc, h')" by fastforce
    with argv_call [OF a [unfolded api_add_def]] show ?thesis by auto
  qed
  show "True \<and> ipset_sets S0 h' = (if rc = 0 then (ipset_sets S0 h)(n := None) else ipset_sets S0 h)"
    if "api_destroy lib n h = (rc, h')"
    using argv_call [OF that [unfolded api_destroy_def]] by simp
qed

text \<open>Whether a name parses is decided by the name alone.\<close>

definition names_decided :: "ipset_library \<Rightarrow> bool" where
  "names_decided lib \<longleftrightarrow> (\<forall>n. (\<forall>h. lib h (Parse_setname n) = 0) \<or> (\<forall>h. lib h (Parse_setname n) \<noteq> 0))"

definition name_parses :: "ipset_library \<Rightarrow> cstr \<Rightarrow> bool" where
  "name_parses lib n \<longleftrightarrow> (\<forall>h. lib h (Parse_setname n) = 0)"

lemma call_result: "ipset_call lib c h = (rc, h') \<Longrightarrow> rc = lib (history h) c"
  by (auto simp: ipset_call_def Let_def)

lemma session_create_law:
  assumes "session h" "session_create lib n h = (rc, h')"
  shows "session h' \<and> ipset_sets S0 h' = (if rc = 0 then create_set n (ipset_sets S0 h) else ipset_sets S0 h) \<and>
    (rc = 0 \<longrightarrow> set_type h' \<and> (names_decided lib \<longrightarrow> name_parses lib n))"
proof -
  let ?h = "ipset_do lib Data_reset h"
  obtain r1 h1 where c1: "ipset_call lib (Parse_setname n) ?h = (r1, h1)" by fastforce
  obtain r2 h2 where c2: "ipset_call lib (Parse_typename ''hash:net'') h1 = (r2, h2)" by fastforce
  obtain r3 h3 where c3: "ipset_call lib Type_get h2 = (r3, h3)" by fastforce
  let ?h3 = "h3\<lparr>set_type := (r3 \<noteq> 0)\<rparr>"
  obtain r4 h4 where c4: "ipset_call lib (Ipset_cmd Cmd_create) ?h3 = (r4, h4)" by fastforce
  have w3: "ipset_world S0 ?h3 = ipset_world S0 h3" by (simp add: ipset_world_def)
  have named: "r1 = 0 \<Longrightarrow> names_decided lib \<Longrightarrow> name_parses lib n"
    using call_result [OF c1] unfolding names_decided_def name_parses_def by metis
  show ?thesis
    using assms named c1 c2 c3 c4 ipset_call_world [OF c1, of S0] ipset_call_world [OF c2, of S0]
      ipset_call_world [OF c3, of S0] ipset_call_world [OF c4, of S0] w3 ipset_do_reset [of S0 lib h]
    by (auto simp: session_create_def ipset_sets_def no_data_def Let_def split: if_splits)
qed

lemma session_add_law:
  assumes "session h" "set_type h"
  shows "\<exists>rc h'. session_add lib n x h = Some (rc, h') \<and> session h' \<and> set_type h' \<and>
    ipset_sets S0 h' = (if rc = 0 then add_elem n x (ipset_sets S0 h) else ipset_sets S0 h)"
proof -
  let ?h0 = "ipset_do lib Data_reset h"
  let ?h = "ipset_do lib Data_set_type ?h0"
  obtain r1 h1 where c1: "ipset_call lib (Parse_setname n) ?h = (r1, h1)" by fastforce
  obtain r2 h2 where c2: "ipset_call lib (Parse_elem x) h1 = (r2, h2)" by fastforce
  let ?h2 = "ipset_do lib Envopt_exist h2"
  obtain r3 h3 where c3: "ipset_call lib (Ipset_cmd Cmd_add) ?h2 = (r3, h3)" by fastforce
  have w: "ipset_world S0 ?h = (no_data, ipset_sets S0 h)" "ipset_world S0 ?h2 = ipset_world S0 h2"
    by (simp_all add: ipset_do_quiet ipset_do_reset)
  show ?thesis
    using assms c1 c2 c3 ipset_call_world [OF c1, of S0] ipset_call_world [OF c2, of S0]
      ipset_call_world [OF c3, of S0] w
    by (auto simp: session_add_def ipset_sets_def no_data_def split: if_splits)
qed

lemma session_destroy_law:
  assumes "session h" "session_destroy lib n h = (rc, h')"
  shows "session h' \<and> ipset_sets S0 h' = (if rc = 0 then (ipset_sets S0 h)(n := None) else ipset_sets S0 h)"
proof -
  let ?h = "ipset_do lib Data_reset h"
  obtain r1 h1 where c1: "ipset_call lib (Parse_setname n) ?h = (r1, h1)" by fastforce
  obtain r2 h2 where c2: "ipset_call lib (Ipset_cmd Cmd_destroy) h1 = (r2, h2)" by fastforce
  show ?thesis
    using assms c1 c2 ipset_call_world [OF c1, of S0] ipset_call_world [OF c2, of S0] ipset_do_reset [of S0 lib h]
    by (auto simp: session_destroy_def ipset_sets_def no_data_def split: if_splits)
qed

lemma session_exchange_cases:
  assumes "session_exchange lib n p h = (rc, sd, h')"
  shows "session h' = session h \<and> set_type h' = set_type h \<and> (rc \<noteq> 0 \<longrightarrow> sd) \<and>
    ipset_sets S0 h' = (if rc \<noteq> 0 then ipset_sets S0 h else if sd then swap_sets n p (ipset_sets S0 h)
      else rename_set n p (ipset_sets S0 h))"
proof -
  let ?h = "ipset_do lib Data_reset h"
  obtain r1 h1 where c1: "ipset_call lib (Parse_setname n) ?h = (r1, h1)" by fastforce
  obtain r2 h2 where c2: "ipset_call lib (Parse_setname2 p) h1 = (r2, h2)" by fastforce
  obtain r3 h3 where c3: "ipset_call lib (Ipset_cmd Cmd_swap) h2 = (r3, h3)" by fastforce
  let ?h3 = "ipset_do lib Data_reset h3"
  obtain r4 h4 where c4: "ipset_call lib (Parse_setname n) ?h3 = (r4, h4)" by fastforce
  obtain r5 h5 where c5: "ipset_call lib (Parse_setname2 p) h4 = (r5, h5)" by fastforce
  obtain r6 h6 where c6: "ipset_call lib (Ipset_cmd Cmd_rename) h5 = (r6, h6)" by fastforce
  note w = ipset_call_world [OF c1, of S0] ipset_call_world [OF c2, of S0] ipset_call_world [OF c3, of S0]
    ipset_call_world [OF c4, of S0] ipset_call_world [OF c5, of S0] ipset_call_world [OF c6, of S0]
    ipset_do_reset [of S0 lib h] ipset_do_reset [of S0 lib h3]
  show ?thesis
    using assms c1 c2 c3 c4 c5 c6 w
    by (auto simp: session_exchange_def ipset_sets_def no_data_def split: if_splits)
qed

lemma session_activate_law:
  assumes "session h" "name_parses lib n" "n \<noteq> p" "session_activate lib n p h = (rc, h')"
  shows "session h' \<and> ipset_sets S0 h' p = (if rc = 0 then ipset_sets S0 h n else ipset_sets S0 h p)"
proof -
  obtain sd h1 where e: "session_exchange lib n p h = (rc, sd, h1)"
    "h' = (if sd then ipset_do lib (Ipset_cmd Cmd_destroy)
             (ipset_do lib (Parse_setname n) (ipset_do lib Data_reset h1)) else h1)"
    using assms(1,4) by (auto simp: session_activate_def split: prod.splits)
  let ?h = "ipset_do lib Data_reset h1"
  let ?h2 = "ipset_do lib (Parse_setname n) ?h"
  have "ipset_world S0 ?h2 = (no_data\<lparr>d_setname := Some n\<rparr>, ipset_sets S0 h1)"
    using assms(2) ipset_do_reset [of S0 lib h1]
    by (simp add: name_parses_def ipset_do_def ipset_call_def Let_def ipset_world_def)
  moreover obtain r where "ipset_world S0 (ipset_do lib (Ipset_cmd Cmd_destroy) ?h2) =
      call_effect (ipset_world S0 ?h2) (Ipset_cmd Cmd_destroy, r)"
    using ipset_do_effect by blast
  ultimately have d: "ipset_sets S0 (ipset_do lib (Ipset_cmd Cmd_destroy) ?h2) p = ipset_sets S0 h1 p"
    using assms(3) by (simp add: ipset_sets_def)
  show ?thesis
    using session_exchange_cases [OF e(1), of S0] d e(2) assms(1,3)
    by (auto simp: swap_sets_def rename_set_def)
qed

interpretation ses: ipset_activation "\<lambda>h. session h \<and> names_decided lib" set_type "name_parses lib" "ipset_sets S0"
  "session_create lib" "session_add lib" "session_destroy lib" "session_activate lib" for S0 lib
proof unfold_locales
  fix h h' :: ipset_helper and n p x rc
  assume h: "session h \<and> names_decided lib"
  show "(session h' \<and> names_decided lib) \<and>
      ipset_sets S0 h' = (if rc = 0 then create_set n (ipset_sets S0 h) else ipset_sets S0 h) \<and>
      (rc = 0 \<longrightarrow> set_type h' \<and> name_parses lib n)" if "session_create lib n h = (rc, h')"
    using session_create_law [OF _ that, of S0] h by blast
  show "\<exists>rc h'. session_add lib n x h = Some (rc, h') \<and> (session h' \<and> names_decided lib) \<and> set_type h' \<and>
      ipset_sets S0 h' = (if rc = 0 then add_elem n x (ipset_sets S0 h) else ipset_sets S0 h)" if "set_type h"
    using session_add_law [OF _ that, of lib n x S0] h by blast
  show "(session h' \<and> names_decided lib) \<and>
      ipset_sets S0 h' = (if rc = 0 then (ipset_sets S0 h)(n := None) else ipset_sets S0 h)"
    if "session_destroy lib n h = (rc, h')"
    using session_destroy_law [OF _ that, of S0] h by blast
  show "(session h' \<and> names_decided lib) \<and>
      ipset_sets S0 h' p = (if rc = 0 then ipset_sets S0 h n else ipset_sets S0 h p)"
    if "name_parses lib n" "n \<noteq> p" "session_activate lib n p h = (rc, h')"
    using session_activate_law [OF _ that, of S0] h by blast
qed

end
