(* ===== verification/Firewall_Update.thy ===== *)
theory Firewall_Update
  imports Ipset_Helper Db_Interface
begin

text \<open>
  The update of the block set in \<open>src/firewall-daemon/iptracking-firewalld.c\<close>: the timer thread
  and the callback of the database's notifications, over the helper in either variant and the
  database interface.
\<close>

section \<open>The helper as the daemon calls it\<close>

record ipset_backend =
  helper_create :: "cstr \<Rightarrow> ipset_helper \<Rightarrow> int \<times> ipset_helper"
  helper_add :: "cstr \<Rightarrow> cstr \<Rightarrow> ipset_helper \<Rightarrow> (int \<times> ipset_helper) option"
  helper_destroy :: "cstr \<Rightarrow> ipset_helper \<Rightarrow> int \<times> ipset_helper"
  helper_activate :: "cstr \<Rightarrow> cstr \<Rightarrow> ipset_helper \<Rightarrow> int \<times> ipset_helper"

definition api_backend :: "ipset_library \<Rightarrow> ipset_backend" where
  "api_backend lib = \<lparr>helper_create = api_create lib, helper_add = (\<lambda>n x h. Some (api_add lib n x h)),
     helper_destroy = api_destroy lib, helper_activate = api_activate lib\<rparr>"

definition session_backend :: "ipset_library \<Rightarrow> ipset_backend" where
  "session_backend lib = \<lparr>helper_create = session_create lib, helper_add = session_add lib,
     helper_destroy = session_destroy lib, helper_activate = session_activate lib\<rparr>"

section \<open>Filling the set\<close>

text \<open>
  \<open>while ( (ip_entity = db_blocklist_enum_next(eblocklist)) )\<close>: every entry that is not empty is
  added; one that is refused is logged and skipped. The result lists the entries that were
  added, the enumerator and the helper. Fuel bounds the turns; \<open>None\<close> is fuel that was used up
  or an invalid access.
\<close>

fun update_loop ::
  "nat \<Rightarrow> ('e \<Rightarrow> cstr option \<times> 'e) \<Rightarrow> (cstr \<Rightarrow> ipset_helper \<Rightarrow> (int \<times> ipset_helper) option) \<Rightarrow>
     'e \<Rightarrow> ipset_helper \<Rightarrow> (cstr list \<times> 'e \<times> ipset_helper) option" where
  "update_loop 0 next_op add e h = None"
| "update_loop (Suc n) next_op add e h =
     (case next_op e of
        (None, e') \<Rightarrow> Some ([], e', h)
      | (Some ip_entity, e') \<Rightarrow>
          if ip_entity = [] then update_loop n next_op add e' h
          else (case add ip_entity h of
                  None \<Rightarrow> None
                | Some (rc, h') \<Rightarrow>
                    map_option (\<lambda>(added, r). (if rc = 0 then ip_entity # added else added, r))
                      (update_loop n next_op add e' h')))"

section \<open>The two handlers\<close>

record firewall_conf =
  check_interval :: "32 word"
  name_prod :: cstr
  name_rebuild :: cstr

record firewall_state =
  the_db :: "db_handle option dbs"
  helper :: ipset_helper
  timer_abstime :: int
  timer_broadcasts :: nat

text \<open>The clock is an input; \<open>timer_abstime\<close> is in seconds.\<close>

definition reset_timer :: "int \<Rightarrow> firewall_conf \<Rightarrow> 'a firewall_state_scheme \<Rightarrow> 'a firewall_state_scheme" where
  "reset_timer now cf s = s\<lparr>timer_abstime := now + int (unat (check_interval cf))\<rparr>"

text \<open>
  One turn of the timer thread, from the return of \<open>pthread_cond_timedwait\<close>. The set is activated
  whether or not the block list could be read.
\<close>

definition timer_fill ::
  "nat \<Rightarrow> ipset_backend \<Rightarrow> db_library \<Rightarrow> firewall_conf \<Rightarrow> db_handle option dbs \<Rightarrow> ipset_helper \<Rightarrow>
     (db_handle option dbs \<times> ipset_helper) option" where
  "timer_fill fuel be lib cf w h =
     (case db_blocklist_enum_open lib (w\<lparr>err := Some None\<rparr>) of
        (None, w1) \<Rightarrow> Some (w1, h)
      | (Some en, w1) \<Rightarrow>
          (case update_loop fuel (db_blocklist_enum_next lib) (helper_add be (name_rebuild cf)) (at (Some en) w1) h of
             None \<Rightarrow> None
           | Some (_, e, h') \<Rightarrow> Some (w1\<lparr>calls := db_blocklist_enum_close lib e\<rparr>, h')))"

abbreviation ETIMEDOUT :: int where "ETIMEDOUT \<equiv> 110"

definition timer_turn ::
  "nat \<Rightarrow> ipset_backend \<Rightarrow> db_library \<Rightarrow> firewall_conf \<Rightarrow> int \<Rightarrow> int \<Rightarrow> firewall_state \<Rightarrow> firewall_state option" where
  "timer_turn fuel be lib cf wait_rc now s =
     (if wait_rc = ETIMEDOUT
      then case helper_create be (name_rebuild cf) (snd (helper_destroy be (name_rebuild cf) (helper s))) of
             (rc, h1) \<Rightarrow>
               if rc = 0
               then case timer_fill fuel be lib cf (the_db s) h1 of
                      None \<Rightarrow> None
                    | Some (w, h2) \<Rightarrow>
                        Some (reset_timer now cf
                          (s\<lparr>the_db := w, helper := snd (helper_activate be (name_rebuild cf) (name_prod cf) h2)\<rparr>))
               else Some (s\<lparr>helper := h1\<rparr>)
      else Some s)"

text \<open>The thread's loop: for each turn whether the daemon still runs, and the turn's inputs.\<close>

fun timer_thread ::
  "nat \<Rightarrow> ipset_backend \<Rightarrow> db_library \<Rightarrow> firewall_conf \<Rightarrow> (bool \<times> int \<times> int) list \<Rightarrow>
     firewall_state \<Rightarrow> firewall_state option" where
  "timer_thread fuel be lib cf [] s = Some s"
| "timer_thread fuel be lib cf ((go, wait_rc, now) # turns) s =
     (if go
      then case timer_turn fuel be lib cf wait_rc now s of
             None \<Rightarrow> None
           | Some s' \<Rightarrow> timer_thread fuel be lib cf turns s'
      else Some s)"

text \<open>
  The callback. The enumerator is the caller's, NULL when the block list is empty or could not
  be read. \<open>lock_rc\<close> is the result of \<open>pthread_mutex_lock(&timer_mutex)\<close>.
\<close>

definition notify_fill ::
  "nat \<Rightarrow> ipset_backend \<Rightarrow> db_library \<Rightarrow> firewall_conf \<Rightarrow> db_enum option dbs \<Rightarrow> ipset_helper \<Rightarrow>
     (db_enum option dbs \<times> ipset_helper) option" where
  "notify_fill fuel be lib cf e h =
     (if inst e = None then Some (e, h)
      else case update_loop fuel (db_blocklist_enum_next lib) (helper_add be (name_rebuild cf)) e h of
             None \<Rightarrow> None
           | Some (_, e', h') \<Rightarrow> Some (e', h'))"

definition firewall_notify ::
  "nat \<Rightarrow> ipset_backend \<Rightarrow> db_library \<Rightarrow> firewall_conf \<Rightarrow> int \<Rightarrow> int \<Rightarrow> db_enum option dbs \<Rightarrow>
     firewall_state \<Rightarrow> (db_enum option dbs \<times> firewall_state) option" where
  "firewall_notify fuel be lib cf lock_rc now eblocklist s =
     (case helper_create be (name_rebuild cf) (snd (helper_destroy be (name_rebuild cf) (helper s))) of
        (rc, h1) \<Rightarrow>
          if rc = 0
          then case notify_fill fuel be lib cf eblocklist h1 of
                 None \<Rightarrow> None
               | Some (e, h2) \<Rightarrow>
                   (case helper_activate be (name_rebuild cf) (name_prod cf) h2 of
                      (rc, h3) \<Rightarrow>
                        (let s1 = s\<lparr>helper := h3\<rparr>
                         in Some (e, if rc = 0 \<and> lock_rc = 0
                              then (reset_timer now cf s1)\<lparr>timer_broadcasts := timer_broadcasts s1 + 1\<rparr>
                              else s1)))
          else Some (eblocklist, s\<lparr>helper := h1\<rparr>))"

section \<open>Facts\<close>

text \<open>Adding a list of entries; the entries that were added.\<close>

fun add_entries ::
  "(cstr \<Rightarrow> 'h \<Rightarrow> (int \<times> 'h) option) \<Rightarrow> cstr list \<Rightarrow> 'h \<Rightarrow> (cstr list \<times> 'h) option" where
  "add_entries add [] h = Some ([], h)"
| "add_entries add (x # xs) h =
     (if x = [] then add_entries add xs h
      else case add x h of
             None \<Rightarrow> None
           | Some (rc, h') \<Rightarrow>
               map_option (\<lambda>(added, h''). (if rc = 0 then x # added else added, h'')) (add_entries add xs h'))"

lemma update_loop_collect:
  "collect fuel next_op e = Some (xs, e') \<Longrightarrow> update_loop fuel next_op add e h =
     map_option (\<lambda>(added, h'). (added, e', h')) (add_entries add xs h)"
proof (induction fuel arbitrary: e xs h)
  case (Suc fuel)
  show ?case
  proof (cases "next_op e")
    case (Pair r e1)
    show ?thesis
    proof (cases r)
      case None
      with Suc.prems Pair show ?thesis by auto
    next
      case (Some x)
      with Suc.prems Pair obtain ys where ys: "xs = x # ys" "collect fuel next_op e1 = Some (ys, e')" by auto
      with Pair Some Suc.IH [OF ys(2)] show ?thesis
        by (auto simp: option.map_comp comp_def split_def split: option.split intro!: option.map_cong)
    qed
  qed
qed simp

text \<open>What the rebuild set holds when it is \<open>created\<close> again after a destroy.\<close>

definition stale :: "ipset_sets \<Rightarrow> int \<Rightarrow> cstr \<Rightarrow> cstr set" where
  "stale S destroy_rc n = (if destroy_rc = 0 then {} else case S n of None \<Rightarrow> {} | Some A \<Rightarrow> A)"

text \<open>The daemon's update against the contract of the helper, whatever the implementation.\<close>

context ipset_activation
begin

lemma add_entries_sets:
  assumes "ok h" "ready h" "sets h n = Some A"
  shows "\<exists>added h'. add_entries (add n) xs h = Some (added, h') \<and> ok h' \<and>
    subseq added (filter (\<lambda>x. x \<noteq> []) xs) \<and> sets h' = (sets h)(n \<mapsto> A \<union> set added)"
  using assms
proof (induction xs arbitrary: h A)
  case Nil
  then show ?case by auto
next
  case (Cons x xs)
  show ?case
  proof (cases "x = []")
    case True
    with Cons.IH [OF Cons.prems] show ?thesis by auto
  next
    case False
    obtain rc h1 where h1: "add n x h = Some (rc, h1)" "ok h1" "ready h1"
      "sets h1 = (if rc = 0 then add_elem n x (sets h) else sets h)"
      using add_law [OF Cons.prems(1,2), of n x] by blast
    have s1: "sets h1 = (sets h)(n \<mapsto> (if rc = 0 then insert x A else A))"
      using h1(4) Cons.prems(3) by (auto simp: add_elem_def)
    have "sets h1 n = Some (if rc = 0 then insert x A else A)" using s1 by simp
    from Cons.IH [OF h1(2,3) this] obtain added h' where
      "add_entries (add n) xs h1 = Some (added, h')" "ok h'"
      "subseq added (filter (\<lambda>x. x \<noteq> []) xs)"
      "sets h' = (sets h1)(n \<mapsto> (if rc = 0 then insert x A else A) \<union> set added)"
      by blast
    note r = this
    let ?added = "if rc = 0 then x # added else added"
    have "add_entries (add n) (x # xs) h = Some (?added, h')" using h1(1) r(1) False by simp
    moreover have "sets h' = (sets h)(n \<mapsto> A \<union> set ?added)" unfolding r(4) s1 by simp
    moreover have "subseq ?added (filter (\<lambda>x. x \<noteq> []) (x # xs))"
      using r(3) False by (auto intro: list_emb_Cons)
    ultimately show ?thesis using r(2) by blast
  qed
qed

text \<open>
  Destroy, create, fill, activate: when the activation succeeds the production set holds exactly
  the entries that were added and what the rebuild set still held (nothing, when it was
  destroyed or did not exist); otherwise it is what it was.
\<close>

lemma update_sets:
  assumes "ok h" "n \<noteq> p" "destroy n h = (d_rc, h0)" "create n h0 = (0, h1)"
  shows "\<exists>added h2. add_entries (add n) xs h1 = Some (added, h2) \<and>
    subseq added (filter (\<lambda>x. x \<noteq> []) xs) \<and>
    (\<forall>rc h3. activate n p h2 = (rc, h3) \<longrightarrow>
       ok h3 \<and> sets h3 p = (if rc = 0 then Some (stale (sets h) d_rc n \<union> set added) else sets h p))"
proof -
  have h0: "ok h0" "sets h0 p = sets h p" "sets h0 n = (if d_rc = 0 then None else sets h n)"
    using destroy_law [OF assms(1,3)] assms(2) by auto
  let ?A = "stale (sets h) d_rc n"
  have h1: "ok h1" "ready h1" "named n" "sets h1 = (sets h0)(n \<mapsto> ?A)"
    using create_law [OF h0(1) assms(4)] h0(3) by (auto simp: create_set_def stale_def)
  have "sets h1 n = Some ?A" using h1(4) by simp
  from add_entries_sets [OF h1(1,2) this, of xs] obtain added h2 where
    a: "add_entries (add n) xs h1 = Some (added, h2)" "ok h2"
      "subseq added (filter (\<lambda>x. x \<noteq> []) xs)" "sets h2 = (sets h1)(n \<mapsto> ?A \<union> set added)" by blast
  have "ok h3 \<and> sets h3 p = (if rc = 0 then Some (?A \<union> set added) else sets h p)" if "activate n p h2 = (rc, h3)" for rc h3
    using activate_law [OF a(2) h1(3) assms(2) that] a(4) h0(2) h1(4) assms(2) by auto
  with a show ?thesis by (intro exI [of _ added] exI [of _ h2]) auto
qed

end

end
