(* ===== verification/Firewall_Properties.thy ===== *)
theory Firewall_Properties
  imports Firewall_Update
begin

text \<open>
  The properties of the two updates of the block set, each on its own: what the production set
  holds afterwards, and what happens when the block list cannot be read or the rebuild set cannot
  be created. \<open>Firewall_Race\<close> has the two at the same time.
\<close>

section \<open>One update\<close>

text \<open>
  What both handlers do with a list of entries: the entries that were added and the result of the
  activation, or \<open>None\<close> when the rebuild set could not be created.
\<close>

definition firewall_rebuild ::
  "ipset_backend \<Rightarrow> firewall_conf \<Rightarrow> cstr list \<Rightarrow> ipset_helper \<Rightarrow>
     ((cstr list \<times> int) option \<times> ipset_helper) option" where
  "firewall_rebuild be cf xs h =
     (case helper_create be (name_rebuild cf) (snd (helper_destroy be (name_rebuild cf) h)) of
        (rc, h1) \<Rightarrow>
          if rc = 0
          then case add_entries (helper_add be (name_rebuild cf)) xs h1 of
                 None \<Rightarrow> None
               | Some (added, h2) \<Rightarrow>
                   (case helper_activate be (name_rebuild cf) (name_prod cf) h2 of
                      (rc, h3) \<Rightarrow> Some (Some (added, rc), h3))
          else Some (None, h1))"

text \<open>The block list as the timer thread reads it; a list that cannot be opened is empty.\<close>

definition blocklist_read ::
  "nat \<Rightarrow> db_library \<Rightarrow> db_handle option dbs \<Rightarrow> (cstr list \<times> db_handle option dbs) option" where
  "blocklist_read fuel lib w =
     (case db_blocklist_enum_open lib (w\<lparr>err := Some None\<rparr>) of
        (None, w1) \<Rightarrow> Some ([], w1)
      | (Some en, w1) \<Rightarrow>
          map_option (\<lambda>(xs, e). (xs, w1\<lparr>calls := db_blocklist_enum_close lib e\<rparr>))
            (collect fuel (db_blocklist_enum_next lib) (at (Some en) w1)))"

text \<open>The list behind the enumerator the callback is given; NULL is the empty list.\<close>

definition notify_read ::
  "nat \<Rightarrow> db_library \<Rightarrow> db_enum option dbs \<Rightarrow> (cstr list \<times> db_enum option dbs) option" where
  "notify_read fuel lib e =
     (if inst e = None then Some ([], e) else collect fuel (db_blocklist_enum_next lib) e)"

lemma timer_fill_read:
  assumes "blocklist_read fuel lib w = Some (xs, w')"
  shows "timer_fill fuel be lib cf w h =
    map_option (\<lambda>(added, h'). (w', h')) (add_entries (helper_add be (name_rebuild cf)) xs h)"
  using assms update_loop_collect [of fuel "db_blocklist_enum_next lib"]
  by (auto simp: timer_fill_def blocklist_read_def option.map_comp comp_def split_def
      split: prod.splits option.splits)

lemma timer_turn_rebuild:
  assumes "blocklist_read fuel lib (the_db s) = Some (xs, w)"
  shows "timer_turn fuel be lib cf ETIMEDOUT now s =
    map_option (\<lambda>(r, h). if r = None then s\<lparr>helper := h\<rparr>
        else reset_timer now cf (s\<lparr>the_db := w, helper := h\<rparr>))
      (firewall_rebuild be cf xs (helper s))"
  by (auto simp: timer_turn_def firewall_rebuild_def timer_fill_read [OF assms] split: prod.splits option.splits)

lemma notify_fill_read:
  assumes "notify_read fuel lib e = Some (xs, e')"
  shows "notify_fill fuel be lib cf e h =
    map_option (\<lambda>(added, h'). (e', h')) (add_entries (helper_add be (name_rebuild cf)) xs h)"
  using assms update_loop_collect [of fuel "db_blocklist_enum_next lib" e xs e']
  by (auto simp: notify_fill_def notify_read_def option.map_comp comp_def split_def
      split: if_splits option.splits)

lemma firewall_notify_rebuild:
  assumes "notify_read fuel lib e = Some (xs, e')"
  shows "firewall_notify fuel be lib cf lock_rc now e s =
    map_option (\<lambda>(r, h).
        let s1 = s\<lparr>helper := h\<rparr>
        in case r of
             None \<Rightarrow> (e, s1)
           | Some (added, rc) \<Rightarrow>
               (e', if rc = 0 \<and> lock_rc = 0
                 then (reset_timer now cf s1)\<lparr>timer_broadcasts := timer_broadcasts s1 + 1\<rparr> else s1))
      (firewall_rebuild be cf xs (helper s))"
  by (auto simp: firewall_notify_def firewall_rebuild_def notify_fill_read [OF assms] Let_def
      split: prod.splits option.splits)

text \<open>An update through the session helper.\<close>

lemma session_rebuild:
  assumes "session h" "names_decided lib" "name_rebuild cf \<noteq> name_prod cf"
  shows "\<exists>r h'. firewall_rebuild (session_backend lib) cf xs h = Some (r, h') \<and> session h' \<and>
    (case r of
       None \<Rightarrow> ipset_sets S0 h' (name_prod cf) = ipset_sets S0 h (name_prod cf)
     | Some (added, rc) \<Rightarrow> subseq added (filter (\<lambda>x. x \<noteq> []) xs) \<and>
         ipset_sets S0 h' (name_prod cf) =
           (if rc = 0
            then Some (stale (ipset_sets S0 h) (fst (session_destroy lib (name_rebuild cf) h)) (name_rebuild cf) \<union> set added)
            else ipset_sets S0 h (name_prod cf)))"
proof -
  let ?n = "name_rebuild cf" and ?p = "name_prod cf"
  obtain d_rc h0 where d: "session_destroy lib ?n h = (d_rc, h0)" by fastforce
  obtain rc h1 where c: "session_create lib ?n h0 = (rc, h1)" by fastforce
  have h: "session h \<and> names_decided lib" using assms by simp
  show ?thesis
  proof (cases "rc = 0")
    case True
    obtain added h2 where a: "add_entries (session_add lib ?n) xs h1 = Some (added, h2)"
      "subseq added (filter (\<lambda>x. x \<noteq> []) xs)"
      "\<forall>rc h3. session_activate lib ?n ?p h2 = (rc, h3) \<longrightarrow> (session h3 \<and> names_decided lib) \<and>
         ipset_sets S0 h3 ?p = (if rc = 0 then Some (stale (ipset_sets S0 h) d_rc ?n \<union> set added)
           else ipset_sets S0 h ?p)"
      using ses.update_sets [OF h assms(3) d, where xs = xs] c True by blast
    obtain rc3 h3 where "session_activate lib ?n ?p h2 = (rc3, h3)" by fastforce
    then show ?thesis using a c d True
      by (intro exI [of _ "Some (added, rc3)"] exI [of _ h3])
        (simp add: firewall_rebuild_def session_backend_def)
  next
    case False
    have s0: "(session h0 \<and> names_decided lib) \<and>
        ipset_sets S0 h0 = (if d_rc = 0 then (ipset_sets S0 h)(?n := None) else ipset_sets S0 h)"
      by (rule ses.destroy_law [OF h d])
    have "(session h1 \<and> names_decided lib) \<and> ipset_sets S0 h1 = ipset_sets S0 h0"
      using ses.create_law [OF conjunct1 [OF s0] c] False by auto
    then show ?thesis using s0 c d False assms(3)
      by (intro exI [of _ None] exI [of _ h1]) (auto simp: firewall_rebuild_def session_backend_def)
  qed
qed

section \<open>A library that answers as the kernel would\<close>

text \<open>
  For concrete runs: every call is answered from the sets there are. All names parse; a command
  fails when a set it needs does not exist, or the new name of a set is in use.
\<close>

fun kernel_argv :: "cstr list \<Rightarrow> ipset_sets \<Rightarrow> int" where
  "kernel_argv [_, c, n] S = (if S n = None then 1 else 0)"
| "kernel_argv [_, c, n, p] S =
     (if c = ''create'' then 0
      else if c = ''swap'' then if S n = None \<or> S p = None then 1 else 0
      else if S n = None \<or> S p \<noteq> None then 1 else 0)"
| "kernel_argv [_, c, n, _, _] S = (if S n = None then 1 else 0)"
| "kernel_argv _ S = 1"

fun kernel_cmd :: "ipset_cmd \<Rightarrow> cstr \<Rightarrow> cstr \<Rightarrow> ipset_sets \<Rightarrow> int" where
  "kernel_cmd Cmd_create n p S = 0"
| "kernel_cmd Cmd_add n p S = (if S n = None then 1 else 0)"
| "kernel_cmd Cmd_destroy n p S = (if S n = None then 1 else 0)"
| "kernel_cmd Cmd_swap n p S = (if S n = None \<or> S p = None then 1 else 0)"
| "kernel_cmd Cmd_rename n p S = (if S n = None \<or> S p \<noteq> None then 1 else 0)"

definition kernel_library :: "ipset_sets \<Rightarrow> ipset_library" where
  "kernel_library S0 hist c =
     (case foldl call_effect (no_data, S0) hist of
        (d, S) \<Rightarrow>
          (case c of
             Parse_argv argv \<Rightarrow> kernel_argv argv S
           | Ipset_cmd k \<Rightarrow>
               (case d_setname d of
                  None \<Rightarrow> 1
                | Some n \<Rightarrow> kernel_cmd k n (case d_setname2 d of None \<Rightarrow> [] | Some p \<Rightarrow> p) S)
           | Type_get \<Rightarrow> 1
           | Ipset_init \<Rightarrow> 1
           | _ \<Rightarrow> 0))"

lemma kernel_names_decided: "names_decided (kernel_library S0)"
  by (simp add: names_decided_def kernel_library_def split: prod.split)

definition fresh_helper :: ipset_helper where
  "fresh_helper = \<lparr>session = True, set_type = False, history = []\<rparr>"

definition conf_ab :: firewall_conf where
  "conf_ab = \<lparr>check_interval = 300, name_prod = ''b'', name_rebuild = ''b_update''\<rparr>"

text \<open>The production set of an earlier update.\<close>

definition blocked_one :: ipset_sets where
  "blocked_one = [''b'' \<mapsto> {''10.0.0.1''}]"

lemmas session_eval = firewall_rebuild_def session_backend_def session_destroy_def session_create_def
  session_add_def session_activate_def session_exchange_def ipset_call_def ipset_do_def kernel_library_def
  no_data_def create_set_def add_elem_def swap_sets_def rename_set_def fresh_helper_def conf_ab_def blocked_one_def
  ipset_sets_def ipset_world_def

section \<open>The properties\<close>

text \<open>
  C8: the periodic update. With the session helper and any libipset, kernel and database, a turn
  of the timer thread does one rebuild with the list it read: when the rebuild set cannot be
  created nothing changes, neither the production set nor the wake-up time; otherwise the wake-up
  time moves on by the interval, and after a successful activation the production set holds
  exactly the added entries, a subsequence of the entries that are not empty, and what an
  undestroyed rebuild set still held. After a failed one it is what it was.
\<close>

theorem timer_update:
  assumes "session (helper s)" "names_decided lib" "name_rebuild cf \<noteq> name_prod cf"
    "blocklist_read fuel dblib (the_db s) = Some (xs, w)"
  shows "\<exists>r s'. timer_turn fuel (session_backend lib) dblib cf ETIMEDOUT now s = Some s' \<and>
    firewall_rebuild (session_backend lib) cf xs (helper s) = Some (r, helper s') \<and> session (helper s') \<and>
    (case r of
       None \<Rightarrow> timer_abstime s' = timer_abstime s \<and> the_db s' = the_db s \<and>
         ipset_sets S0 (helper s') (name_prod cf) = ipset_sets S0 (helper s) (name_prod cf)
     | Some (added, rc) \<Rightarrow> timer_abstime s' = now + int (unat (check_interval cf)) \<and> the_db s' = w \<and>
         subseq added (filter (\<lambda>x. x \<noteq> []) xs) \<and>
         ipset_sets S0 (helper s') (name_prod cf) =
           (if rc = 0
            then Some (stale (ipset_sets S0 (helper s)) (fst (session_destroy lib (name_rebuild cf) (helper s)))
              (name_rebuild cf) \<union> set added)
            else ipset_sets S0 (helper s) (name_prod cf)))"
proof -
  obtain r h' where r: "firewall_rebuild (session_backend lib) cf xs (helper s) = Some (r, h')"
    "session h'" and sets: "case r of
       None \<Rightarrow> ipset_sets S0 h' (name_prod cf) = ipset_sets S0 (helper s) (name_prod cf)
     | Some (added, rc) \<Rightarrow> subseq added (filter (\<lambda>x. x \<noteq> []) xs) \<and>
         ipset_sets S0 h' (name_prod cf) =
           (if rc = 0
            then Some (stale (ipset_sets S0 (helper s)) (fst (session_destroy lib (name_rebuild cf) (helper s)))
              (name_rebuild cf) \<union> set added)
            else ipset_sets S0 (helper s) (name_prod cf))"
    using session_rebuild [OF assms(1-3), of xs S0] by blast
  show ?thesis
    using timer_turn_rebuild [OF assms(4), of "session_backend lib" cf now] r sets
    by (cases r) (auto simp: reset_timer_def)
qed

text \<open>A database of two addresses, and what the timer thread reads from it.\<close>

definition pg_two_world :: "db_handle option dbs" where
  "pg_two_world = \<lparr>calls = [], inst = Some (Db_postgresql pg_instance), err = None\<rparr>"

definition firewall_sample :: firewall_state where
  "firewall_sample = \<lparr>the_db = pg_two_world, helper = fresh_helper, timer_abstime = 0, timer_broadcasts = 0\<rparr>"

lemma pg_two_read: "\<exists>w. blocklist_read 3 pg_two_rows pg_two_world = Some ([''10.0.0.1'', ''10.0.0.2''], w)"
  by (simp add: blocklist_read_def pg_two_world_def db_blocklist_enum_open_def driver_blocklist_enum_open_def
      pg_enum_open_def pg_choose_conn_def lib_call_def pg_two_rows_def db_blocklist_enum_next_def pg_enum_next_def
      pg_instance_def db_instance.defs db_instance_base_def db_options_isset_def numeral_eq_Suc)

lemma rebuild_two:
  "\<exists>h. firewall_rebuild (session_backend (kernel_library blocked_one)) conf_ab [''10.0.0.1'', ''10.0.0.2''] fresh_helper =
    Some (Some ([''10.0.0.1'', ''10.0.0.2''], 0), h)"
  by (simp add: session_eval)

theorem timer_update_witness:
  "\<exists>s'. timer_turn 3 (session_backend (kernel_library blocked_one)) pg_two_rows conf_ab ETIMEDOUT 1000 firewall_sample = Some s' \<and>
    timer_abstime s' = 1300 \<and> ipset_sets blocked_one (helper s') ''b'' = Some {''10.0.0.1'', ''10.0.0.2''}"
proof -
  obtain w where w: "blocklist_read 3 pg_two_rows (the_db firewall_sample) = Some ([''10.0.0.1'', ''10.0.0.2''], w)"
    using pg_two_read by (auto simp: firewall_sample_def)
  have h: "helper firewall_sample = fresh_helper" "session fresh_helper" "name_rebuild conf_ab \<noteq> name_prod conf_ab"
    by (simp_all add: firewall_sample_def fresh_helper_def conf_ab_def)
  have s: "stale (ipset_sets blocked_one fresh_helper)
      (fst (session_destroy (kernel_library blocked_one) ''b_update'' fresh_helper)) ''b_update'' = {}"
    by (simp add: stale_def session_eval)
  show ?thesis
    using timer_update [OF _ kernel_names_decided h(3) w, of blocked_one 1000 blocked_one] h rebuild_two s
    by (auto simp: conf_ab_def split: option.splits)
qed

text \<open>
  C11: the update on a notification of the database. As the periodic one, over the enumerator the
  database driver hands in; the wake-up time moves on, and the timer thread is woken, only after
  a successful activation with the lock taken.
\<close>

theorem notify_update:
  assumes "session (helper s)" "names_decided lib" "name_rebuild cf \<noteq> name_prod cf"
    "notify_read fuel dblib e = Some (xs, e')"
  shows "\<exists>r e2 s'. firewall_notify fuel (session_backend lib) dblib cf lock_rc now e s = Some (e2, s') \<and>
    firewall_rebuild (session_backend lib) cf xs (helper s) = Some (r, helper s') \<and> session (helper s') \<and>
    the_db s' = the_db s \<and>
    (case r of
       None \<Rightarrow> e2 = e \<and> s' = s\<lparr>helper := helper s'\<rparr> \<and>
         ipset_sets S0 (helper s') (name_prod cf) = ipset_sets S0 (helper s) (name_prod cf)
     | Some (added, rc) \<Rightarrow> e2 = e' \<and> subseq added (filter (\<lambda>x. x \<noteq> []) xs) \<and>
         (timer_abstime s', timer_broadcasts s') =
           (if rc = 0 \<and> lock_rc = 0 then (now + int (unat (check_interval cf)), timer_broadcasts s + 1)
            else (timer_abstime s, timer_broadcasts s)) \<and>
         ipset_sets S0 (helper s') (name_prod cf) =
           (if rc = 0
            then Some (stale (ipset_sets S0 (helper s)) (fst (session_destroy lib (name_rebuild cf) (helper s)))
              (name_rebuild cf) \<union> set added)
            else ipset_sets S0 (helper s) (name_prod cf)))"
proof -
  obtain r h' where r: "firewall_rebuild (session_backend lib) cf xs (helper s) = Some (r, h')"
    "session h'" and sets: "case r of
       None \<Rightarrow> ipset_sets S0 h' (name_prod cf) = ipset_sets S0 (helper s) (name_prod cf)
     | Some (added, rc) \<Rightarrow> subseq added (filter (\<lambda>x. x \<noteq> []) xs) \<and>
         ipset_sets S0 h' (name_prod cf) =
           (if rc = 0
            then Some (stale (ipset_sets S0 (helper s)) (fst (session_destroy lib (name_rebuild cf) (helper s)))
              (name_rebuild cf) \<union> set added)
            else ipset_sets S0 (helper s) (name_prod cf))"
    using session_rebuild [OF assms(1-3), of xs S0] by blast
  show ?thesis
    using firewall_notify_rebuild [OF assms(4), of "session_backend lib" cf lock_rc now s] r sets
    by (cases r) (auto simp: reset_timer_def Let_def)
qed

definition pg_two_enum :: "db_enum option dbs" where
  "pg_two_enum = \<lparr>calls = [], inst = Some (Enum_postgresql \<lparr>pg_i = 0, pg_i_max = 2\<rparr>), err = None\<rparr>"

lemma pg_two_notify_read:
  "\<exists>e. notify_read 3 pg_two_rows pg_two_enum = Some ([''10.0.0.1'', ''10.0.0.2''], e)"
  by (simp add: notify_read_def pg_two_enum_def lib_call_def pg_two_rows_def db_blocklist_enum_next_def
      pg_enum_next_def numeral_eq_Suc)

theorem notify_update_witness:
  "\<exists>e s'. firewall_notify 3 (session_backend (kernel_library blocked_one)) pg_two_rows conf_ab 0 1000 pg_two_enum
      firewall_sample = Some (e, s') \<and>
    timer_abstime s' = 1300 \<and> timer_broadcasts s' = 1 \<and>
    ipset_sets blocked_one (helper s') ''b'' = Some {''10.0.0.1'', ''10.0.0.2''}"
proof -
  obtain e where e: "notify_read 3 pg_two_rows pg_two_enum = Some ([''10.0.0.1'', ''10.0.0.2''], e)"
    using pg_two_notify_read by blast
  have h: "helper firewall_sample = fresh_helper" "session fresh_helper" "name_rebuild conf_ab \<noteq> name_prod conf_ab"
    by (simp_all add: firewall_sample_def fresh_helper_def conf_ab_def)
  have s: "stale (ipset_sets blocked_one fresh_helper)
      (fst (session_destroy (kernel_library blocked_one) ''b_update'' fresh_helper)) ''b_update'' = {}"
    by (simp add: stale_def session_eval)
  show ?thesis
    using notify_update [OF _ kernel_names_decided h(3) e, of firewall_sample blocked_one 0 1000 blocked_one]
      h rebuild_two s
    by (auto simp: conf_ab_def firewall_sample_def split: option.splits)
qed

text \<open>
  C20: a block list that cannot be read. When the database answers the timer's request with no
  enumerator (the query failed, or the driver has none), or the callback is given none, the
  update goes on: the production set is replaced by what the rebuild set held before, which is
  nothing when it was destroyed. Every address that was blocked no longer is.
\<close>

theorem unreadable_blocklist_unblocks:
  assumes "session (helper s)" "names_decided lib" "name_rebuild cf \<noteq> name_prod cf"
    "firewall_rebuild (session_backend lib) cf [] (helper s) = Some (Some (added, 0), h')"
    "stale (ipset_sets S0 (helper s)) (fst (session_destroy lib (name_rebuild cf) (helper s))) (name_rebuild cf) = {}"
    "db_blocklist_enum_open dblib ((the_db s)\<lparr>err := Some None\<rparr>) = (None, w)" "inst e = None"
  shows "ipset_sets S0 h' (name_prod cf) = Some {} \<and>
    timer_turn fuel (session_backend lib) dblib cf ETIMEDOUT now s =
      Some (reset_timer now cf (s\<lparr>the_db := w, helper := h'\<rparr>)) \<and>
    map_option (helper \<circ> snd) (firewall_notify fuel (session_backend lib) dblib cf lock_rc now e s) = Some h'"
proof -
  have "blocklist_read fuel dblib (the_db s) = Some ([], w)" "notify_read fuel dblib e = Some ([], e)"
    using assms(6,7) by (simp_all add: blocklist_read_def notify_read_def)
  from timer_turn_rebuild [OF this(1)] firewall_notify_rebuild [OF this(2)] show ?thesis
    using session_rebuild [OF assms(1-3), of "[]" S0] assms(4,5) by (auto simp: Let_def reset_timer_def)
qed

definition csv_world :: "db_handle option dbs" where
  "csv_world = \<lparr>calls = [], inst = Some csv_sample_handle, err = None\<rparr>"

theorem unreadable_blocklist_unblocks_witness:
  "\<exists>s'. timer_turn 1 (session_backend (kernel_library blocked_one)) pg_two_rows conf_ab ETIMEDOUT 1000
      (firewall_sample\<lparr>the_db := csv_world\<rparr>) = Some s' \<and>
    ipset_sets blocked_one fresh_helper ''b'' = Some {''10.0.0.1''} \<and>
    ipset_sets blocked_one (helper s') ''b'' = Some {}"
proof -
  let ?s = "firewall_sample\<lparr>the_db := csv_world\<rparr>"
  let ?lib = "kernel_library blocked_one"
  have "\<exists>h'. firewall_rebuild (session_backend ?lib) conf_ab [] fresh_helper = Some (Some ([], 0), h')"
    by (simp add: session_eval)
  then obtain h' where h': "firewall_rebuild (session_backend ?lib) conf_ab [] (helper ?s) = Some (Some ([], 0), h')"
    by (auto simp: firewall_sample_def)
  have h: "session (helper ?s)" "name_rebuild conf_ab \<noteq> name_prod conf_ab"
    by (simp_all add: firewall_sample_def fresh_helper_def conf_ab_def)
  have s: "stale (ipset_sets blocked_one (helper ?s))
      (fst (session_destroy ?lib (name_rebuild conf_ab) (helper ?s))) (name_rebuild conf_ab) = {}"
    by (simp add: stale_def firewall_sample_def session_eval)
  obtain w where w: "db_blocklist_enum_open pg_two_rows ((the_db ?s)\<lparr>err := Some None\<rparr>) = (None, w)"
    by (simp add: db_blocklist_enum_open_def csv_world_def csv_sample_handle_def driver_blocklist_enum_open_def
        db_instance.defs db_instance_base_def db_options_isset_def)
  have "inst (pg_two_enum\<lparr>inst := None\<rparr>) = None" by simp
  from unreadable_blocklist_unblocks [OF h(1) kernel_names_decided h(2) h' s w this, of 1 1000 0]
  have "ipset_sets blocked_one h' ''b'' = Some {}"
    "\<exists>s'. timer_turn 1 (session_backend ?lib) pg_two_rows conf_ab ETIMEDOUT 1000 ?s = Some s' \<and> helper s' = h'"
    by (auto simp: conf_ab_def reset_timer_def)
  moreover have "ipset_sets blocked_one fresh_helper ''b'' = Some {''10.0.0.1''}" by (simp add: session_eval)
  ultimately show ?thesis by auto
qed


definition refusing_library :: ipset_library where
  "refusing_library hist c = (case c of Parse_argv (_ # cmd # _) \<Rightarrow> if cmd = ''create'' then 1 else 0 | _ \<Rightarrow> 0)"


text \<open>
  The activation over the command interface. The production set is exchanged when the swap or
  the rename succeeds, but the result is that of the last command: it is 0 after a failed
  exchange when the rebuild set could be destroyed, and not 0 after a successful swap when it
  could not.
\<close>

theorem api_activate_result:
  assumes "n \<noteq> p" "api_activate lib n p h = (rc, h')"
    "ipset_call lib (Parse_argv [''ipset'', ''swap'', n, p]) h = (swap, h1)"
    "ipset_call lib (Parse_argv [''ipset'', ''rename'', n, p]) h1 = (rename, h2)"
    "ipset_call lib (Parse_argv [''ipset'', ''destroy'', n]) (if swap = 0 then h1 else h2) = (destroy, h3)"
  shows "ipset_sets S0 h' p = (if swap = 0 \<or> rename = 0 then ipset_sets S0 h n else ipset_sets S0 h p) \<and>
    rc = (if swap \<noteq> 0 \<and> rename = 0 then 0 else destroy)"
  using assms argv_call(1) [OF assms(3), of S0] argv_call(1) [OF assms(4), of S0] argv_call(1) [OF assms(5), of S0]
  by (auto simp: api_activate_def swap_sets_def rename_set_def split: if_splits)

definition only_destroys :: ipset_library where
  "only_destroys hist c = (case c of Parse_argv (_ # cmd # _) \<Rightarrow> if cmd = ''destroy'' then 0 else 1 | _ \<Rightarrow> 0)"

theorem api_activate_result_witness:
  "\<exists>h'. api_activate only_destroys ''b_update'' ''b'' fresh_helper = (0, h') \<and>
    ipset_sets [''b'' \<mapsto> {''10.0.0.1''}, ''b_update'' \<mapsto> {''10.0.0.2''}] h' ''b'' = Some {''10.0.0.1''}"
proof -
  let ?argv = "\<lambda>c. Parse_argv [''ipset'', c, ''b_update'', ''b'']"
  let ?c3 = "Parse_argv [''ipset'', ''destroy'', ''b_update'']"
  obtain rc h' where a: "api_activate only_destroys ''b_update'' ''b'' fresh_helper = (rc, h')" by fastforce
  have c: "ipset_call only_destroys (?argv ''swap'') fresh_helper = (1, fresh_helper\<lparr>history := [(?argv ''swap'', 1)]\<rparr>)"
    "ipset_call only_destroys (?argv ''rename'') (fresh_helper\<lparr>history := [(?argv ''swap'', 1)]\<rparr>) =
      (1, fresh_helper\<lparr>history := [(?argv ''swap'', 1), (?argv ''rename'', 1)]\<rparr>)"
    "ipset_call only_destroys ?c3 (if (1 :: int) = 0 then fresh_helper\<lparr>history := [(?argv ''swap'', 1)]\<rparr>
        else fresh_helper\<lparr>history := [(?argv ''swap'', 1), (?argv ''rename'', 1)]\<rparr>) =
      (0, fresh_helper\<lparr>history := [(?argv ''swap'', 1), (?argv ''rename'', 1), (?c3, 0)]\<rparr>)"
    by (simp_all add: ipset_call_def only_destroys_def fresh_helper_def Let_def)
  show ?thesis
    using api_activate_result [OF _ a c, of "[''b'' \<mapsto> {''10.0.0.1''}, ''b_update'' \<mapsto> {''10.0.0.2''}]"] a
    by (simp add: ipset_sets_def ipset_world_def fresh_helper_def)
qed

end
