(* ===== verification/Helper_Programs.thy ===== *)
theory Helper_Programs
  imports Firewall_Properties
begin

text \<open>
  The helper and the update of the block set as programs whose steps are the single calls of
  libipset, so that two threads can interleave between any two of them:
  \<open>src/firewall-daemon/ipset_helper.c\<close> takes no lock, and both threads of the firewall daemon use
  one session. Run without interruption, a program is the function of Ipset_Helper.
\<close>

section \<open>Programs\<close>

text \<open>
  A call of libipset with what follows its result, the block list of the update, the fields
  \<open>session\<close> and \<open>set_type\<close> of the helper, and an access through NULL.
\<close>

datatype 'a prog =
    Return 'a
  | Lib ipset_call "int \<Rightarrow> 'a prog"
  | Block_list "cstr list \<Rightarrow> 'a prog"
  | Has_session "bool \<Rightarrow> 'a prog"
  | Has_type "bool \<Rightarrow> 'a prog"
  | Put_type bool "'a prog"
  | Fault

primrec followed_by :: "'a prog \<Rightarrow> ('a \<Rightarrow> 'b prog) \<Rightarrow> 'b prog" where
  "followed_by (Return a) f = f a"
| "followed_by (Lib c k) f = Lib c (\<lambda>rc. followed_by (k rc) f)"
| "followed_by (Block_list k) f = Block_list (\<lambda>xs. followed_by (k xs) f)"
| "followed_by (Has_session k) f = Has_session (\<lambda>b. followed_by (k b) f)"
| "followed_by (Has_type k) f = Has_type (\<lambda>b. followed_by (k b) f)"
| "followed_by (Put_type b k) f = Put_type b (followed_by k f)"
| "followed_by Fault f = Fault"

text \<open>One step; \<open>None\<close> at the end and at an access through NULL.\<close>

fun prog_step ::
  "ipset_library \<Rightarrow> cstr list \<Rightarrow> 'a prog \<Rightarrow> ipset_helper \<Rightarrow> ('a prog \<times> ipset_helper) option" where
  "prog_step lib xs (Return a) h = None"
| "prog_step lib xs (Lib c k) h = (case ipset_call lib c h of (rc, h') \<Rightarrow> Some (k rc, h'))"
| "prog_step lib xs (Block_list k) h = Some (k xs, h)"
| "prog_step lib xs (Has_session k) h = Some (k (session h), h)"
| "prog_step lib xs (Has_type k) h = Some (k (set_type h), h)"
| "prog_step lib xs (Put_type b k) h = Some (k, h\<lparr>set_type := b\<rparr>)"
| "prog_step lib xs Fault h = None"

text \<open>All steps, without interruption.\<close>

primrec run_prog ::
  "ipset_library \<Rightarrow> cstr list \<Rightarrow> 'a prog \<Rightarrow> ipset_helper \<Rightarrow> ('a \<times> ipset_helper) option" where
  "run_prog lib xs (Return a) = (\<lambda>h. Some (a, h))"
| "run_prog lib xs (Lib c k) = (\<lambda>h. case ipset_call lib c h of (rc, h') \<Rightarrow> run_prog lib xs (k rc) h')"
| "run_prog lib xs (Block_list k) = (\<lambda>h. run_prog lib xs (k xs) h)"
| "run_prog lib xs (Has_session k) = (\<lambda>h. run_prog lib xs (k (session h)) h)"
| "run_prog lib xs (Has_type k) = (\<lambda>h. run_prog lib xs (k (set_type h)) h)"
| "run_prog lib xs (Put_type b k) = (\<lambda>h. run_prog lib xs k (h\<lparr>set_type := b\<rparr>))"
| "run_prog lib xs Fault = (\<lambda>h. None)"

section \<open>The helper\<close>

record ipset_programs =
  create_prog :: "cstr \<Rightarrow> int prog"
  add_prog :: "cstr \<Rightarrow> cstr \<Rightarrow> int prog"
  destroy_prog :: "cstr \<Rightarrow> int prog"
  activate_prog :: "cstr \<Rightarrow> cstr \<Rightarrow> int prog"

abbreviation if_session :: "int prog \<Rightarrow> int prog" where
  "if_session p \<equiv> Has_session (\<lambda>b. if b then Lib Data_reset (\<lambda>_. p) else Return (- 1))"

definition session_create_prog :: "cstr \<Rightarrow> int prog" where
  "session_create_prog n =
     if_session (Lib (Parse_setname n) (\<lambda>rc. if rc \<noteq> 0 then Return rc
       else Lib (Parse_typename ''hash:net'') (\<lambda>rc. if rc \<noteq> 0 then Return rc
       else Lib Type_get (\<lambda>ty. Put_type (ty \<noteq> 0)
         (if ty \<noteq> 0 then Lib (Ipset_cmd Cmd_create) Return else Return (- 22))))))"

definition session_add_prog :: "cstr \<Rightarrow> cstr \<Rightarrow> int prog" where
  "session_add_prog n x =
     if_session (Lib Data_set_type (\<lambda>_. Lib (Parse_setname n) (\<lambda>rc. if rc \<noteq> 0 then Return rc
       else Has_type (\<lambda>ty. if \<not> ty then Fault
       else Lib (Parse_elem x) (\<lambda>rc. if rc \<noteq> 0 then Return rc
       else Lib Envopt_exist (\<lambda>_. Lib (Ipset_cmd Cmd_add) Return))))))"

definition session_destroy_prog :: "cstr \<Rightarrow> int prog" where
  "session_destroy_prog n =
     if_session (Lib (Parse_setname n) (\<lambda>rc. if rc \<noteq> 0 then Return rc else Lib (Ipset_cmd Cmd_destroy) Return))"

text \<open>\<open>if ( should_destroy )\<close>.\<close>

definition forced_destroy_prog :: "cstr \<Rightarrow> int \<Rightarrow> int prog" where
  "forced_destroy_prog n rc =
     Lib Data_reset (\<lambda>_. Lib (Parse_setname n) (\<lambda>_. Lib (Ipset_cmd Cmd_destroy) (\<lambda>_. Return rc)))"

definition session_rename_prog :: "cstr \<Rightarrow> cstr \<Rightarrow> int prog" where
  "session_rename_prog n p =
     Lib Data_reset (\<lambda>_. Lib (Parse_setname n) (\<lambda>rc. if rc \<noteq> 0 then forced_destroy_prog n rc
       else Lib (Parse_setname2 p) (\<lambda>rc. if rc \<noteq> 0 then forced_destroy_prog n rc
       else Lib (Ipset_cmd Cmd_rename) (\<lambda>rc. if rc \<noteq> 0 then forced_destroy_prog n rc else Return rc))))"

definition session_activate_prog :: "cstr \<Rightarrow> cstr \<Rightarrow> int prog" where
  "session_activate_prog n p =
     if_session (Lib (Parse_setname n) (\<lambda>rc. if rc \<noteq> 0 then forced_destroy_prog n rc
       else Lib (Parse_setname2 p) (\<lambda>rc. if rc \<noteq> 0 then forced_destroy_prog n rc
       else Lib (Ipset_cmd Cmd_swap) (\<lambda>rc. if rc \<noteq> 0 then session_rename_prog n p
         else forced_destroy_prog n rc))))"

definition session_programs :: ipset_programs where
  "session_programs = \<lparr>create_prog = session_create_prog, add_prog = session_add_prog,
     destroy_prog = session_destroy_prog, activate_prog = session_activate_prog\<rparr>"

text \<open>The variant over the command interface.\<close>

abbreviation argv_prog :: "cstr list \<Rightarrow> int prog" where
  "argv_prog argv \<equiv> Lib (Parse_argv argv) Return"

definition api_programs :: ipset_programs where
  "api_programs =
     \<lparr>create_prog = (\<lambda>n. argv_prog [''ipset'', ''create'', n, ''hash:net'']),
      add_prog = (\<lambda>n x. argv_prog [''ipset'', ''add'', n, x, ''-exist'']),
      destroy_prog = (\<lambda>n. argv_prog [''ipset'', ''destroy'', n]),
      activate_prog = (\<lambda>n p. Lib (Parse_argv [''ipset'', ''swap'', n, p]) (\<lambda>rc.
        if rc = 0 then argv_prog [''ipset'', ''destroy'', n]
        else Lib (Parse_argv [''ipset'', ''rename'', n, p]) (\<lambda>rc.
          if rc = 0 then Return rc else argv_prog [''ipset'', ''destroy'', n])))\<rparr>"

section \<open>The update\<close>

fun add_list :: "ipset_programs \<Rightarrow> cstr \<Rightarrow> cstr list \<Rightarrow> 'a prog \<Rightarrow> 'a prog" where
  "add_list ps n [] q = q"
| "add_list ps n (x # xs) q =
     (if x = [] then add_list ps n xs q else followed_by (add_prog ps n x) (\<lambda>_. add_list ps n xs q))"

text \<open>The result is that of the activation, or \<open>None\<close> when the rebuild set could not be created.\<close>

definition activate_last :: "ipset_programs \<Rightarrow> firewall_conf \<Rightarrow> int option prog" where
  "activate_last ps cf =
     followed_by (activate_prog ps (name_rebuild cf) (name_prod cf)) (\<lambda>rc. Return (Some rc))"

definition update_fill :: "ipset_programs \<Rightarrow> firewall_conf \<Rightarrow> int \<Rightarrow> int option prog" where
  "update_fill ps cf rc =
     (if rc = 0 then Block_list (\<lambda>xs. add_list ps (name_rebuild cf) xs (activate_last ps cf)) else Return None)"

definition update_prog :: "ipset_programs \<Rightarrow> firewall_conf \<Rightarrow> int option prog" where
  "update_prog ps cf =
     followed_by (destroy_prog ps (name_rebuild cf)) (\<lambda>_.
       followed_by (create_prog ps (name_rebuild cf)) (update_fill ps cf))"

section \<open>Programs run without interruption\<close>

lemma followed_by_Return [simp]: "followed_by p Return = p"
  by (induction p) simp_all

lemma run_followed_by:
  "run_prog lib xs (followed_by p f) h =
    (case run_prog lib xs p h of None \<Rightarrow> None | Some (a, h') \<Rightarrow> run_prog lib xs (f a) h')"
  by (induction p arbitrary: h) (simp_all split: prod.split)

text \<open>The programs of a backend.\<close>

definition runs_as :: "ipset_library \<Rightarrow> ipset_programs \<Rightarrow> ipset_backend \<Rightarrow> bool" where
  "runs_as lib ps be \<longleftrightarrow> (\<forall>xs n p x h.
     run_prog lib xs (create_prog ps n) h = Some (helper_create be n h) \<and>
     run_prog lib xs (add_prog ps n x) h = helper_add be n x h \<and>
     run_prog lib xs (destroy_prog ps n) h = Some (helper_destroy be n h) \<and>
     run_prog lib xs (activate_prog ps n p) h = Some (helper_activate be n p h))"

lemma run_session_create: "run_prog lib xs (session_create_prog n) h = Some (session_create lib n h)"
  by (simp add: session_create_prog_def session_create_def ipset_do_def Let_def split: prod.split)

lemma run_session_destroy: "run_prog lib xs (session_destroy_prog n) h = Some (session_destroy lib n h)"
  by (simp add: session_destroy_prog_def session_destroy_def ipset_do_def split: prod.split)

lemma run_session_add: "run_prog lib xs (session_add_prog n x) h = session_add lib n x h"
  by (simp add: session_add_prog_def session_add_def ipset_do_def split: prod.split)

lemma run_forced_destroy: "run_prog lib xs (forced_destroy_prog n rc) h =
    Some (rc, ipset_do lib (Ipset_cmd Cmd_destroy) (ipset_do lib (Parse_setname n) (ipset_do lib Data_reset h)))"
  by (simp add: forced_destroy_prog_def ipset_do_def split: prod.split)

text \<open>What \<open>should_destroy\<close> adds to the exchange.\<close>

lemma run_session_activate: "run_prog lib xs (session_activate_prog n p) h = Some (session_activate lib n p h)"
proof (cases "session h")
  case True
  have r: "run_prog lib xs (session_rename_prog n p) g =
      (case ipset_calls lib [Parse_setname n, Parse_setname2 p, Ipset_cmd Cmd_rename] 0 (ipset_do lib Data_reset g) of
         (rc, g') \<Rightarrow> if rc = 0 then Some (0, g') else run_prog lib xs (forced_destroy_prog n rc) g')" for g
    by (simp add: session_rename_prog_def ipset_do_def split: prod.split)
  have d: "session_activate lib n p h =
      (case session_exchange lib n p h of
         (rc, b, h1) \<Rightarrow> (rc, if b then snd (the (run_prog lib xs (forced_destroy_prog n rc) h1)) else h1))"
    using True by (simp add: session_activate_def run_forced_destroy split: prod.split)
  show ?thesis
    using True unfolding d
    by (simp add: session_activate_prog_def r session_exchange_def run_forced_destroy ipset_do_def [of lib Data_reset]
        split: prod.split)
qed (simp add: session_activate_prog_def session_activate_def)

lemma session_runs: "runs_as lib session_programs (session_backend lib)"
  by (simp add: runs_as_def session_programs_def session_backend_def run_session_create run_session_add
      run_session_destroy run_session_activate)

lemma api_runs: "runs_as lib api_programs (api_backend lib)"
  by (simp add: runs_as_def api_programs_def api_backend_def api_create_def api_add_def api_destroy_def
      api_activate_def split: prod.split)

lemma run_add_list:
  assumes "runs_as lib ps be"
  shows "run_prog lib ys (add_list ps n xs q) h =
    (case add_entries (helper_add be n) xs h of None \<Rightarrow> None | Some (_, h') \<Rightarrow> run_prog lib ys q h')"
  using assms
proof (induction xs arbitrary: h)
  case (Cons x xs)
  then have "run_prog lib ys (add_prog ps n x) h = helper_add be n x h" by (simp add: runs_as_def)
  with Cons show ?case by (auto simp: run_followed_by split: option.split)
qed simp

lemma update_runs:
  assumes "runs_as lib ps be"
  shows "run_prog lib xs (update_prog ps cf) h =
    map_option (\<lambda>(r, h'). (map_option snd r, h')) (firewall_rebuild be cf xs h)"
  using assms [unfolded runs_as_def]
  by (simp add: run_add_list [OF assms] update_prog_def update_fill_def activate_last_def firewall_rebuild_def run_followed_by
      split: option.split prod.split)

text \<open>
  The program of an update, run without interruption, is the update as both handlers make it,
  in both variants of the helper: the same calls of libipset in the same order, the same result
  and the same accesses through NULL.
\<close>

theorem update_program_runs:
  "run_prog lib xs (update_prog session_programs cf) h =
    map_option (\<lambda>(r, h'). (map_option snd r, h')) (firewall_rebuild (session_backend lib) cf xs h) \<and>
   run_prog lib xs (update_prog api_programs cf) h =
    map_option (\<lambda>(r, h'). (map_option snd r, h')) (firewall_rebuild (api_backend lib) cf xs h)"
  using update_runs [OF session_runs] update_runs [OF api_runs] by blast

end
