(* ===== verification/Firewall_Race.thy ===== *)
theory Firewall_Race
  imports Helper_Programs
begin

text \<open>
  The two updates of the block set at the same time: \<open>timer_thread_entry\<close> holds \<open>timer_mutex\<close>
  while it rebuilds, \<open>firewall_notify\<close> takes it only after its activation. Both work on the
  same rebuild set through the same session, which no lock protects: between any two calls of
  libipset the other thread can make its own.
\<close>

section \<open>Two programs on one helper\<close>

text \<open>The timer's program and the notification's, each with the block list it reads.\<close>

inductive both_step ::
  "ipset_library \<Rightarrow> cstr list \<Rightarrow> cstr list \<Rightarrow> 'a prog \<times> 'b prog \<times> ipset_helper \<Rightarrow>
     'a prog \<times> 'b prog \<times> ipset_helper \<Rightarrow> bool" for lib xs ys where
  timer: "prog_step lib xs t h = Some (t', h') \<Longrightarrow> both_step lib xs ys (t, u, h) (t', u, h')"
| notify: "prog_step lib ys u h = Some (u', h') \<Longrightarrow> both_step lib xs ys (t, u, h) (t, u', h')"

inductive_cases both_stepE: "both_step lib xs ys (t, u, h) (t', u', h')"

abbreviation both_run where
  "both_run lib xs ys \<equiv> (both_step lib xs ys)\<^sup>*\<^sup>*"

lemma timer_then:
  "prog_step lib xs t h = Some (t', h') \<Longrightarrow> both_run lib xs ys (t', u, h') s \<Longrightarrow> both_run lib xs ys (t, u, h) s"
  by (rule converse_rtranclp_into_rtranclp) (rule both_step.timer)

text \<open>The roles of the two can be exchanged.\<close>

lemma both_swap:
  "both_run lib xs ys (t, u, h) (t', u', h') \<Longrightarrow> both_run lib ys xs (u, t, h) (u', t', h')"
proof (induction "(t', u', h')" arbitrary: t' u' h' rule: rtranclp_induct)
  case (step y)
  obtain t1 u1 h1 where y: "y = (t1, u1, h1)" by (cases y)
  from step(2) have "both_step lib ys xs (u1, t1, h1) (u', t', h')"
    unfolding y by (auto elim!: both_stepE intro: both_step.intros)
  with step(3) [OF y] show ?case by (rule rtranclp.rtrancl_into_rtrancl)
qed simp

text \<open>A part of one program that runs to its end while the other stands still.\<close>

lemma timer_part:
  "run_prog lib xs p h = Some (a, h') \<Longrightarrow> both_run lib xs ys (followed_by p f, u, h) (f a, u, h')"
proof (induction p arbitrary: h)
  case (Lib c k)
  obtain rc h1 where c: "ipset_call lib c h = (rc, h1)" by fastforce
  then have "both_run lib xs ys (followed_by (k rc) f, u, h1) (f a, u, h')"
    using Lib by simp
  then show ?case by (rule timer_then [rotated]) (simp add: c)
next
  case (Block_list k)
  show ?case by (rule timer_then [OF _ Block_list.IH [of "k xs"]]) (use Block_list.prems in simp_all)
next
  case (Has_session k)
  show ?case by (rule timer_then [OF _ Has_session.IH [of "k (session h)"]]) (use Has_session.prems in simp_all)
next
  case (Has_type k)
  show ?case by (rule timer_then [OF _ Has_type.IH [of "k (set_type h)"]]) (use Has_type.prems in simp_all)
next
  case (Put_type b k)
  show ?case by (rule timer_then [OF _ Put_type.IH]) (use Put_type.prems in simp_all)
qed simp_all

lemma timer_list:
  assumes "runs_as lib ps be" "add_entries (helper_add be n) zs h = Some (added, h')"
  shows "both_run lib xs ys (add_list ps n zs q, u, h) (q, u, h')"
  using assms(2)
proof (induction zs arbitrary: h added)
  case (Cons x zs)
  show ?case
  proof (cases "x = []")
    case False
    with Cons.prems obtain rc h1 added1 where a: "helper_add be n x h = Some (rc, h1)"
      "add_entries (helper_add be n) zs h1 = Some (added1, h')"
      by (auto split: option.splits prod.splits)
    from a(1) assms(1) have "run_prog lib xs (add_prog ps n x) h = Some (rc, h1)" by (simp add: runs_as_def)
    then have "both_run lib xs ys (followed_by (add_prog ps n x) (\<lambda>_. add_list ps n zs q), u, h) (add_list ps n zs q, u, h1)"
      by (rule timer_part)
    with Cons.IH [OF a(2)] False show ?thesis by (auto intro: rtranclp_trans)
  qed (use Cons in auto)
qed simp

lemmas notify_part = timer_part [THEN both_swap]
lemmas notify_list = timer_list [THEN both_swap]

section \<open>The kernel's answers\<close>

lemma kernel_call:
  assumes "ipset_call (kernel_library S0) c h = (rc, h')"
  shows "rc = kernel_library S0 (history h) c" "session h' = session h"
  using call_result [OF assms] ipset_call_world [OF assms, of S0] by simp_all

lemma kernel_world: "kernel_library S0 (history h) c =
    (case ipset_world S0 h of (d, S) \<Rightarrow>
       (case c of
          Parse_argv argv \<Rightarrow> kernel_argv argv S
        | Ipset_cmd k \<Rightarrow>
             (case d_setname d of
                None \<Rightarrow> 1
              | Some n \<Rightarrow> kernel_cmd k n (case d_setname2 d of None \<Rightarrow> [] | Some p \<Rightarrow> p) S)
         | Type_get \<Rightarrow> 1 | Ipset_init \<Rightarrow> 1 | _ \<Rightarrow> 0))"
  by (simp add: kernel_library_def ipset_world_def)

lemma kernel_destroy:
  assumes "session h" "session_destroy (kernel_library S0) n h = (rc, h')"
  shows "rc = (if ipset_sets S0 h n = None then 1 else 0)"
proof -
  let ?lib = "kernel_library S0" and ?h = "ipset_do (kernel_library S0) Data_reset h"
  obtain r1 h1 where c1: "ipset_call ?lib (Parse_setname n) ?h = (r1, h1)" by fastforce
  obtain r2 h2 where c2: "ipset_call ?lib (Ipset_cmd Cmd_destroy) h1 = (r2, h2)" by fastforce
  have r1: "r1 = 0" using call_result [OF c1] by (simp add: kernel_world split: prod.split)
  have w: "ipset_world S0 h1 = (no_data\<lparr>d_setname := Some n\<rparr>, ipset_sets S0 h)"
    using ipset_call_world [OF c1, of S0] ipset_do_reset [of S0 ?lib h] r1 by simp
  have "r2 = (if ipset_sets S0 h n = None then 1 else 0)"
    using call_result [OF c2] by (simp add: kernel_world w)
  then show ?thesis using assms c1 c2 r1 by (auto simp: session_destroy_def)
qed

lemma kernel_create:
  assumes "session h" "session_create (kernel_library S0) n h = (rc, h')"
  shows "rc = 0"
proof -
  let ?lib = "kernel_library S0" and ?h = "ipset_do (kernel_library S0) Data_reset h"
  obtain r1 h1 where c1: "ipset_call ?lib (Parse_setname n) ?h = (r1, h1)" by fastforce
  obtain r2 h2 where c2: "ipset_call ?lib (Parse_typename ''hash:net'') h1 = (r2, h2)" by fastforce
  obtain r3 h3 where c3: "ipset_call ?lib Type_get h2 = (r3, h3)" by fastforce
  obtain r4 h4 where c4: "ipset_call ?lib (Ipset_cmd Cmd_create) (h3\<lparr>set_type := True\<rparr>) = (r4, h4)" by fastforce
  have r: "r1 = 0" "r2 = 0" "r3 = 1"
    using call_result [OF c1] call_result [OF c2] call_result [OF c3]
    by (simp_all add: kernel_world split: prod.split)
  have "d_setname (fst (ipset_world S0 h3)) = Some n"
    using ipset_call_world [OF c1, of S0] ipset_call_world [OF c2, of S0] ipset_call_world [OF c3, of S0]
      ipset_do_reset [of S0 ?lib h] r
    by simp
  moreover have "ipset_world S0 (h3\<lparr>set_type := True\<rparr>) = ipset_world S0 h3" by (simp add: ipset_world_def)
  ultimately have "r4 = 0" using call_result [OF c4]
    by (cases "ipset_world S0 h3") (simp add: kernel_world)
  with r show ?thesis using assms c1 c2 c3 c4 by (simp add: session_create_def Let_def)
qed

lemma kernel_add:
  assumes "session h" "set_type h"
  shows "\<exists>h'. session_add (kernel_library S0) n x h = Some (if ipset_sets S0 h n = None then 1 else 0, h') \<and>
    session h' \<and> set_type h' \<and>
    ipset_sets S0 h' = (if ipset_sets S0 h n = None then ipset_sets S0 h else add_elem n x (ipset_sets S0 h))"
proof -
  let ?lib = "kernel_library S0"
  let ?h = "ipset_do ?lib Data_set_type (ipset_do ?lib Data_reset h)"
  obtain r1 h1 where c1: "ipset_call ?lib (Parse_setname n) ?h = (r1, h1)" by fastforce
  obtain r2 h2 where c2: "ipset_call ?lib (Parse_elem x) h1 = (r2, h2)" by fastforce
  obtain r3 h3 where c3: "ipset_call ?lib (Ipset_cmd Cmd_add) (ipset_do ?lib Envopt_exist h2) = (r3, h3)" by fastforce
  have r: "r1 = 0" "r2 = 0"
    using call_result [OF c1] call_result [OF c2] by (simp_all add: kernel_world split: prod.split)
  have "ipset_world S0 (ipset_do ?lib Envopt_exist h2) = (no_data\<lparr>d_setname := Some n, d_elem := Some x\<rparr>, ipset_sets S0 h)"
    using ipset_call_world [OF c1, of S0] ipset_call_world [OF c2, of S0] ipset_do_reset [of S0 ?lib h] r
    by (simp add: ipset_do_quiet)
  then have "r3 = (if ipset_sets S0 h n = None then 1 else 0)" using call_result [OF c3] by (simp add: kernel_world)
  moreover have "set_type h1" using ipset_call_world [OF c1, of S0] assms(2) by simp
  ultimately have "session_add ?lib n x h = Some (if ipset_sets S0 h n = None then 1 else 0, h3)"
    using assms c1 c2 c3 r by (simp add: session_add_def)
  with session_add_law [OF assms, of ?lib n x S0] show ?thesis by auto
qed

lemma kernel_forced_destroy:
  "ipset_sets S0 (ipset_do (kernel_library S0) (Ipset_cmd Cmd_destroy)
     (ipset_do (kernel_library S0) (Parse_setname n) (ipset_do (kernel_library S0) Data_reset h))) n = None"
proof -
  let ?lib = "kernel_library S0"
  let ?g = "ipset_do ?lib (Parse_setname n) (ipset_do ?lib Data_reset h)"
  have w: "ipset_world S0 ?g = (no_data\<lparr>d_setname := Some n\<rparr>, ipset_sets S0 h)"
    using ipset_do_reset [of S0 ?lib h]
    by (simp add: ipset_do_def ipset_call_def Let_def ipset_world_def kernel_library_def split: prod.splits)
  obtain r7 h7 where c7: "ipset_call ?lib (Ipset_cmd Cmd_destroy) ?g = (r7, h7)" by fastforce
  have "ipset_sets S0 h7 n = None"
    using ipset_call_world [OF c7, of S0] call_result [OF c7] w
    by (simp add: kernel_world ipset_sets_def no_data_def)
  with c7 show ?thesis by (simp add: ipset_do_def)
qed

lemma kernel_activate:
  assumes "session h" "n \<noteq> p" "session_activate (kernel_library S0) n p h = (rc, h')"
  shows "(rc = 0 \<longleftrightarrow> ipset_sets S0 h n \<noteq> None) \<and> ipset_sets S0 h' n = None"
proof -
  let ?lib = "kernel_library S0" and ?h = "ipset_do (kernel_library S0) Data_reset h"
  obtain r1 h1 where c1: "ipset_call ?lib (Parse_setname n) ?h = (r1, h1)" by fastforce
  obtain r2 h2 where c2: "ipset_call ?lib (Parse_setname2 p) h1 = (r2, h2)" by fastforce
  obtain r3 h3 where c3: "ipset_call ?lib (Ipset_cmd Cmd_swap) h2 = (r3, h3)" by fastforce
  let ?h3 = "ipset_do ?lib Data_reset h3"
  obtain r4 h4 where c4: "ipset_call ?lib (Parse_setname n) ?h3 = (r4, h4)" by fastforce
  obtain r5 h5 where c5: "ipset_call ?lib (Parse_setname2 p) h4 = (r5, h5)" by fastforce
  obtain r6 h6 where c6: "ipset_call ?lib (Ipset_cmd Cmd_rename) h5 = (r6, h6)" by fastforce
  have r: "r1 = 0" "r2 = 0" "r4 = 0" "r5 = 0"
    using call_result [OF c1] call_result [OF c2] call_result [OF c4] call_result [OF c5]
    by (simp_all add: kernel_world split: prod.split)
  let ?d = "no_data\<lparr>d_setname := Some n, d_setname2 := Some p\<rparr>"
  have w2: "ipset_world S0 h2 = (?d, ipset_sets S0 h)"
    using ipset_call_world [OF c1, of S0] ipset_call_world [OF c2, of S0] ipset_do_reset [of S0 ?lib h] r by simp
  have r3: "r3 = (if ipset_sets S0 h n = None \<or> ipset_sets S0 h p = None then 1 else 0)"
    using call_result [OF c3] by (simp add: kernel_world w2)
  have w5: "ipset_world S0 h5 = (?d, ipset_sets S0 h3)"
    using ipset_call_world [OF c4, of S0] ipset_call_world [OF c5, of S0] ipset_do_reset [of S0 ?lib h3] r by simp
  have s3: "ipset_sets S0 h3 = (if r3 = 0 then swap_sets n p (ipset_sets S0 h) else ipset_sets S0 h)"
    using ipset_call_world [OF c3, of S0] w2 by (simp add: ipset_sets_def no_data_def)
  have r6: "r3 \<noteq> 0 \<Longrightarrow> r6 = (if ipset_sets S0 h n = None \<or> ipset_sets S0 h p \<noteq> None then 1 else 0)"
    using call_result [OF c6] by (simp add: kernel_world w5 s3)
  have e: "session_exchange ?lib n p h = (if r3 = 0 then (0, True, h3) else (r6, r6 \<noteq> 0, h6))"
    using r c1 c2 c3 c4 c5 c6 by (auto simp: session_exchange_def)
  then obtain sd h1' where e': "session_exchange ?lib n p h = (rc, sd, h1')" "rc = (if r3 = 0 then 0 else r6)"
    "sd = (r3 = 0 \<or> r6 \<noteq> 0)"
    "h' = (if sd then ipset_do ?lib (Ipset_cmd Cmd_destroy)
             (ipset_do ?lib (Parse_setname n) (ipset_do ?lib Data_reset h1')) else h1')"
    using assms(1,3) by (auto simp: session_activate_def split: if_splits)
  have "ipset_sets S0 h1' n = None" if "\<not> sd"
    using session_exchange_cases [OF e'(1), of S0] e'(2,3) that assms(2) by (simp add: rename_set_def)
  moreover have "ipset_sets S0 h' n = None" if sd
    using kernel_forced_destroy [of S0 n h1'] e'(4) that by simp
  ultimately show ?thesis using e' r3 r6 by auto
qed

section \<open>What any interleaving keeps\<close>

text \<open>What the two sets hold is within \<open>E\<close>.\<close>

definition within :: "cstr set \<Rightarrow> cstr set \<Rightarrow> ipset_sets \<Rightarrow> bool" where
  "within N E S \<longleftrightarrow> (\<forall>q \<in> N. \<forall>A. S q = Some A \<longrightarrow> A \<subseteq> E)"

lemma within_create: "within N E S \<Longrightarrow> within N E (create_set n S)"
  by (auto simp: within_def create_set_def split: option.splits)

lemma within_add: "within N E S \<Longrightarrow> x \<in> E \<Longrightarrow> within N E (add_elem n x S)"
  by (auto simp: within_def add_elem_def)

lemma within_drop: "within N E S \<Longrightarrow> within N E (S(n := None))" "within N E (\<lambda>_. None)"
  by (auto simp: within_def)

lemma within_exchange:
  "within N E S \<Longrightarrow> n \<in> N \<Longrightarrow> p \<in> N \<Longrightarrow> within N E (swap_sets n p S)"
  "within N E S \<Longrightarrow> n \<in> N \<Longrightarrow> within N E (rename_set n p S)"
  by (auto simp: within_def swap_sets_def rename_set_def)

lemmas within_intros = within_create within_add within_drop within_exchange

text \<open>The calls an update makes for the sets \<open>n\<close> and \<open>p\<close> and the entries \<open>E\<close>.\<close>

fun call_in :: "cstr \<Rightarrow> cstr \<Rightarrow> cstr set \<Rightarrow> ipset_call \<Rightarrow> bool" where
  "call_in n p E (Parse_setname m) \<longleftrightarrow> m = n"
| "call_in n p E (Parse_setname2 m) \<longleftrightarrow> m = p"
| "call_in n p E (Parse_elem x) \<longleftrightarrow> x \<in> E"
| "call_in n p E (Parse_argv argv) \<longleftrightarrow>
     argv \<in> {[''ipset'', ''create'', n, ''hash:net''], [''ipset'', ''destroy'', n], [''ipset'', ''swap'', n, p],
       [''ipset'', ''rename'', n, p]} \<or> (\<exists>x \<in> E. argv = [''ipset'', ''add'', n, x, ''-exist''])"
| "call_in n p E c \<longleftrightarrow> True"

primrec prog_in :: "cstr \<Rightarrow> cstr \<Rightarrow> cstr set \<Rightarrow> 'a prog \<Rightarrow> bool" where
  "prog_in n p E (Return a) \<longleftrightarrow> True"
| "prog_in n p E (Lib c k) \<longleftrightarrow> call_in n p E c \<and> (\<forall>rc. prog_in n p E (k rc))"
| "prog_in n p E (Block_list k) \<longleftrightarrow> (\<forall>xs. set xs \<subseteq> E \<longrightarrow> prog_in n p E (k xs))"
| "prog_in n p E (Has_session k) \<longleftrightarrow> (\<forall>b. prog_in n p E (k b))"
| "prog_in n p E (Has_type k) \<longleftrightarrow> (\<forall>b. prog_in n p E (k b))"
| "prog_in n p E (Put_type b k) \<longleftrightarrow> prog_in n p E k"
| "prog_in n p E Fault \<longleftrightarrow> True"

lemma prog_in_followed_by: "prog_in n p E q \<Longrightarrow> (\<And>a. prog_in n p E (f a)) \<Longrightarrow> prog_in n p E (followed_by q f)"
  by (induction q) auto

lemma helper_progs_in:
  assumes "ps = session_programs \<or> ps = api_programs"
  shows "prog_in n p E (create_prog ps n)" "x \<in> E \<Longrightarrow> prog_in n p E (add_prog ps n x)"
    "prog_in n p E (destroy_prog ps n)" "prog_in n p E (activate_prog ps n p)"
  using assms
  by (auto simp: session_programs_def api_programs_def session_create_prog_def session_add_prog_def
      session_destroy_prog_def session_activate_prog_def session_rename_prog_def forced_destroy_prog_def)

lemma update_prog_in:
  assumes "ps = session_programs \<or> ps = api_programs"
  shows "prog_in (name_rebuild cf) (name_prod cf) E (update_prog ps cf)"
proof -
  note pi = helper_progs_in [OF assms] prog_in_followed_by
  have a: "prog_in (name_rebuild cf) (name_prod cf) E (activate_last ps cf)"
    unfolding activate_last_def by (intro pi) simp
  have "set xs \<subseteq> E \<Longrightarrow> prog_in (name_rebuild cf) (name_prod cf) E (add_list ps (name_rebuild cf) xs (activate_last ps cf))" for xs
    by (induction xs) (auto simp: a intro!: pi)
  then have "prog_in (name_rebuild cf) (name_prod cf) E (update_fill ps cf rc)" for rc
    by (simp add: update_fill_def)
  then show ?thesis unfolding update_prog_def by (intro pi)
qed

text \<open>The session's data and the sets, between any two calls.\<close>

fun world_in :: "cstr \<Rightarrow> cstr \<Rightarrow> cstr set \<Rightarrow> session_data \<times> ipset_sets \<Rightarrow> bool" where
  "world_in n p E (d, S) \<longleftrightarrow> d_setname d \<in> {None, Some n} \<and> d_setname2 d \<in> {None, Some p} \<and>
     (\<forall>x. d_elem d = Some x \<longrightarrow> x \<in> E) \<and> within {n, p} E S"

lemma call_keeps_world: "call_in n p E c \<Longrightarrow> world_in n p E w \<Longrightarrow> world_in n p E (call_effect w (c, rc))"
proof (cases w)
  fix d S assume c: "call_in n p E c" "world_in n p E w" and w: "w = (d, S)"
  show ?thesis
  proof (cases c)
    case (Ipset_cmd k)
    with c w show ?thesis
      by (cases k; cases "d_setname d"; cases "d_setname2 d"; cases "d_elem d") (auto intro!: within_intros)
  next
    case (Parse_argv argv)
    with c w show ?thesis by (auto intro!: within_intros)
  qed (use c w in \<open>auto simp: no_data_def\<close>)
qed

lemma prog_step_in:
  assumes "prog_step lib xs t h = Some (t', h')" "prog_in n p E t" "set xs \<subseteq> E" "world_in n p E (ipset_world S0 h)"
  shows "prog_in n p E t' \<and> world_in n p E (ipset_world S0 h')"
proof (cases t)
  case (Lib c k)
  obtain rc h1 where c: "ipset_call lib c h = (rc, h1)" by fastforce
  with Lib assms show ?thesis
    using call_keeps_world [of n p E c "ipset_world S0 h" rc] ipset_call_world [OF c, of S0] by auto
qed (use assms in \<open>auto simp: ipset_world_def\<close>)

text \<open>
  What the kernel refuses: to swap or rename a set that does not exist, and a destroy without a
  name, since the rules refer to a set.
\<close>

definition sets_needed :: "ipset_library \<Rightarrow> ipset_sets \<Rightarrow> bool" where
  "sets_needed lib S0 \<longleftrightarrow> (\<forall>h d S n p. ipset_world S0 h = (d, S) \<longrightarrow>
     (d_setname d = None \<longrightarrow> lib (history h) (Ipset_cmd Cmd_destroy) \<noteq> 0) \<and>
     (S n = None \<longrightarrow>
        (d_setname d = Some n \<longrightarrow>
           lib (history h) (Ipset_cmd Cmd_swap) \<noteq> 0 \<and> lib (history h) (Ipset_cmd Cmd_rename) \<noteq> 0) \<and>
        lib (history h) (Parse_argv [''ipset'', ''swap'', n, p]) \<noteq> 0 \<and>
        lib (history h) (Parse_argv [''ipset'', ''rename'', n, p]) \<noteq> 0))"

lemma call_keeps_production:
  assumes "sets_needed lib S0" "call_in n p E c" "n \<noteq> p" "ipset_call lib c h = (rc, h')"
    "world_in n p E (ipset_world S0 h)" "ipset_sets S0 h p \<noteq> None"
  shows "ipset_sets S0 h' p \<noteq> None"
proof -
  obtain d S where w: "ipset_world S0 h = (d, S)" by fastforce
  have S: "ipset_sets S0 h = S" "ipset_sets S0 h' = snd (call_effect (d, S) (c, rc))"
    using ipset_call_world [OF assms(4), of S0] w by (simp_all add: ipset_sets_def)
  have rc: "rc = lib (history h) c" by (rule call_result [OF assms(4)])
  have need: "d_setname d = None \<Longrightarrow> lib (history h) (Ipset_cmd Cmd_destroy) \<noteq> 0"
    "d_setname d = Some n \<Longrightarrow> lib (history h) (Ipset_cmd Cmd_swap) = 0 \<Longrightarrow> \<exists>A. S n = Some A"
    "d_setname d = Some n \<Longrightarrow> lib (history h) (Ipset_cmd Cmd_rename) = 0 \<Longrightarrow> \<exists>A. S n = Some A"
    "lib (history h) (Parse_argv [''ipset'', ''swap'', n, p]) = 0 \<Longrightarrow> \<exists>A. S n = Some A"
    "lib (history h) (Parse_argv [''ipset'', ''rename'', n, p]) = 0 \<Longrightarrow> \<exists>A. S n = Some A"
    using assms(1) w unfolding sets_needed_def not_None_eq [symmetric] by blast+
  have d: "d_setname d = None \<or> d_setname d = Some n" "d_setname2 d = None \<or> d_setname2 d = Some p"
    using assms(5) w by auto
  show ?thesis
  proof (cases c)
    case (Ipset_cmd k)
    with need(1-3) rc S assms(3,6) d show ?thesis
      by (cases k) (auto simp: create_set_def add_elem_def swap_sets_def rename_set_def split: option.split)
  next
    case (Parse_argv argv)
    with need(4,5) rc S assms(2,3,6) show ?thesis
      by (auto simp: create_set_def add_elem_def swap_sets_def rename_set_def)
  qed (use S assms(6) in auto)
qed

lemma prog_step_keeps_production:
  assumes "sets_needed lib S0" "n \<noteq> p" "prog_step lib xs t h = Some (t', h')" "prog_in n p E t"
    "world_in n p E (ipset_world S0 h)" "ipset_sets S0 h p \<noteq> None"
  shows "ipset_sets S0 h' p \<noteq> None"
proof (cases t)
  case (Lib c k)
  obtain rc h1 where c: "ipset_call lib c h = (rc, h1)" by fastforce
  with Lib assms call_keeps_production [OF assms(1) _ assms(2) c assms(5,6)] show ?thesis by simp
qed (use assms in \<open>auto simp: ipset_sets_def ipset_world_def\<close>)

text \<open>
  C10: whatever libipset answers and however the calls of the two updates interleave, in either
  variant of the helper, the production set never holds an address that was in neither block
  list and in neither set before. When the kernel refuses what it documents to refuse, the
  production set does not disappear either.
\<close>

theorem updates_block_only_listed:
  assumes "both_run lib xs ys (update_prog ps cf, update_prog ps cf, h) (t, u, h')"
    "ps = session_programs \<or> ps = api_programs" "fst (ipset_world S0 h) = no_data"
    "\<forall>q \<in> {name_rebuild cf, name_prod cf}. \<forall>A. ipset_sets S0 h q = Some A \<longrightarrow> A \<subseteq> old"
  shows "(\<forall>B. ipset_sets S0 h' (name_prod cf) = Some B \<longrightarrow> B \<subseteq> old \<union> set xs \<union> set ys) \<and>
    (sets_needed lib S0 \<and> name_rebuild cf \<noteq> name_prod cf \<and> ipset_sets S0 h (name_prod cf) \<noteq> None \<longrightarrow>
       ipset_sets S0 h' (name_prod cf) \<noteq> None)"
proof -
  let ?n = "name_rebuild cf" and ?p = "name_prod cf" and ?E = "old \<union> set xs \<union> set ys"
  obtain S where w: "ipset_world S0 h = (no_data, S)" using assms(3) by (cases "ipset_world S0 h") simp
  have inv: "prog_in ?n ?p ?E t \<and> prog_in ?n ?p ?E u \<and> world_in ?n ?p ?E (ipset_world S0 h') \<and>
      (sets_needed lib S0 \<and> ?n \<noteq> ?p \<and> ipset_sets S0 h ?p \<noteq> None \<longrightarrow> ipset_sets S0 h' ?p \<noteq> None)"
    using assms(1)
  proof (induction "(t, u, h')" arbitrary: t u h' rule: rtranclp_induct)
    case base
    then show ?case
      using update_prog_in [OF assms(2)] w assms(4)
      by (auto simp: no_data_def within_def ipset_sets_def)
  next
    case (step y)
    obtain t1 u1 h1 where y: "y = (t1, u1, h1)" by (cases y)
    note IH = step(3) [OF y]
    have moved: "world_in ?n ?p ?E (ipset_world S0 h') \<and> prog_in ?n ?p ?E c \<and>
        (sets_needed lib S0 \<and> ?n \<noteq> ?p \<and> ipset_sets S0 h ?p \<noteq> None \<longrightarrow> ipset_sets S0 h' ?p \<noteq> None)"
      if st: "prog_step lib zs b h1 = Some (c, h')" and b: "prog_in ?n ?p ?E b" and zs: "set zs \<subseteq> ?E"
      for zs and b c :: "int option prog"
    proof -
      have "ipset_sets S0 h' ?p \<noteq> None"
        if "sets_needed lib S0" "?n \<noteq> ?p" "ipset_sets S0 h ?p \<noteq> None"
        by (rule prog_step_keeps_production [OF that(1,2) st b]) (use IH that in blast)+
      with prog_step_in [OF st b zs] IH show ?thesis by blast
    qed
    from step(2) show ?case
      unfolding y
    proof cases
      case timer
      with moved [OF timer(2)] IH show ?thesis by auto
    next
      case notify
      with moved [OF notify(2)] IH show ?thesis by auto
    qed
  qed
  have "B \<subseteq> ?E" if "ipset_sets S0 h' ?p = Some B" for B
    using inv that by (cases "ipset_world S0 h'") (auto simp: within_def ipset_sets_def)
  with inv show ?thesis by blast
qed

lemma kernel_sets_needed: "sets_needed (kernel_library S0) S0"
  by (simp add: sets_needed_def kernel_world split: option.split)

theorem updates_block_only_listed_witness:
  "\<exists>h'. both_run (kernel_library blocked_one) [''10.0.0.1'', ''10.0.0.2''] []
      (update_prog session_programs conf_ab, update_prog session_programs conf_ab, fresh_helper)
      (Return (Some 0), update_prog session_programs conf_ab, h') \<and>
    (\<exists>B. ipset_sets blocked_one h' ''b'' = Some B \<and> B \<subseteq> {''10.0.0.1'', ''10.0.0.2''})"
proof -
  let ?lib = "kernel_library blocked_one" and ?up = "update_prog session_programs conf_ab"
  obtain h' where h: "firewall_rebuild (session_backend ?lib) conf_ab [''10.0.0.1'', ''10.0.0.2''] fresh_helper =
      Some (Some ([''10.0.0.1'', ''10.0.0.2''], 0), h')"
    using rebuild_two by blast
  have "run_prog ?lib [''10.0.0.1'', ''10.0.0.2''] ?up fresh_helper = Some (Some 0, h')"
    by (simp add: update_runs [OF session_runs] h)
  from timer_part [OF this, of "[]" Return ?up]
  have r: "both_run ?lib [''10.0.0.1'', ''10.0.0.2''] [] (?up, ?up, fresh_helper) (Return (Some 0), ?up, h')"
    by (simp)
  have "fst (ipset_world blocked_one fresh_helper) = no_data"
    "\<forall>q \<in> {name_rebuild conf_ab, name_prod conf_ab}. \<forall>A.
      ipset_sets blocked_one fresh_helper q = Some A \<longrightarrow> A \<subseteq> {''10.0.0.1''}"
    "ipset_sets blocked_one fresh_helper ''b'' \<noteq> None" "name_rebuild conf_ab \<noteq> name_prod conf_ab"
    "name_prod conf_ab = ''b''"
    by (auto simp: session_eval)
  with updates_block_only_listed [OF r disjI1 [OF refl] this(1,2)] kernel_sets_needed [of blocked_one]
  have "(\<forall>B. ipset_sets blocked_one h' ''b'' = Some B \<longrightarrow> B \<subseteq> {''10.0.0.1'', ''10.0.0.2''}) \<and>
      ipset_sets blocked_one h' ''b'' \<noteq> None"
    by (simp add: insert_commute)
  with r show ?thesis by (intro exI [of _ h']) auto
qed

lemma activate_keeps_type:
  assumes "session_activate lib n p h = (rc, h')"
  shows "set_type h' = set_type h"
  using assms session_exchange_cases [of lib n p h]
  by (auto simp: session_activate_def split: if_splits prod.splits)

section \<open>The race\<close>

lemma session_ops [simp]:
  "helper_destroy (session_backend lib) = session_destroy lib" "helper_create (session_backend lib) = session_create lib"
  "helper_add (session_backend lib) = session_add lib" "helper_activate (session_backend lib) = session_activate lib"
  by (simp_all add: session_backend_def)

lemma session_progs [simp]:
  "destroy_prog session_programs = session_destroy_prog" "create_prog session_programs = session_create_prog"
  "add_prog session_programs = session_add_prog" "activate_prog session_programs = session_activate_prog"
  by (simp_all add: session_programs_def)

text \<open>Adding entries: all of them when the set exists, none when it does not.\<close>

lemma kernel_add_entries:
  assumes "session h" "set_type h"
  shows "\<exists>h'. add_entries (session_add (kernel_library S0) n) xs h =
      Some (if ipset_sets S0 h n = None then [] else filter (\<lambda>x. x \<noteq> []) xs, h') \<and>
    session h' \<and> set_type h' \<and> (ipset_sets S0 h n = None \<longrightarrow> ipset_sets S0 h' = ipset_sets S0 h)"
  using assms
proof (induction xs arbitrary: h)
  case (Cons x xs)
  show ?case
  proof (cases "x = []")
    case False
    obtain h1 where h1: "session_add (kernel_library S0) n x h = Some (if ipset_sets S0 h n = None then 1 else 0, h1)"
      "session h1" "set_type h1"
      "ipset_sets S0 h1 = (if ipset_sets S0 h n = None then ipset_sets S0 h else add_elem n x (ipset_sets S0 h))"
      using kernel_add [OF Cons.prems] by blast
    then have "ipset_sets S0 h1 n = None \<longleftrightarrow> ipset_sets S0 h n = None" by (simp add: add_elem_def)
    with Cons.IH [OF h1(2,3)] h1(1,4) False show ?thesis by auto
  next
    case True
    with Cons.IH [OF Cons.prems] show ?thesis by (cases "ipset_sets S0 h n") auto
  qed
qed auto

text \<open>Destroying and creating the rebuild set on this kernel.\<close>

lemma kernel_recreate:
  assumes "session h" "n \<noteq> p"
  shows "\<exists>h1. session_create (kernel_library S0) n (snd (session_destroy (kernel_library S0) n h)) = (0, h1) \<and>
    session h1 \<and> set_type h1 \<and> ipset_sets S0 h1 n = Some {} \<and> ipset_sets S0 h1 p = ipset_sets S0 h p"
proof -
  let ?lib = "kernel_library S0"
  obtain r1 h1 where d: "session_destroy ?lib n h = (r1, h1)" by fastforce
  have s1: "session h1" "ipset_sets S0 h1 p = ipset_sets S0 h p" "ipset_sets S0 h1 n = None"
    using session_destroy_law [OF assms(1) d, of S0] kernel_destroy [OF assms(1) d] assms(2) by auto
  obtain r2 h2 where c: "session_create ?lib n h1 = (r2, h2)" by fastforce
  have r2: "r2 = 0" by (rule kernel_create [OF s1(1) c])
  show ?thesis
    using session_create_law [OF s1(1) c, of S0] r2 s1(2,3) assms(2) c d by (auto simp: create_set_def)
qed

lemma kernel_name_parses: "name_parses (kernel_library S0) n"
  by (simp add: name_parses_def kernel_library_def split: prod.split)

text \<open>The activation, with and without a rebuild set.\<close>

lemma kernel_activation:
  assumes "session h" "n \<noteq> p"
  shows "\<exists>rc h'. session_activate (kernel_library S0) n p h = (rc, h') \<and> session h' \<and> set_type h' = set_type h \<and>
    (rc = 0 \<longleftrightarrow> ipset_sets S0 h n \<noteq> None) \<and> ipset_sets S0 h' n = None \<and>
    ipset_sets S0 h' p = (if ipset_sets S0 h n = None then ipset_sets S0 h p else ipset_sets S0 h n)"
proof -
  obtain rc h' where a: "session_activate (kernel_library S0) n p h = (rc, h')" by fastforce
  show ?thesis
    using kernel_activate [OF assms a] session_activate_law [OF assms(1) kernel_name_parses assms(2) a, of S0]
      activate_keeps_type [OF a] a by auto
qed

text \<open>Parts of an update on this kernel: emptying the rebuild set, filling it, activating it.\<close>

lemma kernel_emptied:
  assumes "session h" "n \<noteq> p"
  shows "\<exists>h1. both_run (kernel_library S0) xs ys
      (followed_by (session_destroy_prog n) (\<lambda>_. followed_by (session_create_prog n) f), u, h) (f 0, u, h1) \<and>
    session h1 \<and> set_type h1 \<and> ipset_sets S0 h1 n = Some {} \<and> ipset_sets S0 h1 p = ipset_sets S0 h p"
proof -
  let ?lib = "kernel_library S0"
  obtain h1 where h1: "session_create ?lib n (snd (session_destroy ?lib n h)) = (0, h1)" "session h1" "set_type h1"
    "ipset_sets S0 h1 n = Some {}" "ipset_sets S0 h1 p = ipset_sets S0 h p"
    using kernel_recreate [OF assms] by blast
  have "run_prog ?lib xs (session_destroy_prog n) h =
      Some (fst (session_destroy ?lib n h), snd (session_destroy ?lib n h))"
    by (simp add: run_session_destroy)
  from timer_part [OF this, of ys "\<lambda>_. followed_by (session_create_prog n) f" u]
    timer_part [OF run_session_create [of ?lib xs n "snd (session_destroy ?lib n h)", unfolded h1(1)], of ys f u] h1(2-5)
  show ?thesis by (auto intro!: rtranclp_trans)
qed

lemma kernel_filled:
  assumes "session h" "n \<noteq> p" "n = name_rebuild cf"
  shows "\<exists>h2. both_run (kernel_library S0) xs ys (update_prog session_programs cf, u, h)
      (activate_last session_programs cf, u, h2) \<and>
    session h2 \<and> set_type h2 \<and> ipset_sets S0 h2 n \<noteq> None \<and> ipset_sets S0 h2 p = ipset_sets S0 h p"
proof -
  let ?lib = "kernel_library S0" and ?last = "activate_last session_programs cf"
  obtain h1 where h1: "both_run ?lib xs ys (update_prog session_programs cf, u, h) (update_fill session_programs cf 0, u, h1)"
    "session h1" "set_type h1" "ipset_sets S0 h1 n = Some {}" "ipset_sets S0 h1 p = ipset_sets S0 h p"
    using kernel_emptied [OF assms(1,2), of S0 xs ys "update_fill session_programs cf" u] assms(3)
    by (auto simp: update_prog_def)
  obtain added h2 where h2: "add_entries (session_add ?lib n) xs h1 = Some (added, h2)" "session h2" "set_type h2"
    using kernel_add_entries [OF h1(2,3), of S0 n xs] by auto
  have "ipset_sets S0 h2 = (ipset_sets S0 h1)(n \<mapsto> {} \<union> set added)"
    using ses.add_entries_sets [where xs = xs, OF conjI [OF h1(2) kernel_names_decided [of S0]] h1(3,4)] h2(1) by auto
  moreover have "both_run ?lib xs ys (update_fill session_programs cf 0, u, h1) (?last, u, h2)"
    by (rule timer_then [where t' = "add_list session_programs n xs ?last" and h' = h1])
      (use timer_list [OF session_runs, of ?lib n xs h1 added h2 xs ys ?last u] h2(1) assms(3) in \<open>simp_all add: update_fill_def\<close>)
  ultimately show ?thesis
    using h1 h2(2,3) assms(2) by (intro exI [of _ h2]) (auto intro: rtranclp_trans)
qed

lemma kernel_activated:
  assumes "session h" "name_rebuild cf \<noteq> name_prod cf"
  shows "\<exists>rc h'. both_run (kernel_library S0) xs ys (activate_last session_programs cf, u, h) (Return (Some rc), u, h') \<and>
    session h' \<and> set_type h' = set_type h \<and> (rc = 0 \<longleftrightarrow> ipset_sets S0 h (name_rebuild cf) \<noteq> None) \<and>
    ipset_sets S0 h' (name_rebuild cf) = None \<and>
    ipset_sets S0 h' (name_prod cf) =
      ipset_sets S0 h (if ipset_sets S0 h (name_rebuild cf) = None then name_prod cf else name_rebuild cf)"
proof -
  let ?lib = "kernel_library S0"
  obtain rc h' where a: "session_activate ?lib (name_rebuild cf) (name_prod cf) h = (rc, h')" "session h'"
    "set_type h' = set_type h" "rc = 0 \<longleftrightarrow> ipset_sets S0 h (name_rebuild cf) \<noteq> None"
    "ipset_sets S0 h' (name_rebuild cf) = None"
    "ipset_sets S0 h' (name_prod cf) = (if ipset_sets S0 h (name_rebuild cf) = None
       then ipset_sets S0 h (name_prod cf) else ipset_sets S0 h (name_rebuild cf))"
    using kernel_activation [OF assms, of S0] by blast
  have "both_run ?lib xs ys (activate_last session_programs cf, u, h) (Return (Some rc), u, h')"
    using timer_part [OF run_session_activate [of ?lib xs "name_rebuild cf" "name_prod cf" h, unfolded a(1)],
        of ys "\<lambda>rc. Return (Some rc)" u]
    by (simp add: activate_last_def)
  with a show ?thesis by (intro exI [of _ rc] exI [of _ h']) simp
qed

text \<open>
  C17: the race of the two updates. From any state of the sets there is an
  interleaving, on a kernel where nothing fails for another reason, in which both updates run to
  their end, the notification's activation succeeds, and the production set is empty, whatever
  the two block lists are: the timer's destroy and create fall between the notification's filling
  and its activation.
\<close>

theorem concurrent_updates_unblock:
  assumes "session h" "name_rebuild cf \<noteq> name_prod cf"
  shows "\<exists>rc h'. both_run (kernel_library S0) xs ys
      (update_prog session_programs cf, update_prog session_programs cf, h) (Return (Some rc), Return (Some 0), h') \<and>
    ipset_sets S0 h' (name_prod cf) = Some {}"
proof -
  let ?lib = "kernel_library S0" and ?n = "name_rebuild cf" and ?p = "name_prod cf"
  let ?up = "update_prog session_programs cf" and ?last = "activate_last session_programs cf"
  obtain h1 where h1: "both_run ?lib ys xs (?up, ?up, h) (?last, ?up, h1)" "session h1"
    using kernel_filled [OF assms refl, of S0 ys xs ?up] by blast
  obtain h2 where h2: "both_run ?lib xs ys (?up, ?last, h1) (update_fill session_programs cf 0, ?last, h2)" "session h2"
    "set_type h2" "ipset_sets S0 h2 ?n = Some {}"
    using kernel_emptied [OF h1(2) assms(2), of S0 xs ys "update_fill session_programs cf" ?last]
    by (auto simp: update_prog_def)
  obtain h3 where h3: "both_run ?lib ys xs (?last, update_fill session_programs cf 0, h2)
      (Return (Some 0), update_fill session_programs cf 0, h3)" "session h3" "set_type h3"
    "ipset_sets S0 h3 ?n = None" "ipset_sets S0 h3 ?p = Some {}"
    using kernel_activated [OF h2(2) assms(2), of S0 ys xs "update_fill session_programs cf 0"] h2(3,4) by auto
  obtain h4 where a: "add_entries (session_add ?lib ?n) xs h3 = Some ([], h4)" "session h4"
    "ipset_sets S0 h4 = ipset_sets S0 h3"
    using kernel_add_entries [OF h3(2,3), of S0 ?n xs] h3(4) by auto
  have h4: "both_run ?lib xs ys (update_fill session_programs cf 0, Return (Some 0) :: int option prog, h3)
      (?last, Return (Some 0), h4)"
    by (rule timer_then [where t' = "add_list session_programs ?n xs ?last" and h' = h3])
      (use timer_list [OF session_runs, of ?lib ?n xs h3 "[]" h4 xs ys ?last "Return (Some 0)"] a(1)
        in \<open>simp_all add: update_fill_def\<close>)
  obtain rc h5 where h5: "both_run ?lib xs ys (?last, Return (Some 0) :: int option prog, h4)
      (Return (Some rc), Return (Some 0), h5)" "ipset_sets S0 h5 ?p = Some {}"
    using kernel_activated [OF a(2) assms(2), of S0 xs ys "Return (Some 0) :: int option prog"] a(3) h3(4,5) by auto
  note r = rtranclp_trans [of "both_step ?lib xs ys"]
  have "both_run ?lib xs ys (?up, ?up, h) (Return (Some rc), Return (Some 0), h5)"
    by (rule r [OF both_swap [OF h1(1)] r [OF h2(1) r [OF both_swap [OF h3(1)] r [OF h4 h5(1)]]]])
  with h5(2) show ?thesis by blast
qed

theorem concurrent_updates_unblock_witness:
  "\<exists>rc h'. both_run (kernel_library blocked_one) [''10.0.0.1''] [''10.0.0.1'', ''10.0.0.2'']
      (update_prog session_programs conf_ab, update_prog session_programs conf_ab, fresh_helper)
      (Return (Some rc), Return (Some 0), h') \<and> ipset_sets blocked_one h' ''b'' = Some {}"
  using concurrent_updates_unblock [of fresh_helper conf_ab blocked_one "[''10.0.0.1'']" "[''10.0.0.1'', ''10.0.0.2'']"]
  by (simp add: session_eval)

text \<open>The swap of an activation, up to the destroy behind it, and that destroy.\<close>

lemma kernel_swapped:
  assumes "session h" "n \<noteq> p" "ipset_sets S0 h n \<noteq> None" "ipset_sets S0 h p \<noteq> None"
  shows "\<exists>h'. both_run (kernel_library S0) xs ys (followed_by (session_activate_prog n p) f, u, h)
      (followed_by (forced_destroy_prog n 0) f, u, h') \<and>
    session h' \<and> ipset_sets S0 h' = swap_sets n p (ipset_sets S0 h)"
proof -
  let ?lib = "kernel_library S0"
  obtain r0 h0 where c0: "ipset_call ?lib Data_reset h = (r0, h0)" by fastforce
  obtain r1 h1 where c1: "ipset_call ?lib (Parse_setname n) h0 = (r1, h1)" by fastforce
  obtain r2 h2 where c2: "ipset_call ?lib (Parse_setname2 p) h1 = (r2, h2)" by fastforce
  obtain r3 h3 where c3: "ipset_call ?lib (Ipset_cmd Cmd_swap) h2 = (r3, h3)" by fastforce
  note w = ipset_call_world [OF c0, of S0] ipset_call_world [OF c1, of S0] ipset_call_world [OF c2, of S0]
    ipset_call_world [OF c3, of S0]
  have r: "r1 = 0" "r2 = 0"
    using call_result [OF c1] call_result [OF c2] by (simp_all add: kernel_world split: prod.split)
  have w2: "ipset_world S0 h2 = (no_data\<lparr>d_setname := Some n, d_setname2 := Some p\<rparr>, ipset_sets S0 h)"
    using w r by (cases "ipset_world S0 h") (simp add: ipset_sets_def)
  then have r3: "r3 = 0" using call_result [OF c3] assms(3,4) by (simp add: kernel_world)
  have run: "both_run ?lib xs ys (followed_by (session_activate_prog n p) f, u, h)
      (followed_by (forced_destroy_prog n 0) f, u, h3)"
    using assms(1) c0 c1 c2 c3 r r3
    by (simp add: session_activate_prog_def) (rule timer_then, simp, rule timer_then, simp, rule timer_then, simp,
        rule timer_then, simp, rule timer_then, simp, simp)
  have "session h3" "ipset_sets S0 h3 = swap_sets n p (ipset_sets S0 h)"
    using w(1-3) ipset_call_world [OF c3, of S0, unfolded w2] r3 assms(1) by (simp_all add: ipset_sets_def no_data_def)
  with run show ?thesis by blast
qed

lemma kernel_dropped:
  assumes "session h" "n \<noteq> p"
  shows "\<exists>h'. both_run (kernel_library S0) xs ys (followed_by (forced_destroy_prog n rc) f, u, h) (f rc, u, h') \<and>
    session h' \<and> ipset_sets S0 h' p = ipset_sets S0 h p"
proof -
  let ?lib = "kernel_library S0"
  let ?h = "ipset_do ?lib (Parse_setname n) (ipset_do ?lib Data_reset h)"
  have "ipset_world S0 ?h = (no_data\<lparr>d_setname := Some n\<rparr>, ipset_sets S0 h)"
    using ipset_do_reset [of S0 ?lib h] kernel_name_parses [of S0 n]
    by (simp add: name_parses_def ipset_do_def ipset_call_def Let_def ipset_world_def)
  moreover obtain r where "ipset_world S0 (ipset_do ?lib (Ipset_cmd Cmd_destroy) ?h) =
      call_effect (ipset_world S0 ?h) (Ipset_cmd Cmd_destroy, r)"
    using ipset_do_effect by blast
  ultimately have "ipset_sets S0 (ipset_do ?lib (Ipset_cmd Cmd_destroy) ?h) p = ipset_sets S0 h p"
    using assms(2) by (simp add: ipset_sets_def)
  then show ?thesis
    using timer_part [OF run_forced_destroy [of ?lib xs n rc h], of ys f u] assms(1)
    by (intro exI [of _ "ipset_do ?lib (Ipset_cmd Cmd_destroy) ?h"]) simp
qed

text \<open>
  Updates that undo each other. When the production set exists there is an
  interleaving in which both updates succeed, both activations with result 0, and the production
  set is what it was before: each swaps, the second swap takes back the first, and each destroys
  the rebuild set. New addresses are not blocked, released ones stay blocked, and both threads
  report success and set the next wake-up.
\<close>

theorem concurrent_updates_lost:
  assumes "session h" "name_rebuild cf \<noteq> name_prod cf" "ipset_sets S0 h (name_prod cf) \<noteq> None"
  shows "\<exists>h'. both_run (kernel_library S0) xs ys
      (update_prog session_programs cf, update_prog session_programs cf, h) (Return (Some 0), Return (Some 0), h') \<and>
    ipset_sets S0 h' (name_prod cf) = ipset_sets S0 h (name_prod cf)"
proof -
  let ?lib = "kernel_library S0" and ?n = "name_rebuild cf" and ?p = "name_prod cf"
  let ?up = "update_prog session_programs cf" and ?last = "activate_last session_programs cf"
  let ?drop = "followed_by (forced_destroy_prog ?n 0) (\<lambda>rc. Return (Some rc))"
  have last: "?last = followed_by (session_activate_prog ?n ?p) (\<lambda>rc. Return (Some rc))"
    by (simp add: activate_last_def)
  obtain h1 where h1: "both_run ?lib xs ys (?up, ?up, h) (?last, ?up, h1)" "session h1"
    "ipset_sets S0 h1 ?p = ipset_sets S0 h ?p"
    using kernel_filled [OF assms(1,2) refl, of S0 xs ys ?up] by blast
  obtain h2 where h2: "both_run ?lib ys xs (?up, ?last, h1) (?last, ?last, h2)" "session h2"
    "ipset_sets S0 h2 ?n \<noteq> None" "ipset_sets S0 h2 ?p = ipset_sets S0 h ?p"
    using kernel_filled [OF h1(2) assms(2) refl, of S0 ys xs ?last] h1(3) by auto
  obtain h3 where h3: "both_run ?lib xs ys (?last, ?last, h2) (?drop, ?last, h3)" "session h3"
    "ipset_sets S0 h3 = swap_sets ?n ?p (ipset_sets S0 h2)"
    using kernel_swapped [OF h2(2) assms(2) h2(3), of xs ys "\<lambda>rc. Return (Some rc)" ?last] h2(4) assms(3)
    unfolding last by auto
  have s3: "ipset_sets S0 h3 ?n = ipset_sets S0 h ?p" "ipset_sets S0 h3 ?p \<noteq> None"
    using h3(3) h2(3,4) assms(2) by (simp_all add: swap_sets_def)
  obtain h4 where h4: "both_run ?lib ys xs (?last, ?drop, h3) (?drop, ?drop, h4)" "session h4"
    "ipset_sets S0 h4 ?p = ipset_sets S0 h ?p"
    using kernel_swapped [OF h3(2) assms(2) _ s3(2), of ys xs "\<lambda>rc. Return (Some rc)" ?drop] s3(1) assms(2,3)
    unfolding last by (auto simp: swap_sets_def)
  obtain h5 where h5: "both_run ?lib xs ys (?drop, ?drop, h4) (Return (Some 0), ?drop, h5)" "session h5"
    "ipset_sets S0 h5 ?p = ipset_sets S0 h ?p"
    using kernel_dropped [OF h4(2) assms(2), of S0 xs ys 0 "\<lambda>rc. Return (Some rc)" ?drop] h4(3) by auto
  obtain h6 where h6: "both_run ?lib ys xs (?drop, Return (Some 0) :: int option prog, h5) (Return (Some 0), Return (Some 0), h6)"
    "ipset_sets S0 h6 ?p = ipset_sets S0 h ?p"
    using kernel_dropped [OF h5(2) assms(2), of S0 ys xs 0 "\<lambda>rc. Return (Some rc)"] h5(3) by fastforce
  note r = rtranclp_trans [of "both_step ?lib xs ys"]
  have "both_run ?lib xs ys (?up, ?up, h) (Return (Some 0), Return (Some 0), h6)"
    by (rule r [OF h1(1) r [OF both_swap [OF h2(1)] r [OF h3(1) r [OF both_swap [OF h4(1)]
            r [OF h5(1) both_swap [OF h6(1)]]]]]])
  with h6(2) show ?thesis by blast
qed

theorem concurrent_updates_lost_witness:
  "\<exists>h'. both_run (kernel_library blocked_one) [''10.0.0.2''] [''10.0.0.2'', ''10.0.0.3'']
      (update_prog session_programs conf_ab, update_prog session_programs conf_ab, fresh_helper)
      (Return (Some 0), Return (Some 0), h') \<and> ipset_sets blocked_one h' ''b'' = Some {''10.0.0.1''}"
proof -
  have "session fresh_helper" "name_rebuild conf_ab \<noteq> name_prod conf_ab"
    "ipset_sets blocked_one fresh_helper (name_prod conf_ab) = Some {''10.0.0.1''}"
    by (simp_all add: session_eval)
  with concurrent_updates_lost [of fresh_helper conf_ab blocked_one "[''10.0.0.2'']" "[''10.0.0.2'', ''10.0.0.3'']"]
  show ?thesis by (simp add: conf_ab_def)
qed

end
