(* ===== verification/Firewalld_Config.thy ===== *)
theory Firewalld_Config
  imports Daemon_Config Firewall_Update
begin

text \<open>
  \<open>src/firewall-daemon/iptracking-firewalld.c\<close> up to the point where the threads are started: the
  configuration file, the command line, the validation, the names of the two sets.
\<close>

section \<open>The configuration\<close>

text \<open>The static variables of the file: what the updates use, and which names were given.\<close>

record firewalld_config = firewall_conf +
  prod_isset :: bool
  rebuild_isset :: bool

text \<open>Their initial values, with the defaults of \<open>src/libiptracking/CMakeLists.txt\<close>.\<close>

definition firewalld_config_default :: firewalld_config where
  "firewalld_config_default =
     \<lparr>check_interval = 300, name_prod = ''iptracking_block'', name_rebuild = ''iptracking_block_update'',
      prod_isset = False, rebuild_isset = False\<rparr>"

text \<open>
  \<open>__is_valid_ipset_name\<close>: the loop's count, \<open>None\<close> when it returns false from inside.
\<close>

fun ipset_name_scan :: "cstr \<Rightarrow> nat \<Rightarrow> nat option" where
  "ipset_name_scan [] l = Some l"
| "ipset_name_scan (c # s) l =
     (if l \<le> 256
      then if \<not> c_isalnum c \<and> c \<noteq> CHR ''_'' then None else ipset_name_scan s (l + 1)
      else Some l)"

definition is_valid_ipset_name :: "cstr \<Rightarrow> bool" where
  "is_valid_ipset_name s =
     (case ipset_name_scan s 0 of None \<Rightarrow> False | Some l \<Rightarrow> 0 < l \<and> l \<le> 256)"

section \<open>Reading the file\<close>

definition firewalld_items ::
  "yaml_document \<Rightarrow> yaml_node option \<Rightarrow> (firewalld_config \<Rightarrow> bool \<times> firewalld_config) list" where
  "firewalld_items doc node =
     [config_item doc node ''check-interval'' yaml_helper_get_scalar_uint32_value (\<lambda>v c. c\<lparr>check_interval := v\<rparr>),
      config_item doc node ''ipset-name.production'' yaml_helper_get_scalar_value
        (\<lambda>v c. c\<lparr>name_prod := v, prod_isset := True\<rparr>),
      config_item doc node ''ipset-name.rebuild'' yaml_helper_get_scalar_value
        (\<lambda>v c. c\<lparr>name_rebuild := v, rebuild_isset := True\<rparr>)]"

definition firewalld_read_section ::
  "yaml_document \<Rightarrow> yaml_node option \<Rightarrow> firewalld_config \<Rightarrow> bool \<times> firewalld_config" where
  "firewalld_read_section doc root c = config_section doc root ''firewalld'' (firewalld_items doc) c"

definition firewalld_config_read_yaml_file ::
  "build \<Rightarrow> bool \<Rightarrow> config_source \<Rightarrow> firewalld_config \<Rightarrow> firewalld_config config_outcome" where
  "firewalld_config_read_yaml_file b malloc_ok src c =
     config_read_source b malloc_ok db_options_no_pam_logging firewalld_read_section src c"

section \<open>Validating\<close>

datatype firewalld_error =
    No_database
  | Invalid_database "cstr option"
  | Invalid_check_interval "32 word"
  | Invalid_name_prod cstr
  | Invalid_name_rebuild cstr
  | Same_names

definition firewalld_summary :: "firewalld_config \<Rightarrow> cstr list" where
  "firewalld_summary c =
     [''check-interval = '' @ show_nat (unat (check_interval c)) @ ''s'',
      ''ipset-name.production = '' @ name_prod c,
      ''ipset-name.rebuild = '' @ name_rebuild c]"

text \<open>
  \<open>config_validate\<close>: the error it reports, or the configuration with the name it derives and the
  lines it logs. The name is made by \<open>asprintf\<close>; the outer \<open>None\<close> is its failure, after which the
  name is NULL and what follows is undefined.
\<close>

definition firewalld_derive_name :: "bool \<Rightarrow> firewalld_config \<Rightarrow> firewalld_config option" where
  "firewalld_derive_name asprintf_ok c =
     (if prod_isset c \<and> \<not> rebuild_isset c
      then if asprintf_ok then Some (c\<lparr>name_rebuild := name_prod c @ ''_update''\<rparr>) else None
      else Some c)"

definition firewalld_config_validate ::
  "bool \<Rightarrow> firewalld_config \<Rightarrow> db_handle option \<Rightarrow> (firewalld_error + firewalld_config \<times> cstr list) option" where
  "firewalld_config_validate asprintf_ok c event_db =
     (if event_db = None then Some (Inl No_database)
      else case db_has_valid_configuration event_db (Some None) of
        (valid, e) \<Rightarrow>
          if \<not> valid then Some (Inl (Invalid_database (Option.bind e id)))
          else if check_interval c < 120 then Some (Inl (Invalid_check_interval (check_interval c)))
          else if \<not> is_valid_ipset_name (name_prod c) then Some (Inl (Invalid_name_prod (name_prod c)))
          else if \<not> is_valid_ipset_name (name_rebuild c) then Some (Inl (Invalid_name_rebuild (name_rebuild c)))
          else if name_rebuild c = name_prod c then Some (Inl Same_names)
          else map_option (\<lambda>c. Inr (c, firewalld_summary c @ db_summarize_to_log event_db))
                 (firewalld_derive_name asprintf_ok c))"

section \<open>The command line and the start\<close>

text \<open>The second pass over the options; \<open>None\<close> is \<open>exit(EINVAL)\<close>.\<close>

datatype firewalld_option = Opt_check_interval cstr | Opt_production cstr | Opt_rebuild cstr | Opt_none

fun firewalld_overrides :: "firewalld_option list \<Rightarrow> firewalld_config \<Rightarrow> firewalld_config option" where
  "firewalld_overrides [] c = Some c"
| "firewalld_overrides (Opt_check_interval optarg # os) c =
     (case c_strtol optarg of
        None \<Rightarrow> None
      | Some (v, _) \<Rightarrow> firewalld_overrides os (c\<lparr>check_interval := word_of_int v\<rparr>))"
| "firewalld_overrides (Opt_production optarg # os) c =
     firewalld_overrides os (c\<lparr>name_prod := optarg, prod_isset := True\<rparr>)"
| "firewalld_overrides (Opt_rebuild optarg # os) c =
     firewalld_overrides os (c\<lparr>name_rebuild := optarg, rebuild_isset := True\<rparr>)"
| "firewalld_overrides (Opt_none # os) c = firewalld_overrides os c"

text \<open>
  \<open>main\<close> up to the threads. \<open>the_db\<close> starts as NULL. The helper is opened by \<open>init\<close>; the callback
  is registered under a name for \<open>firewall_notify\<close>, and the result is not looked at.
\<close>

datatype firewalld_start =
    Ended_fatal
  | Ended_EINVAL
  | Ended_undefined
  | Database_not_opened
  | No_helper "db_call list"
  | Running firewalld_config firewall_state bool

definition firewalld_connect ::
  "db_library \<Rightarrow> ipset_helper option \<Rightarrow> int \<Rightarrow> firewalld_config \<Rightarrow> db_handle \<Rightarrow> firewalld_start" where
  "firewalld_connect lib init now c h =
     (case db_open lib \<lparr>calls = [], inst = Some h, err = Some None\<rparr> of
        (ok, w) \<Rightarrow>
          if \<not> ok then Database_not_opened
          else case init of
                 None \<Rightarrow> No_helper (db_dealloc lib w)
               | Some ih \<Rightarrow>
                   (case db_blocklist_async_notification_register lib (Some 0) (Some 0) w of
                      (registered, w1) \<Rightarrow>
                        Running c \<lparr>the_db = w1, helper = ih, timer_abstime = now + 1, timer_broadcasts = 0\<rparr> registered))"

definition firewalld_main ::
  "build \<Rightarrow> bool \<Rightarrow> bool \<Rightarrow> db_library \<Rightarrow> ipset_helper option \<Rightarrow> int \<Rightarrow> config_source \<Rightarrow> firewalld_option list \<Rightarrow>
     firewalld_config \<Rightarrow> firewalld_start" where
  "firewalld_main b malloc_ok asprintf_ok lib init now src opts c0 =
     (case firewalld_config_read_yaml_file b malloc_ok src c0 of
        Config_fatal \<Rightarrow> Ended_fatal
      | Config_invalid_access \<Rightarrow> Ended_undefined
      | Config_read ok c1 stored \<Rightarrow>
          if \<not> ok then Ended_EINVAL
          else case firewalld_overrides opts c1 of
            None \<Rightarrow> Ended_EINVAL
          | Some c2 \<Rightarrow>
              (let event_db = (case stored of None \<Rightarrow> None | Some h \<Rightarrow> h)
               in case firewalld_config_validate asprintf_ok c2 event_db of
                    None \<Rightarrow> Ended_undefined
                  | Some (Inl _) \<Rightarrow> Ended_EINVAL
                  | Some (Inr (c, _)) \<Rightarrow>
                      (case event_db of
                         None \<Rightarrow> Ended_EINVAL
                       | Some h \<Rightarrow> firewalld_connect lib init now c h)))"

section \<open>Properties\<close>

lemma ipset_name_scan_valid:
  "l \<le> 257 \<Longrightarrow> (\<exists>m \<le> 256. ipset_name_scan s l = Some m) \<longleftrightarrow>
     l + length s \<le> 256 \<and> list_all (\<lambda>c. c_isalnum c \<or> c = CHR ''_'') s"
  "ipset_name_scan s l = Some m \<Longrightarrow> l \<le> m"
  by (induction s l rule: ipset_name_scan.induct) (auto split: if_splits)

text \<open>
  \<open>__is_valid_ipset_name\<close> accepts exactly the names of 1 to 256 letters, digits and
  underscores, although its loop never looks beyond the 257th character.
\<close>

theorem ipset_name_valid:
  "is_valid_ipset_name s \<longleftrightarrow>
     s \<noteq> [] \<and> length s \<le> 256 \<and> list_all (\<lambda>c. c_isalnum c \<or> c = CHR ''_'') s"
proof (cases s)
  case Nil
  then show ?thesis by (simp add: is_valid_ipset_name_def)
next
  case (Cons c t)
  have "0 < m" if "ipset_name_scan s 0 = Some m" for m
    using that ipset_name_scan_valid(2) [of t 1 m] Cons by (auto split: if_splits)
  then show ?thesis
    using ipset_name_scan_valid(1) [of 0 s] Cons
    by (auto simp: is_valid_ipset_name_def split: option.split)
qed

lemma firewalld_keys_ok:
  "key_ok ''firewalld''" "key_ok ''check-interval''" "key_ok ''ipset-name''" "key_ok ''production''" "key_ok ''rebuild''"
  by (simp_all add: key_ok_def)

definition firewalld_key :: "string list \<Rightarrow> cstr" where
  "firewalld_key ks = key_path (''firewalld'' # ks)"

lemma below_firewalld:
  assumes "ks \<noteq> []" "\<forall>k \<in> set ks. key_ok k"
  shows "yaml_helper_doc_node_at_path doc (yaml_helper_doc_node_at_path doc (Some n) ''firewalld'') (key_path ks) =
    yaml_helper_doc_node_at_path doc (Some n) (firewalld_key ks)"
  using path_below [of "[''firewalld'']" ks doc n] assms by (simp add: firewalld_key_def firewalld_keys_ok)

lemma firewalld_item_keys:
  "yaml_helper_doc_node_at_path doc (yaml_helper_doc_node_at_path doc (Some n) ''firewalld'') ''check-interval'' =
    yaml_helper_doc_node_at_path doc (Some n) (firewalld_key [''check-interval''])"
  "yaml_helper_doc_node_at_path doc (yaml_helper_doc_node_at_path doc (Some n) ''firewalld'') ''ipset-name.production'' =
    yaml_helper_doc_node_at_path doc (Some n) (firewalld_key [''ipset-name'', ''production''])"
  "yaml_helper_doc_node_at_path doc (yaml_helper_doc_node_at_path doc (Some n) ''firewalld'') ''ipset-name.rebuild'' =
    yaml_helper_doc_node_at_path doc (Some n) (firewalld_key [''ipset-name'', ''rebuild''])"
  using below_firewalld [of "[''check-interval'']" doc n] below_firewalld [of "[''ipset-name'', ''production'']" doc n]
    below_firewalld [of "[''ipset-name'', ''rebuild'']" doc n]
  by (simp_all add: firewalld_keys_ok)

lemma firewalld_section:
  "config_section doc node p (firewalld_items doc) c =
    config_items (firewalld_items doc (yaml_helper_doc_node_at_path doc node p)) c"
  by (rule config_section_eq) (simp add: firewalld_items_def config_item_def)

text \<open>
  What the firewall daemon reads from its configuration file. The file is accepted exactly
  when each of the three items is absent or has a value that converts; then every variable has
  the value of its item or is unchanged, and a name counts as given exactly when its item is
  there.
\<close>

theorem firewalld_config_values:
  assumes "firewalld_read_section doc (Some root) c = (ok, c')"
  shows "(ok \<longleftrightarrow>
      item_ok doc (Some root) (firewalld_key [''check-interval'']) yaml_helper_get_scalar_uint32_value \<and>
      item_ok doc (Some root) (firewalld_key [''ipset-name'', ''production'']) yaml_helper_get_scalar_value \<and>
      item_ok doc (Some root) (firewalld_key [''ipset-name'', ''rebuild'']) yaml_helper_get_scalar_value) \<and>
    (ok \<longrightarrow>
      c' = c\<lparr>check_interval := item_value doc (Some root) (firewalld_key [''check-interval''])
               yaml_helper_get_scalar_uint32_value (check_interval c),
             name_prod := item_value doc (Some root) (firewalld_key [''ipset-name'', ''production''])
               yaml_helper_get_scalar_value (name_prod c),
             name_rebuild := item_value doc (Some root) (firewalld_key [''ipset-name'', ''rebuild''])
               yaml_helper_get_scalar_value (name_rebuild c),
             prod_isset := prod_isset c \<or>
               yaml_helper_doc_node_at_path doc (Some root) (firewalld_key [''ipset-name'', ''production'']) \<noteq> None,
             rebuild_isset := rebuild_isset c \<or>
               yaml_helper_doc_node_at_path doc (Some root) (firewalld_key [''ipset-name'', ''rebuild'']) \<noteq> None\<rparr>)"
  using assms
  by (auto simp: firewalld_read_section_def firewalld_section firewalld_items_def config_item_def
      item_ok_def item_value_def firewalld_item_keys split: option.splits)

lemma firewalld_read_file:
  assumes "firewalld_config_read_yaml_file b m src c0 = Config_read True c1 stored"
  obtains doc root where "src = Document doc (Some root)" "firewalld_read_section doc (Some root) c0 = (True, c1)"
    "\<forall>h. stored = Some (Some h) \<longrightarrow> handle_options h = db_options_no_pam_logging"
proof -
  from assms obtain doc root where d: "src = Document doc (Some root)"
    "firewalld_read_section doc (Some root) c0 = (True, c1)"
    "config_database b m doc (Some root) db_options_no_pam_logging = map_option Allocated stored"
    by (auto simp: firewalld_config_read_yaml_file_def config_read_source_def config_read_document_def
        split: config_source.splits option.splits yaml_node.splits db_alloc_result.splits prod.splits)
  from d(3) have "\<forall>h. stored = Some (Some h) \<longrightarrow> handle_options h = db_options_no_pam_logging"
    by (auto simp: config_database_def dest: db_alloc_options split: option.splits)
  with d(1,2) show ?thesis by (rule that)
qed

lemma firewalld_main_started:
  assumes "firewalld_main b m asp lib init now src opts c0 = Running c s reg"
  obtains c1 c2 h ih e where "firewalld_config_read_yaml_file b m src c0 = Config_read True c1 (Some (Some h))"
    "firewalld_overrides opts c1 = Some c2" "db_has_valid_configuration (Some h) (Some None) = (True, e)"
    "\<not> check_interval c2 < 120" "is_valid_ipset_name (name_prod c2)" "is_valid_ipset_name (name_rebuild c2)"
    "name_rebuild c2 \<noteq> name_prod c2" "firewalld_derive_name asp c2 = Some c"
    "init = Some ih" "firewalld_connect lib init now c h = Running c s reg"
proof -
  obtain ok c1 stored where r: "firewalld_config_read_yaml_file b m src c0 = Config_read ok c1 stored"
    using assms by (auto simp: firewalld_main_def split: config_outcome.splits)
  with assms have ok: "ok" by (cases ok) (simp_all add: firewalld_main_def)
  obtain c2 where c2: "firewalld_overrides opts c1 = Some c2"
    using assms r ok by (auto simp: firewalld_main_def split: option.splits)
  let ?db = "case stored of None \<Rightarrow> None | Some h \<Rightarrow> h"
  obtain c' ls h where v: "firewalld_config_validate asp c2 ?db = Some (Inr (c', ls))" "?db = Some h"
    "firewalld_connect lib init now c' h = Running c s reg"
    using assms r ok c2 by (auto simp: firewalld_main_def Let_def split: option.splits sum.splits)
  obtain ih where "init = Some ih" "c' = c"
    using v(3) by (auto simp: firewalld_connect_def split: prod.splits if_splits option.splits)
  moreover have "stored = Some (Some h)" using v(2) by (auto split: option.splits)
  ultimately show ?thesis
    using that [of c1 h c2 _ ih] r ok c2 v
    by (auto simp: firewalld_config_validate_def split: prod.splits if_splits)
qed

text \<open>
  What holds when the firewall daemon starts its threads, from whatever file and options. The
  database's configuration is valid and the logging of events is switched off; the interval is
  at least 120 seconds, also when it was given on the command line; both names are names the
  validation accepts, except that a rebuild name derived from a given production name is that
  name with \<open>_update\<close>; the two names differ; the first wake-up is one second away, and the
  database is the one that was opened.
\<close>

theorem firewalld_start_state:
  assumes "firewalld_main b m asp lib init now src opts c0 = Running c s reg"
  shows "120 \<le> check_interval c \<and> is_valid_ipset_name (name_prod c) \<and> name_rebuild c \<noteq> name_prod c \<and>
    (if prod_isset c \<and> \<not> rebuild_isset c then name_rebuild c = name_prod c @ ''_update''
     else is_valid_ipset_name (name_rebuild c)) \<and>
    timer_abstime s = now + 1 \<and> Some (helper s) = init \<and>
    (\<exists>h w. fst (db_has_valid_configuration (Some h) (Some None)) \<and>
       handle_options h = db_options_no_pam_logging \<and>
       db_open lib \<lparr>calls = [], inst = Some h, err = Some None\<rparr> = (True, w) \<and>
       db_blocklist_async_notification_register lib (Some 0) (Some 0) w = (reg, the_db s))"
proof -
  from assms obtain c1 c2 h ih e where
    m: "firewalld_config_read_yaml_file b m src c0 = Config_read True c1 (Some (Some h))"
    "firewalld_overrides opts c1 = Some c2" "db_has_valid_configuration (Some h) (Some None) = (True, e)"
    "\<not> check_interval c2 < 120" "is_valid_ipset_name (name_prod c2)" "is_valid_ipset_name (name_rebuild c2)"
    "name_rebuild c2 \<noteq> name_prod c2" "firewalld_derive_name asp c2 = Some c"
    "init = Some ih" "firewalld_connect lib init now c h = Running c s reg"
    by (rule firewalld_main_started)
  from m(1) obtain doc root where "handle_options h = db_options_no_pam_logging"
    by (rule firewalld_read_file) simp
  moreover obtain w where w: "db_open lib \<lparr>calls = [], inst = Some h, err = Some None\<rparr> = (True, w)"
    "db_blocklist_async_notification_register lib (Some 0) (Some 0) w = (reg, the_db s)"
    "timer_abstime s = now + 1" "helper s = ih"
    using m(9,10) by (auto simp: firewalld_connect_def split: prod.splits if_splits)
  moreover have "120 \<le> check_interval c2" using m(4) by simp
  moreover have "check_interval c = check_interval c2 \<and> name_prod c = name_prod c2 \<and> prod_isset c = prod_isset c2 \<and>
      rebuild_isset c = rebuild_isset c2 \<and>
      name_rebuild c = (if prod_isset c2 \<and> \<not> rebuild_isset c2 then name_prod c2 @ ''_update'' else name_rebuild c2)"
    using m(8) by (auto simp: firewalld_derive_name_def split: if_splits)
  ultimately show ?thesis using m(3,5-7,9) by (intro conjI exI [of _ h] exI [of _ w]) simp_all
qed

text \<open>
  A file with a CSV database and a name for the production set:
  \<open>{database: {driver-name: csvfile, filename: f}, firewalld: {ipset-name: {production: b}}}\<close>.
\<close>

definition firewalld_doc :: yaml_document where
  "firewalld_doc = map_of
     [(1, YAML_MAPPING_NODE [(2, 3), (8, 9)]), (2, YAML_SCALAR_NODE ''database''),
      (3, YAML_MAPPING_NODE [(4, 5), (6, 7)]), (4, YAML_SCALAR_NODE ''driver-name''),
      (5, YAML_SCALAR_NODE ''csvfile''), (6, YAML_SCALAR_NODE ''filename''), (7, YAML_SCALAR_NODE ''f''),
      (8, YAML_SCALAR_NODE ''firewalld''), (9, YAML_MAPPING_NODE [(10, 11)]), (10, YAML_SCALAR_NODE ''ipset-name''),
      (11, YAML_MAPPING_NODE [(12, 13)]), (12, YAML_SCALAR_NODE ''production''), (13, YAML_SCALAR_NODE ''b'')]"

definition firewalld_root :: yaml_node where
  "firewalld_root = YAML_MAPPING_NODE [(2, 3), (8, 9)]"

lemma firewalld_lookup:
  "\<forall>k \<in> set ks. key_ok k \<Longrightarrow>
     yaml_helper_doc_node_at_path doc (Some n) (firewalld_key ks) = lookup_keys doc n (''firewalld'' # ks)"
  using path_lookup [of "''firewalld'' # ks" doc n] by (simp add: firewalld_key_def firewalld_keys_ok)

lemma firewalld_doc_items:
  "yaml_helper_doc_node_at_path firewalld_doc (Some firewalld_root) (firewalld_key [''check-interval'']) = None"
  "yaml_helper_doc_node_at_path firewalld_doc (Some firewalld_root) (firewalld_key [''ipset-name'', ''production'']) =
     Some (YAML_SCALAR_NODE ''b'')"
  "yaml_helper_doc_node_at_path firewalld_doc (Some firewalld_root) (firewalld_key [''ipset-name'', ''rebuild'']) = None"
  by (simp_all add: firewalld_lookup firewalld_keys_ok mapping_entry_def firewalld_doc_def firewalld_root_def)

theorem firewalld_config_values_witness:
  "firewalld_read_section firewalld_doc (Some firewalld_root) firewalld_config_default =
    (True, firewalld_config_default\<lparr>name_prod := ''b'', prod_isset := True\<rparr>)"
proof -
  obtain ok c' where r: "firewalld_read_section firewalld_doc (Some firewalld_root) firewalld_config_default = (ok, c')"
    by fastforce
  show ?thesis
    using firewalld_config_values [OF r] r
    by (simp add: item_ok_def item_value_def firewalld_doc_items yaml_helper_get_scalar_value_def cstr_of_no_nul
        firewalld_config_default_def)
qed

lemma firewalld_doc_steps:
  "yaml_helper_doc_node_at_path firewalld_doc (Some firewalld_root) ''database'' = Some (YAML_MAPPING_NODE [(4, 5), (6, 7)])"
  "yaml_helper_doc_node_at_path firewalld_doc (Some (YAML_MAPPING_NODE [(4, 5), (6, 7)])) ''driver-name'' =
     Some (YAML_SCALAR_NODE ''csvfile'')"
  "yaml_helper_doc_node_at_path firewalld_doc (Some (YAML_MAPPING_NODE [(4, 5), (6, 7)])) ''filename'' =
     Some (YAML_SCALAR_NODE ''f'')"
  "yaml_helper_doc_node_at_path firewalld_doc (Some (YAML_MAPPING_NODE [(4, 5), (6, 7)])) ''delimiter'' = None"
  using path_lookup [of "[k]" firewalld_doc n for k n]
  by (simp_all add: key_ok_def mapping_entry_def firewalld_doc_def firewalld_root_def)

lemma firewalld_doc_read:
  "firewalld_read_section firewalld_doc (Some firewalld_root) c = (True, c\<lparr>name_prod := ''b'', prod_isset := True\<rparr>)"
  using firewalld_doc_items
  by (simp add: firewalld_read_section_def firewalld_section firewalld_items_def config_item_def firewalld_item_keys
      yaml_helper_get_scalar_value_def cstr_of_no_nul)

definition blank_helper :: ipset_helper where
  "blank_helper = \<lparr>session = True, set_type = False, history = []\<rparr>"

definition build_plain :: build where
  "build_plain = \<lparr>HAVE_POSTGRESQL = False, HAVE_SQLITE3 = False, HAVE_MYSQL = False\<rparr>"

definition firewalld_db :: db_handle where
  "firewalld_db = Db_csvfile (db_instance.extend (db_instance_base\<lparr>options := db_options_no_pam_logging\<rparr>)
     \<lparr>filename = ''f'', fptr = False, delimiter = '',''\<rparr>)"

lemma firewalld_doc_db:
  "db_alloc build_plain True None firewalld_doc (Some (YAML_MAPPING_NODE [(4, 5), (6, 7)])) db_options_no_pam_logging =
    Allocated (Some firewalld_db)"
proof -
  have "db_driver_lookup build_plain ''csvfile'' = Some Csvfile"
    by (simp add: db_driver_lookup_def db_drivers_def c_strcaseeq_def)
  then show ?thesis
    by (simp add: db_alloc_def conf_node_def conf_scalar_def firewalld_doc_steps yaml_helper_get_scalar_value_def
        cstr_of_no_nul driver_alloc_def csvfile_alloc_def firewalld_db_def db_instance.defs db_instance_base_def)
qed

lemma firewalld_db_valid: "db_has_valid_configuration (Some firewalld_db) e = (True, e)"
  by (simp add: db_has_valid_configuration_def firewalld_db_def csvfile_has_valid_configuration_def)

lemma firewalld_main_sample:
  "\<exists>s. firewalld_main build_plain True True pg_all_ok (Some ih) 1000 (Document firewalld_doc (Some firewalld_root))
      [Opt_check_interval ''600''] firewalld_config_default =
    Running (firewalld_config_default\<lparr>name_prod := ''b'', prod_isset := True, check_interval := 600,
      name_rebuild := ''b_update''\<rparr>) s False"
proof -
  have read: "firewalld_config_read_yaml_file build_plain True (Document firewalld_doc (Some firewalld_root))
      firewalld_config_default =
    Config_read True (firewalld_config_default\<lparr>name_prod := ''b'', prod_isset := True\<rparr>) (Some (Some firewalld_db))"
    by (simp add: firewalld_config_read_yaml_file_def config_read_source_def config_read_document_def
        config_database_def firewalld_doc_steps(1) firewalld_doc_db firewalld_doc_read firewalld_root_def [symmetric]
        split: yaml_node.splits) (simp add: firewalld_root_def)
  have "show_int 600 = ''600''" by (simp add: show_int_def show_nat.simps)
  then have n: "c_strtol ''600'' = Some (600, [])" using c_strtol_show_int [of 600] by simp
  let ?c = "firewalld_config_default\<lparr>name_prod := ''b'', prod_isset := True, check_interval := 600\<rparr>"
  have v: "\<exists>ls. firewalld_config_validate True ?c (Some firewalld_db) =
      Some (Inr (?c\<lparr>name_rebuild := ''b_update''\<rparr>, ls))"
    by (simp add: firewalld_config_validate_def firewalld_db_valid is_valid_ipset_name_def
        firewalld_config_default_def firewalld_derive_name_def cchar_simps)
  then obtain ls where v: "firewalld_config_validate True ?c (Some firewalld_db) =
      Some (Inr (?c\<lparr>name_rebuild := ''b_update''\<rparr>, ls))" by blast
  have "\<exists>s. firewalld_connect pg_all_ok (Some ih) 1000 c firewalld_db = Running c s False" for c
    by (simp add: firewalld_connect_def db_open_def driver_open_def firewalld_db_def csvfile_open_def
        lib_call_def pg_all_ok_def db_instance.defs db_instance_base_def db_options_isset_def
        db_blocklist_async_notification_register_def)
  then show ?thesis using read n v by (simp add: firewalld_main_def)
qed

theorem firewalld_start_state_witness:
  "\<exists>c s. firewalld_main build_plain True True pg_all_ok (Some blank_helper) 1000 (Document firewalld_doc (Some firewalld_root))
      [Opt_check_interval ''600''] firewalld_config_default = Running c s False \<and>
    120 \<le> check_interval c \<and> name_rebuild c = ''b_update'' \<and> timer_abstime s = 1001"
proof -
  obtain s where r: "firewalld_main build_plain True True pg_all_ok (Some blank_helper) 1000
      (Document firewalld_doc (Some firewalld_root)) [Opt_check_interval ''600''] firewalld_config_default =
    Running (firewalld_config_default\<lparr>name_prod := ''b'', prod_isset := True, check_interval := 600,
      name_rebuild := ''b_update''\<rparr>) s False" using firewalld_main_sample [of blank_helper] by blast
  from firewalld_start_state [OF r] r show ?thesis by auto
qed

end
