(* ===== verification/Firewalld.thy ===== *)
theory Firewalld
  imports Firewalld_Config Firewall_Race
begin

text \<open>
  The threads of \<open>src/firewall-daemon/iptracking-firewalld.c\<close> and the end of its \<open>main\<close>: the timer
  thread, the database's thread that delivers notifications, the shutdown thread and the signal
  handler, sharing \<open>is_running\<close>, two locks, the wake-up time and the session of libipset. A step
  of an update is one call of libipset, so that the two updates interleave as they do in the
  process. The handler takes \<open>shutdown_mutex\<close>: a thread it interrupts stands still until the
  handler has the lock.
\<close>

section \<open>State\<close>

text \<open>
  \<open>timer_thread_entry\<close>: \<open>Ti_awake\<close> has the result of the wait and needs \<open>timer_mutex\<close> again;
  \<open>Ti_woken\<close> and \<open>Ti_update\<close> hold it. \<open>firewall_notify\<close>: \<open>Nt_locked\<close> holds it.
\<close>

datatype timer_pc =
  Ti_check | Ti_lock | Ti_wait | Ti_awake int | Ti_woken int | Ti_update "int option prog" | Ti_done

datatype notify_pc = Nt_idle | Nt_update "db_enum option dbs" "int option prog" | Nt_lock | Nt_locked

text \<open>\<open>Fs_locked\<close>, \<open>Fs_woken\<close> and \<open>Fs_wake_timer\<close> hold \<open>shutdown_mutex\<close>.\<close>

datatype firewalld_sh_pc = Fs_start | Fs_locked | Fs_wait | Fs_awake | Fs_woken | Fs_wake_timer | Fs_done

datatype daemon_thread = Main_thread | Timer_thread | Notify_thread | Shutdown_thread

text \<open>\<open>in_handler\<close>: the threads the handler interrupted. \<open>updates\<close> counts the periodic updates.\<close>

record firewalld_state = firewall_state +
  daemon_running :: bool
  timer_pc :: timer_pc
  notify_pc :: notify_pc
  shutdown_pc :: firewalld_sh_pc
  registered :: bool
  in_handler :: "daemon_thread set"
  updates :: nat

definition firewalld_init :: "firewall_state \<Rightarrow> bool \<Rightarrow> firewalld_state" where
  "firewalld_init s reg = firewall_state.extend s
     \<lparr>daemon_running = True, timer_pc = Ti_check, notify_pc = Nt_idle, shutdown_pc = Fs_start,
      registered = reg, in_handler = {}, updates = 0\<rparr>"

text \<open>\<open>pthread_cond_broadcast(&timer_cond)\<close> and \<open>pthread_cond_broadcast(&shutdown_cond)\<close>.\<close>

definition wake_timer :: "firewalld_state \<Rightarrow> firewalld_state" where
  "wake_timer s = (if timer_pc s = Ti_wait then s\<lparr>timer_pc := Ti_awake 0\<rparr> else s)"

definition wake_shutdown :: "firewalld_state \<Rightarrow> firewalld_state" where
  "wake_shutdown s = (if shutdown_pc s = Fs_wait then s\<lparr>shutdown_pc := Fs_awake\<rparr> else s)"

definition timer_holds :: "firewalld_state \<Rightarrow> bool" where
  "timer_holds s \<longleftrightarrow> (case timer_pc s of Ti_woken _ \<Rightarrow> True | Ti_update _ \<Rightarrow> True | _ \<Rightarrow> False)"

definition timer_mutex_free :: "firewalld_state \<Rightarrow> bool" where
  "timer_mutex_free s \<longleftrightarrow> \<not> timer_holds s \<and> notify_pc s \<noteq> Nt_locked"

definition shutdown_mutex_free :: "firewalld_state \<Rightarrow> bool" where
  "shutdown_mutex_free s \<longleftrightarrow> shutdown_pc s \<notin> {Fs_locked, Fs_woken, Fs_wake_timer}"

section \<open>Steps\<close>

text \<open>A step of the timer thread; \<open>None\<close> when it waits, has ended, or cannot go on.\<close>

definition timer_thread_step ::
  "nat \<Rightarrow> ipset_programs \<Rightarrow> ipset_library \<Rightarrow> db_library \<Rightarrow> firewall_conf \<Rightarrow> int \<Rightarrow>
     firewalld_state \<Rightarrow> firewalld_state option" where
  "timer_thread_step fuel ps lib dblib cf now s =
     (case timer_pc s of
        Ti_check \<Rightarrow> Some (s\<lparr>timer_pc := (if daemon_running s then Ti_lock else Ti_done)\<rparr>)
      | Ti_lock \<Rightarrow> if timer_mutex_free s then Some (s\<lparr>timer_pc := Ti_wait\<rparr>) else None
      | Ti_wait \<Rightarrow> None
      | Ti_awake rc \<Rightarrow> if timer_mutex_free s then Some (s\<lparr>timer_pc := Ti_woken rc\<rparr>) else None
      | Ti_woken rc \<Rightarrow>
          Some (if rc = ETIMEDOUT then s\<lparr>timer_pc := Ti_update (update_prog ps cf), updates := updates s + 1\<rparr>
            else s\<lparr>timer_pc := Ti_check\<rparr>)
      | Ti_update p \<Rightarrow>
          (case p of
             Return None \<Rightarrow> Some (s\<lparr>timer_pc := Ti_check\<rparr>)
           | Return (Some _) \<Rightarrow> Some ((reset_timer now cf s)\<lparr>timer_pc := Ti_check\<rparr>)
           | Block_list k \<Rightarrow>
               map_option (\<lambda>(xs, w). s\<lparr>the_db := w, timer_pc := Ti_update (k xs)\<rparr>)
                 (blocklist_read fuel dblib (the_db s))
           | _ \<Rightarrow> map_option (\<lambda>(p', h). s\<lparr>helper := h, timer_pc := Ti_update p'\<rparr>) (prog_step lib [] p (helper s)))
      | Ti_done \<Rightarrow> None)"

text \<open>
  A step of the thread that delivers notifications: it calls \<open>firewall_notify\<close> with the
  enumerator \<open>e\<close> when the callback is registered.
\<close>

definition notify_thread_step ::
  "nat \<Rightarrow> ipset_programs \<Rightarrow> ipset_library \<Rightarrow> db_library \<Rightarrow> firewall_conf \<Rightarrow> int \<Rightarrow> db_enum option dbs \<Rightarrow>
     firewalld_state \<Rightarrow> firewalld_state option" where
  "notify_thread_step fuel ps lib dblib cf now e s =
     (case notify_pc s of
        Nt_idle \<Rightarrow> if registered s then Some (s\<lparr>notify_pc := Nt_update e (update_prog ps cf)\<rparr>) else None
      | Nt_update en p \<Rightarrow>
          (case p of
             Return r \<Rightarrow> Some (s\<lparr>notify_pc := (if r = Some 0 then Nt_lock else Nt_idle)\<rparr>)
           | Block_list k \<Rightarrow>
               map_option (\<lambda>(xs, en'). s\<lparr>notify_pc := Nt_update en' (k xs)\<rparr>) (notify_read fuel dblib en)
           | _ \<Rightarrow> map_option (\<lambda>(p', h). s\<lparr>helper := h, notify_pc := Nt_update en p'\<rparr>) (prog_step lib [] p (helper s)))
      | Nt_lock \<Rightarrow> if timer_mutex_free s then Some (s\<lparr>notify_pc := Nt_locked\<rparr>) else None
      | Nt_locked \<Rightarrow>
          Some (wake_timer ((reset_timer now cf s)\<lparr>notify_pc := Nt_idle, timer_broadcasts := timer_broadcasts s + 1\<rparr>)))"

definition firewalld_shutdown_step :: "firewalld_state \<Rightarrow> firewalld_state option" where
  "firewalld_shutdown_step s =
     (case shutdown_pc s of
        Fs_start \<Rightarrow> Some (s\<lparr>shutdown_pc := Fs_locked\<rparr>)
      | Fs_locked \<Rightarrow> Some (s\<lparr>shutdown_pc := Fs_wait\<rparr>)
      | Fs_wait \<Rightarrow> None
      | Fs_awake \<Rightarrow> Some (s\<lparr>shutdown_pc := Fs_woken\<rparr>)
      | Fs_woken \<Rightarrow> Some (s\<lparr>daemon_running := False, shutdown_pc := Fs_wake_timer\<rparr>)
      | Fs_wake_timer \<Rightarrow> if timer_mutex_free s then Some (wake_timer (s\<lparr>shutdown_pc := Fs_done\<rparr>)) else None
      | Fs_done \<Rightarrow> None)"

text \<open>The handler in the thread it interrupted.\<close>

definition firewalld_handle_termination :: "daemon_thread \<Rightarrow> firewalld_state \<Rightarrow> firewalld_state option" where
  "firewalld_handle_termination th s =
     (if th \<in> in_handler s \<and> shutdown_mutex_free s
      then Some (wake_shutdown (s\<lparr>in_handler := in_handler s - {th}\<rparr>)) else None)"

definition thread_alive :: "daemon_thread \<Rightarrow> firewalld_state \<Rightarrow> bool" where
  "thread_alive th s \<longleftrightarrow>
     (case th of
        Main_thread \<Rightarrow> True
      | Timer_thread \<Rightarrow> timer_pc s \<noteq> Ti_done
      | Notify_thread \<Rightarrow> registered s
      | Shutdown_thread \<Rightarrow> shutdown_pc s \<noteq> Fs_done)"

inductive firewalld_step ::
  "ipset_programs \<Rightarrow> ipset_library \<Rightarrow> db_library \<Rightarrow> firewall_conf \<Rightarrow> firewalld_state \<Rightarrow> firewalld_state \<Rightarrow> bool"
  for ps lib dblib cf where
  timer_moves: "Timer_thread \<notin> in_handler s \<Longrightarrow> timer_thread_step fuel ps lib dblib cf now s = Some t \<Longrightarrow>
    firewalld_step ps lib dblib cf s t"
| timeout: "timer_pc s = Ti_wait \<Longrightarrow> timer_abstime s \<le> now \<Longrightarrow>
    firewalld_step ps lib dblib cf s (s\<lparr>timer_pc := Ti_awake ETIMEDOUT\<rparr>)"
| spurious_timer: "timer_pc s = Ti_wait \<Longrightarrow> firewalld_step ps lib dblib cf s (s\<lparr>timer_pc := Ti_awake 0\<rparr>)"
| notify_moves: "Notify_thread \<notin> in_handler s \<Longrightarrow> notify_thread_step fuel ps lib dblib cf now e s = Some t \<Longrightarrow>
    firewalld_step ps lib dblib cf s t"
| shutdown_moves: "Shutdown_thread \<notin> in_handler s \<Longrightarrow> firewalld_shutdown_step s = Some t \<Longrightarrow>
    firewalld_step ps lib dblib cf s t"
| spurious_shutdown: "shutdown_pc s = Fs_wait \<Longrightarrow> firewalld_step ps lib dblib cf s (s\<lparr>shutdown_pc := Fs_awake\<rparr>)"
| termination_signal: "thread_alive th s \<Longrightarrow>
    firewalld_step ps lib dblib cf s (s\<lparr>in_handler := insert th (in_handler s)\<rparr>)"
| handler_moves: "firewalld_handle_termination th s = Some t \<Longrightarrow> firewalld_step ps lib dblib cf s t"

inductive_cases firewalld_stepE: "firewalld_step ps lib dblib cf s t"

abbreviation firewalld_reachable ::
  "ipset_programs \<Rightarrow> ipset_library \<Rightarrow> db_library \<Rightarrow> firewall_conf \<Rightarrow> firewalld_state \<Rightarrow> firewalld_state \<Rightarrow> bool" where
  "firewalld_reachable ps lib dblib cf \<equiv> (firewalld_step ps lib dblib cf)\<^sup>*\<^sup>*"

text \<open>
  The end of \<open>main\<close>: the database is closed (its notification thread is cancelled, wherever it
  is), the rebuild set is destroyed, the helper closed and the database released.
\<close>

definition firewalld_finish ::
  "ipset_backend \<Rightarrow> (ipset_helper \<Rightarrow> int \<times> ipset_helper) \<Rightarrow> db_library \<Rightarrow> firewall_conf \<Rightarrow> firewalld_state \<Rightarrow>
     db_call list \<times> ipset_helper" where
  "firewalld_finish be fini lib cf s =
     (let w = snd (db_close lib ((the_db s)\<lparr>err := Some None\<rparr>));
          h = snd (helper_destroy be (name_rebuild cf) (helper s))
      in (db_dealloc lib w, snd (fini h)))"

section \<open>Facts\<close>

lemma firewalld_init_simps [simp]:
  "daemon_running (firewalld_init s reg)" "timer_pc (firewalld_init s reg) = Ti_check"
  "notify_pc (firewalld_init s reg) = Nt_idle" "in_handler (firewalld_init s reg) = {}"
  "shutdown_pc (firewalld_init s reg) = Fs_start" "updates (firewalld_init s reg) = 0"
  "helper (firewalld_init s reg) = helper s" "the_db (firewalld_init s reg) = the_db s"
  "timer_abstime (firewalld_init s reg) = timer_abstime s" "registered (firewalld_init s reg) = reg"
  by (simp_all add: firewalld_init_def firewall_state.extend_def)

lemma reset_timer_simps [simp]:
  "daemon_running (reset_timer now cf s) = daemon_running s" "timer_pc (reset_timer now cf s) = timer_pc s"
  "notify_pc (reset_timer now cf s) = notify_pc s" "shutdown_pc (reset_timer now cf s) = shutdown_pc s"
  "registered (reset_timer now cf s) = registered s" "in_handler (reset_timer now cf s) = in_handler s"
  "updates (reset_timer now cf s) = updates s"
  "helper (reset_timer now cf t) = helper t" "the_db (reset_timer now cf t) = the_db t"
  by (simp_all add: reset_timer_def)

lemma wake_timer_simps [simp]:
  "daemon_running (wake_timer s) = daemon_running s" "notify_pc (wake_timer s) = notify_pc s"
  "shutdown_pc (wake_timer s) = shutdown_pc s" "in_handler (wake_timer s) = in_handler s"
  "updates (wake_timer s) = updates s" "helper (wake_timer s) = helper s" "registered (wake_timer s) = registered s"
  "timer_pc (wake_timer s) = (if timer_pc s = Ti_wait then Ti_awake 0 else timer_pc s)"
  by (simp_all add: wake_timer_def)

lemma wake_shutdown_simps [simp]:
  "daemon_running (wake_shutdown s) = daemon_running s" "notify_pc (wake_shutdown s) = notify_pc s"
  "timer_pc (wake_shutdown s) = timer_pc s" "in_handler (wake_shutdown s) = in_handler s"
  "updates (wake_shutdown s) = updates s" "helper (wake_shutdown s) = helper s"
  "shutdown_pc (wake_shutdown s) = (if shutdown_pc s = Fs_wait then Fs_awake else shutdown_pc s)"
  by (simp_all add: wake_shutdown_def)

lemmas firewalld_steps = timer_thread_step_def notify_thread_step_def firewalld_shutdown_step_def
  firewalld_handle_termination_def timer_mutex_free_def shutdown_mutex_free_def timer_holds_def

lemma reachable_keeps:
  assumes "firewalld_reachable ps lib dblib cf s t" "P s"
    "\<And>u v. P u \<Longrightarrow> firewalld_step ps lib dblib cf u v \<Longrightarrow> P v"
  shows "P t"
  using assms(1) by (induction) (use assms(2,3) in auto)

section \<open>The production set\<close>

text \<open>What the pending calls of both updates, the session's data and the sets are restricted to.\<close>

definition daemon_in :: "firewall_conf \<Rightarrow> cstr set \<Rightarrow> ipset_sets \<Rightarrow> firewalld_state \<Rightarrow> bool" where
  "daemon_in cf E S0 s \<longleftrightarrow>
     (\<forall>p. timer_pc s = Ti_update p \<longrightarrow> prog_in (name_rebuild cf) (name_prod cf) E p) \<and>
     (\<forall>e p. notify_pc s = Nt_update e p \<longrightarrow> prog_in (name_rebuild cf) (name_prod cf) E p) \<and>
     world_in (name_rebuild cf) (name_prod cf) E (ipset_world S0 (helper s))"

text \<open>What a step does to the helper is one step of an update.\<close>

lemma helper_step:
  assumes "firewalld_step ps lib dblib cf s t"
  shows "helper t = helper s \<or> (\<exists>p p'. (timer_pc s = Ti_update p \<or> (\<exists>e. notify_pc s = Nt_update e p)) \<and>
    prog_step lib [] p (helper s) = Some (p', helper t))"
  using assms
proof cases
  case (timer_moves fuel now)
  then show ?thesis
    by (cases "timer_pc s") (auto simp: timer_thread_step_def split: prog.splits option.splits if_splits)
next
  case (notify_moves fuel now e)
  then show ?thesis
    by (cases "notify_pc s") (auto simp: notify_thread_step_def split: prog.splits option.splits if_splits)
next
  case shutdown_moves
  then show ?thesis by (auto simp: firewalld_shutdown_step_def split: firewalld_sh_pc.splits if_splits)
qed (auto simp: firewalld_handle_termination_def split: if_splits)

lemma timer_prog_step:
  assumes "timer_thread_step fuel ps lib dblib cf now s = Some t" "timer_pc t = Ti_update p'"
  shows "p' = update_prog ps cf \<or> (\<exists>p. timer_pc s = Ti_update p \<and>
    ((\<exists>k xs. p = Block_list k \<and> p' = k xs) \<or> prog_step lib [] p (helper s) = Some (p', helper t)))"
  using assms
  by (cases "timer_pc s") (auto simp: timer_thread_step_def split: prog.splits option.splits if_splits)

lemma notify_prog_step:
  assumes "notify_thread_step fuel ps lib dblib cf now e s = Some t" "notify_pc t = Nt_update e' p'"
  shows "p' = update_prog ps cf \<or> (\<exists>e p. notify_pc s = Nt_update e p \<and>
    ((\<exists>k xs. p = Block_list k \<and> p' = k xs) \<or> prog_step lib [] p (helper s) = Some (p', helper t)))"
  using assms
  by (cases "notify_pc s") (auto simp: notify_thread_step_def split: prog.splits option.splits if_splits)

lemma other_pcs:
  "timer_thread_step fuel ps lib dblib cf now s = Some t \<Longrightarrow> notify_pc t = notify_pc s"
  "notify_thread_step fuel ps lib dblib cf now e s = Some t \<Longrightarrow> timer_pc t = Ti_update p \<Longrightarrow> timer_pc s = Ti_update p"
  "firewalld_shutdown_step s = Some t \<Longrightarrow> timer_pc t = Ti_update p \<Longrightarrow> timer_pc s = Ti_update p"
  "firewalld_shutdown_step s = Some t \<Longrightarrow> notify_pc t = notify_pc s"
  by (auto simp: timer_thread_step_def notify_thread_step_def firewalld_shutdown_step_def
      split: timer_pc.splits notify_pc.splits firewalld_sh_pc.splits prog.splits option.splits if_splits)

lemma daemon_in_step:
  assumes "firewalld_step ps lib dblib cf s t" "daemon_in cf UNIV S0 s" "ps = session_programs \<or> ps = api_programs"
  shows "daemon_in cf UNIV S0 t"
proof -
  let ?n = "name_rebuild cf" and ?p = "name_prod cf"
  have W: "world_in ?n ?p UNIV (ipset_world S0 (helper t))"
    using helper_step [OF assms(1)] assms(2) prog_step_in [of lib "[]" _ "helper s" _ "helper t" ?n ?p UNIV S0]
    by (auto simp: daemon_in_def)
  have pi: "prog_in ?n ?p UNIV p'" if "prog_in ?n ?p UNIV p" "prog_step lib [] p (helper s) = Some (p', helper t)"
    for p p' :: "int option prog"
    using prog_step_in [OF that(2,1), of S0] assms(2) by (auto simp: daemon_in_def)
  have go: "prog_in ?n ?p UNIV p'"
    if "p' = update_prog ps cf \<or> (\<exists>p. prog_in ?n ?p UNIV p \<and>
      ((\<exists>k xs. p = Block_list k \<and> p' = k xs) \<or> prog_step lib [] p (helper s) = Some (p', helper t)))" for p'
    using that update_prog_in [OF assms(3)] pi by (elim disjE exE conjE) auto
  have T: "prog_in ?n ?p UNIV p'" if "timer_pc t = Ti_update p'" for p'
    using assms(1)
  proof cases
    case (timer_moves fuel now)
    show ?thesis
      by (rule go) (use timer_prog_step [OF timer_moves(2) that] assms(2) in \<open>unfold daemon_in_def, blast\<close>)
  next
    case (notify_moves fuel now e)
    with other_pcs(2) [OF _ that] assms(2) show ?thesis by (auto simp: daemon_in_def)
  next
    case shutdown_moves
    with other_pcs(3) [OF _ that] assms(2) show ?thesis by (auto simp: daemon_in_def)
  qed (use that assms(2) in \<open>auto simp: daemon_in_def firewalld_handle_termination_def split: if_splits\<close>)
  have N: "prog_in ?n ?p UNIV p'" if "notify_pc t = Nt_update e' p'" for e' p'
    using assms(1)
  proof cases
    case (timer_moves fuel now)
    with other_pcs(1) that assms(2) show ?thesis by (auto simp: daemon_in_def)
  next
    case (notify_moves fuel now e)
    show ?thesis
      by (rule go) (use notify_prog_step [OF notify_moves(2) that] assms(2) in \<open>unfold daemon_in_def, blast\<close>)
  next
    case shutdown_moves
    with other_pcs(4) that assms(2) show ?thesis by (auto simp: daemon_in_def)
  qed (use that assms(2) in \<open>auto simp: daemon_in_def firewalld_handle_termination_def split: if_splits\<close>)
  show ?thesis using W T N by (simp add: daemon_in_def)
qed

text \<open>
  The production set outlives everything the daemon does. When the set exists at the start
  and the kernel refuses what it documents to refuse, the set exists in every state of every
  run, however the calls of the two updates interleave; and it is still there with
  the same contents after the end of \<open>main\<close>, which destroys the rebuild set only: the rules that
  refer to it keep working, and what was blocked stays blocked.
\<close>

lemma firewalld_production:
  assumes "firewalld_reachable session_programs lib dblib cf (firewalld_init s0 reg) s" "session (helper s0)"
    "fst (ipset_world S0 (helper s0)) = no_data" "sets_needed lib S0" "name_rebuild cf \<noteq> name_prod cf"
    "ipset_sets S0 (helper s0) (name_prod cf) \<noteq> None"
  shows "ipset_sets S0 (helper s) (name_prod cf) \<noteq> None \<and>
    ipset_sets S0 (snd (firewalld_finish (session_backend lib) (session_fini lib) dblib cf s)) (name_prod cf) =
      ipset_sets S0 (helper s) (name_prod cf)"
proof -
  let ?P = "\<lambda>s. daemon_in cf UNIV S0 s \<and> session (helper s) \<and> ipset_sets S0 (helper s) (name_prod cf) \<noteq> None"
  have keep: "session h' = session h" if "prog_step lib xs p h = Some (p', h')" for xs h h' and p p' :: "int option prog"
    using that by (cases p) (auto simp: ipset_call_def Let_def)
  have P: "?P s"
  proof (rule reachable_keeps [OF assms(1)])
    have "world_in (name_rebuild cf) (name_prod cf) UNIV (ipset_world S0 (helper s0))"
      using assms(3) by (cases "ipset_world S0 (helper s0)") (simp add: no_data_def within_def)
    then show "?P (firewalld_init s0 reg)" using assms(2,6) by (simp add: daemon_in_def)
    fix u v assume u: "?P u" and st: "firewalld_step session_programs lib dblib cf u v"
    have "ipset_sets S0 (helper v) (name_prod cf) \<noteq> None \<and> session (helper v)"
      using helper_step [OF st]
    proof (elim disjE exE conjE)
      fix p p' assume "timer_pc u = Ti_update p" "prog_step lib [] p (helper u) = Some (p', helper v)"
      with u prog_step_keeps_production [OF assms(4,5), of "[]" p "helper u" p' "helper v" UNIV] keep
      show ?thesis by (auto simp: daemon_in_def)
    next
      fix p p' e assume "notify_pc u = Nt_update e p" "prog_step lib [] p (helper u) = Some (p', helper v)"
      with u prog_step_keeps_production [OF assms(4,5), of "[]" p "helper u" p' "helper v" UNIV] keep
      show ?thesis by (auto simp: daemon_in_def)
    qed (use u in simp)
    then show "?P v" using daemon_in_step [OF st] u by blast
  qed
  obtain rc h1 where d: "session_destroy lib (name_rebuild cf) (helper s) = (rc, h1)" by fastforce
  have "ipset_sets S0 (snd (session_fini lib h1)) = ipset_sets S0 h1"
    by (cases "ipset_world S0 h1") (auto simp: session_fini_def ipset_do_def ipset_call_def ipset_sets_def ipset_world_def Let_def)
  then have "ipset_sets S0 (snd (firewalld_finish (session_backend lib) (session_fini lib) dblib cf s)) (name_prod cf) =
      ipset_sets S0 (helper s) (name_prod cf)"
    using session_destroy_law [OF _ d, of S0] P d assms(5)
    by (simp add: firewalld_finish_def Let_def session_backend_def)
  with P show ?thesis by simp
qed

end
