(* ===== verification/Firewalld_Handlers.thy ===== *)
theory Firewalld_Handlers
  imports Firewalld
begin

text \<open>
  The steps of the firewall daemon's threads against the handlers as functions: an update that
  nothing disturbs is \<open>timer_turn\<close> or \<open>firewall_notify\<close> of Firewall_Update, so that the properties
  of those hold of the daemon's runs.
\<close>

section \<open>Undisturbed updates\<close>

text \<open>Programs that do not ask for the block list: all but the update itself.\<close>

primrec listless :: "'a prog \<Rightarrow> bool" where
  "listless (Return a) \<longleftrightarrow> True"
| "listless (Lib c k) \<longleftrightarrow> (\<forall>rc. listless (k rc))"
| "listless (Block_list k) \<longleftrightarrow> False"
| "listless (Has_session k) \<longleftrightarrow> (\<forall>b. listless (k b))"
| "listless (Has_type k) \<longleftrightarrow> (\<forall>b. listless (k b))"
| "listless (Put_type b k) \<longleftrightarrow> listless k"
| "listless Fault \<longleftrightarrow> True"

lemma helper_progs_listless:
  assumes "ps = session_programs \<or> ps = api_programs"
  shows "listless (create_prog ps n)" "listless (add_prog ps n x)" "listless (destroy_prog ps n)"
    "listless (activate_prog ps n p)"
  using assms
  by (auto simp: session_programs_def api_programs_def session_create_prog_def session_add_prog_def
      session_destroy_prog_def session_activate_prog_def session_rename_prog_def forced_destroy_prog_def)

text \<open>
  A thread inside an update: how its state is written, and what its steps do. Both threads are
  instances.
\<close>

locale updating_thread =
  fixes ps :: ipset_programs and lib :: ipset_library and dblib :: db_library and cf :: firewall_conf
    and goes :: "'x \<Rightarrow> firewalld_state \<Rightarrow> bool"
    and at_prog :: "'x \<Rightarrow> int option prog \<Rightarrow> ipset_helper \<Rightarrow> firewalld_state \<Rightarrow> firewalld_state"
  assumes prog_moves: "goes x s \<Longrightarrow> prog_step lib [] p h = Some (p', h') \<Longrightarrow> \<forall>k. p \<noteq> Block_list k \<Longrightarrow>
      firewalld_step ps lib dblib cf (at_prog x p h s) (at_prog x p' h' s)"
begin

lemma runs_part:
  assumes "goes x s" "listless p" "run_prog lib [] p h = Some (a, h')"
  shows "firewalld_reachable ps lib dblib cf (at_prog x (followed_by p f) h s) (at_prog x (f a) h' s)"
  using assms(2,3)
proof (induction p arbitrary: h)
  case (Lib c k)
  obtain rc h1 where c: "ipset_call lib c h = (rc, h1)" by fastforce
  have "firewalld_step ps lib dblib cf (at_prog x (followed_by (Lib c k) f) h s) (at_prog x (followed_by (k rc) f) h1 s)"
    by (rule prog_moves [OF assms(1)]) (simp_all add: c)
  moreover have "firewalld_reachable ps lib dblib cf (at_prog x (followed_by (k rc) f) h1 s) (at_prog x (f a) h' s)"
    by (rule Lib.IH) (use Lib.prems c in simp_all)
  ultimately show ?case by (rule converse_rtranclp_into_rtranclp)
next
  case (Has_session k)
  show ?case
    by (rule converse_rtranclp_into_rtranclp [OF prog_moves [OF assms(1)] Has_session.IH [of "k (session h)"]])
      (use Has_session.prems in simp_all)
next
  case (Has_type k)
  show ?case
    by (rule converse_rtranclp_into_rtranclp [OF prog_moves [OF assms(1)] Has_type.IH [of "k (set_type h)"]])
      (use Has_type.prems in simp_all)
next
  case (Put_type b k)
  show ?case
    by (rule converse_rtranclp_into_rtranclp [OF prog_moves [OF assms(1)] Put_type.IH])
      (use Put_type.prems in simp_all)
qed simp_all

lemma runs_list:
  assumes "goes x s" "\<And>n y. listless (add_prog ps n y)" "runs_as lib ps be"
    "add_entries (helper_add be n) ys h = Some (added, h')"
  shows "firewalld_reachable ps lib dblib cf (at_prog x (add_list ps n ys q) h s) (at_prog x q h' s)"
  using assms(4)
proof (induction ys arbitrary: h added)
  case (Cons y ys)
  show ?case
  proof (cases "y = []")
    case False
    with Cons.prems obtain rc h1 added1 where a: "helper_add be n y h = Some (rc, h1)"
      "add_entries (helper_add be n) ys h1 = Some (added1, h')"
      by (auto split: option.splits prod.splits)
    from a(1) assms(3) have "run_prog lib [] (add_prog ps n y) h = Some (rc, h1)" by (simp add: runs_as_def)
    from runs_part [OF assms(1,2) this, where f = "\<lambda>_. add_list ps n ys q"] Cons.IH [OF a(2)] False
    show ?thesis by (auto intro: rtranclp_trans)
  qed (use Cons in auto)
qed simp

text \<open>From the start of an update to its block list, and from there to its end.\<close>

lemma runs_to_list:
  assumes "goes x s" "ps = session_programs \<or> ps = api_programs" "runs_as lib ps be"
    "helper_create be (name_rebuild cf) (snd (helper_destroy be (name_rebuild cf) h)) = (rc, h1)"
  shows "firewalld_reachable ps lib dblib cf (at_prog x (update_prog ps cf) h s) (at_prog x (update_fill ps cf rc) h1 s)"
proof -
  note l = helper_progs_listless [OF assms(2)]
  have d: "run_prog lib [] (destroy_prog ps (name_rebuild cf)) h = Some (helper_destroy be (name_rebuild cf) h)"
    and c: "run_prog lib [] (create_prog ps (name_rebuild cf)) (snd (helper_destroy be (name_rebuild cf) h)) = Some (rc, h1)"
    using assms(3,4) by (simp_all add: runs_as_def)
  obtain r0 h0 where d0: "helper_destroy be (name_rebuild cf) h = (r0, h0)" by fastforce
  show ?thesis
    unfolding update_prog_def
    by (rule rtranclp_trans [OF runs_part [OF assms(1) l(3) d [unfolded d0]]
          runs_part [OF assms(1) l(1) c [unfolded d0 snd_conv]]])
qed

lemma runs_to_end:
  assumes "goes x s" "ps = session_programs \<or> ps = api_programs" "runs_as lib ps be"
    "add_entries (helper_add be (name_rebuild cf)) xs h1 = Some (added, h2)"
    "helper_activate be (name_rebuild cf) (name_prod cf) h2 = (rc, h3)"
  shows "firewalld_reachable ps lib dblib cf
    (at_prog x (add_list ps (name_rebuild cf) xs (activate_last ps cf)) h1 s) (at_prog x (Return (Some rc)) h3 s)"
proof -
  have "run_prog lib [] (activate_prog ps (name_rebuild cf) (name_prod cf)) h2 = Some (rc, h3)"
    using assms(3,5) by (simp add: runs_as_def)
  from runs_part [OF assms(1) helper_progs_listless(4) [OF assms(2)] this, where f = "\<lambda>rc. Return (Some rc)"]
  show ?thesis
    unfolding activate_last_def
    by (rule rtranclp_trans [OF runs_list [OF assms(1) helper_progs_listless(2) [OF assms(2)] assms(3,4)]])
qed

end

interpretation timer_updating: updating_thread ps lib dblib cf "\<lambda>_::unit. \<lambda>s. Timer_thread \<notin> in_handler s"
    "\<lambda>_ p h s. s\<lparr>helper := h, timer_pc := Ti_update p\<rparr>" for ps lib dblib cf
proof
  fix x :: unit and s :: firewalld_state and h h' and p p' :: "int option prog"
  assume "Timer_thread \<notin> in_handler s" "prog_step lib [] p h = Some (p', h')" "\<forall>k. p \<noteq> Block_list k"
  then show "firewalld_step ps lib dblib cf (s\<lparr>helper := h, timer_pc := Ti_update p\<rparr>) (s\<lparr>helper := h', timer_pc := Ti_update p'\<rparr>)"
    by (intro timer_moves [where fuel = 0 and now = 0]) (simp, cases p, auto simp: timer_thread_step_def)
qed

interpretation notify_updating: updating_thread ps lib dblib cf "\<lambda>_::db_enum option dbs. \<lambda>s. Notify_thread \<notin> in_handler s"
    "\<lambda>e p h s. s\<lparr>helper := h, notify_pc := Nt_update e p\<rparr>" for ps lib dblib cf
proof
  fix e and s :: firewalld_state and h h' and p p' :: "int option prog"
  assume "Notify_thread \<notin> in_handler s" "prog_step lib [] p h = Some (p', h')" "\<forall>k. p \<noteq> Block_list k"
  then show "firewalld_step ps lib dblib cf (s\<lparr>helper := h, notify_pc := Nt_update e p\<rparr>) (s\<lparr>helper := h', notify_pc := Nt_update e p'\<rparr>)"
    by (intro notify_moves [where fuel = 0 and now = 0 and e = e]) (simp, cases p, auto simp: notify_thread_step_def)
qed

text \<open>The part of the state the handlers work on.\<close>

definition with_update :: "firewall_state \<Rightarrow> firewalld_state \<Rightarrow> firewalld_state" where
  "with_update u s =
     s\<lparr>the_db := the_db u, helper := helper u, timer_abstime := timer_abstime u, timer_broadcasts := timer_broadcasts u\<rparr>"

lemma truncate_simps [simp]:
  "helper (firewall_state.truncate s) = helper s" "the_db (firewall_state.truncate s) = the_db s"
  "timer_abstime (firewall_state.truncate s) = timer_abstime s"
  "timer_broadcasts (firewall_state.truncate s) = timer_broadcasts s"
  by (simp_all add: firewall_state.truncate_def)

text \<open>An update that returned has read the block list, unless it could not create the set.\<close>

lemma update_loop_read:
  "update_loop fuel next_op add e h = Some r \<Longrightarrow> \<exists>xs e'. collect fuel next_op e = Some (xs, e')"
proof (induction fuel arbitrary: e h r)
  case (Suc fuel)
  obtain r1 e1 where n: "next_op e = (r1, e1)" by fastforce
  show ?case
  proof (cases r1)
    case (Some x)
    obtain h' r' where "update_loop fuel next_op add e1 h' = Some r'"
    proof (cases "x = []")
      case True
      with Suc.prems n Some show thesis by (intro that [of h r]) simp
    next
      case False
      with Suc.prems n Some obtain rc h1 where "add x h = Some (rc, h1)"
        by (cases "add x h") auto
      with Suc.prems n Some False show thesis
        by (cases "update_loop fuel next_op add e1 h1") (auto intro: that)
    qed
    from Suc.IH [OF this] n Some show ?thesis by auto
  qed (use n in simp)
qed simp

text \<open>A turn of the timer thread that is not disturbed.\<close>

lemma timer_turn_steps:
  assumes "ps = session_programs \<or> ps = api_programs" "runs_as lib ps be"
    "timer_turn fuel be dblib cf ETIMEDOUT now (firewall_state.truncate s) = Some u"
    "timer_pc s = Ti_woken ETIMEDOUT" "Timer_thread \<notin> in_handler s"
  shows "firewalld_reachable ps lib dblib cf s ((with_update u s)\<lparr>timer_pc := Ti_check, updates := updates s + 1\<rparr>)"
proof -
  let ?s = "s\<lparr>updates := updates s + 1\<rparr>"
  note ti = timer_updating.runs_to_list [where ps = ps, OF _ assms(1,2), of ?s cf] timer_updating.runs_to_end [where ps = ps, OF _ assms(1,2), of _ cf]
  have s: "s = s\<lparr>helper := helper s\<rparr>" by simp
  have start: "firewalld_step ps lib dblib cf s (?s\<lparr>helper := helper s, timer_pc := Ti_update (update_prog ps cf)\<rparr>)"
    by (rule timer_moves [where fuel = 0 and now = 0]) (use assms(4,5) in \<open>simp_all add: timer_thread_step_def\<close>)
  obtain rc h1 where c: "helper_create be (name_rebuild cf) (snd (helper_destroy be (name_rebuild cf) (helper s))) = (rc, h1)"
    by fastforce
  have fill: "firewalld_reachable ps lib dblib cf s (?s\<lparr>helper := h1, timer_pc := Ti_update (update_fill ps cf rc)\<rparr>)"
    by (rule converse_rtranclp_into_rtranclp [OF start ti(1) [OF _ c]]) (use assms(5) in simp)
  show ?thesis
  proof (cases "rc = 0")
    case False
    have "firewalld_step ps lib dblib cf (?s\<lparr>helper := h1, timer_pc := Ti_update (update_fill ps cf rc)\<rparr>)
        (?s\<lparr>helper := h1, timer_pc := Ti_check\<rparr>)"
      by (rule timer_moves [where fuel = 0 and now = 0])
        (use assms(5) False in \<open>simp_all add: timer_thread_step_def update_fill_def\<close>)
    with fill have "firewalld_reachable ps lib dblib cf s (?s\<lparr>helper := h1, timer_pc := Ti_check\<rparr>)"
      by (rule rtranclp.rtrancl_into_rtrancl)
    moreover have "u = (firewall_state.truncate s)\<lparr>helper := h1\<rparr>"
      using assms(3) c False by (simp add: timer_turn_def)
    then have "(with_update u s)\<lparr>timer_pc := Ti_check, updates := updates s + 1\<rparr> = ?s\<lparr>helper := h1, timer_pc := Ti_check\<rparr>"
      by (intro firewalld_state.equality) (simp_all add: with_update_def)
    ultimately show ?thesis by (simp only:)
  next
    case True
    then obtain w h2 where f: "timer_fill fuel be dblib cf (the_db s) h1 = Some (w, h2)"
      using assms(3) c by (auto simp: timer_turn_def split: option.splits)
    then have "\<exists>xs w. blocklist_read fuel dblib (the_db s) = Some (xs, w)"
      by (auto simp: timer_fill_def blocklist_read_def split: prod.splits option.splits dest: update_loop_read)
    then obtain xs w where r: "blocklist_read fuel dblib (the_db s) = Some (xs, w)" by blast
    have t: "Some u = map_option (\<lambda>(r, h). if r = None then (firewall_state.truncate s)\<lparr>helper := h\<rparr>
        else reset_timer now cf ((firewall_state.truncate s)\<lparr>the_db := w, helper := h\<rparr>))
      (firewall_rebuild be cf xs (helper s))"
      using timer_turn_rebuild [of fuel dblib "firewall_state.truncate s" xs w be cf now] r assms(3) by simp
    obtain added h2 rc3 h3 where a: "add_entries (helper_add be (name_rebuild cf)) xs h1 = Some (added, h2)"
      "helper_activate be (name_rebuild cf) (name_prod cf) h2 = (rc3, h3)"
      using t c True by (auto simp: firewall_rebuild_def split: option.splits prod.splits)
    have u: "u = reset_timer now cf ((firewall_state.truncate s)\<lparr>the_db := w, helper := h3\<rparr>)"
      using t a c True by (simp add: firewall_rebuild_def)
    let ?w = "?s\<lparr>the_db := w\<rparr>"
    have "firewalld_step ps lib dblib cf (?s\<lparr>helper := h1, timer_pc := Ti_update (update_fill ps cf rc)\<rparr>)
        (?w\<lparr>helper := h1, timer_pc := Ti_update (add_list ps (name_rebuild cf) xs (activate_last ps cf))\<rparr>)"
      by (rule timer_moves [where fuel = fuel and now = 0])
        (use assms(5) True r in \<open>simp_all add: timer_thread_step_def update_fill_def\<close>)
    moreover have "firewalld_reachable ps lib dblib cf
        (?w\<lparr>helper := h1, timer_pc := Ti_update (add_list ps (name_rebuild cf) xs (activate_last ps cf))\<rparr>)
        (?w\<lparr>helper := h3, timer_pc := Ti_update (Return (Some rc3))\<rparr>)"
      by (rule ti(2) [OF _ a]) (use assms(5) in simp)
    moreover have "firewalld_step ps lib dblib cf (?w\<lparr>helper := h3, timer_pc := Ti_update (Return (Some rc3))\<rparr>)
        ((reset_timer now cf (?w\<lparr>helper := h3\<rparr>))\<lparr>timer_pc := Ti_check\<rparr>)"
      by (rule timer_moves [where fuel = 0 and now = now])
        (use assms(5) in \<open>simp_all add: timer_thread_step_def reset_timer_def\<close>)
    ultimately have "firewalld_reachable ps lib dblib cf s ((reset_timer now cf (?w\<lparr>helper := h3\<rparr>))\<lparr>timer_pc := Ti_check\<rparr>)"
      using fill by (meson rtranclp.rtrancl_into_rtrancl rtranclp_trans)
    moreover have "(with_update u s)\<lparr>timer_pc := Ti_check, updates := updates s + 1\<rparr> =
        (reset_timer now cf (?w\<lparr>helper := h3\<rparr>))\<lparr>timer_pc := Ti_check\<rparr>"
      unfolding u by (intro firewalld_state.equality) (simp_all add: with_update_def reset_timer_def)
    ultimately show ?thesis by (simp only:)
  qed
qed

lemma firewall_notify_steps:
  assumes "ps = session_programs \<or> ps = api_programs" "runs_as lib ps be"
    "firewall_notify fuel be dblib cf 0 now e (firewall_state.truncate s) = Some (e', u)"
    "notify_pc s = Nt_idle" "registered s" "Notify_thread \<notin> in_handler s" "timer_mutex_free s"
  shows "firewalld_reachable ps lib dblib cf s
    (if timer_broadcasts u = timer_broadcasts s then with_update u s else wake_timer (with_update u s))"
proof -
  note ni = notify_updating.runs_to_list [where ps = ps, OF _ assms(1,2), of s cf]
    notify_updating.runs_to_end [where ps = ps, OF _ assms(1,2), of s cf]
  note mv = notify_moves [where ps = ps and lib = lib and dblib = dblib and cf = cf]
  have start: "firewalld_step ps lib dblib cf s (s\<lparr>helper := helper s, notify_pc := Nt_update e (update_prog ps cf)\<rparr>)"
    by (rule mv [where fuel = 0 and now = 0 and e = e]) (use assms(4-6) in \<open>simp_all add: notify_thread_step_def\<close>)
  obtain rc h1 where c: "helper_create be (name_rebuild cf) (snd (helper_destroy be (name_rebuild cf) (helper s))) = (rc, h1)"
    by fastforce
  have fill: "firewalld_reachable ps lib dblib cf s (s\<lparr>helper := h1, notify_pc := Nt_update e (update_fill ps cf rc)\<rparr>)"
    by (rule converse_rtranclp_into_rtranclp [OF start ni(1) [OF _ c]]) (use assms(6) in simp)
  show ?thesis
  proof (cases "rc = 0")
    case False
    have "firewalld_step ps lib dblib cf (s\<lparr>helper := h1, notify_pc := Nt_update e (update_fill ps cf rc)\<rparr>)
        (s\<lparr>helper := h1, notify_pc := Nt_idle\<rparr>)"
      by (rule mv [where fuel = 0 and now = 0 and e = e])
        (use assms(6) False in \<open>simp_all add: notify_thread_step_def update_fill_def\<close>)
    with fill have "firewalld_reachable ps lib dblib cf s (s\<lparr>helper := h1, notify_pc := Nt_idle\<rparr>)"
      by (rule rtranclp.rtrancl_into_rtrancl)
    moreover have u: "u = (firewall_state.truncate s)\<lparr>helper := h1\<rparr>"
      using assms(3) c False by (simp add: firewall_notify_def)
    then have "with_update u s = s\<lparr>helper := h1, notify_pc := Nt_idle\<rparr>"
      using assms(4) by (intro firewalld_state.equality) (simp_all add: with_update_def)
    ultimately show ?thesis using u by simp
  next
    case True
    then have "\<exists>xs e'. notify_read fuel dblib e = Some (xs, e')"
      using assms(3) c
      by (auto simp: firewall_notify_def notify_fill_def notify_read_def split: option.splits if_splits dest: update_loop_read)
    then obtain xs e2 where r: "notify_read fuel dblib e = Some (xs, e2)" by blast
    obtain added h2 rc3 h3 where a: "add_entries (helper_add be (name_rebuild cf)) xs h1 = Some (added, h2)"
      "helper_activate be (name_rebuild cf) (name_prod cf) h2 = (rc3, h3)"
      using firewall_notify_rebuild [OF r, of be cf 0 now "firewall_state.truncate s"] assms(3) c True
      by (auto simp: firewall_rebuild_def split: option.splits prod.splits)
    let ?t = "(firewall_state.truncate s)\<lparr>helper := h3\<rparr>"
    have u: "u = (if rc3 = 0 then (reset_timer now cf ?t)\<lparr>timer_broadcasts := timer_broadcasts s + 1\<rparr> else ?t)"
      using firewall_notify_rebuild [OF r, of be cf 0 now "firewall_state.truncate s"] assms(3) a c True
      by (simp add: firewall_rebuild_def Let_def)
    have "firewalld_step ps lib dblib cf (s\<lparr>helper := h1, notify_pc := Nt_update e (update_fill ps cf rc)\<rparr>)
        (s\<lparr>helper := h1, notify_pc := Nt_update e2 (add_list ps (name_rebuild cf) xs (activate_last ps cf))\<rparr>)"
      by (rule mv [where fuel = fuel and now = 0 and e = e])
        (use assms(6) True r in \<open>simp_all add: notify_thread_step_def update_fill_def\<close>)
    moreover have "firewalld_reachable ps lib dblib cf
        (s\<lparr>helper := h1, notify_pc := Nt_update e2 (add_list ps (name_rebuild cf) xs (activate_last ps cf))\<rparr>)
        (s\<lparr>helper := h3, notify_pc := Nt_update e2 (Return (Some rc3))\<rparr>)"
      by (rule ni(2) [OF _ a]) (use assms(6) in simp)
    moreover have "firewalld_step ps lib dblib cf (s\<lparr>helper := h3, notify_pc := Nt_update e2 (Return (Some rc3))\<rparr>)
        (s\<lparr>helper := h3, notify_pc := (if rc3 = 0 then Nt_lock else Nt_idle)\<rparr>)"
      by (rule mv [where fuel = 0 and now = 0 and e = e]) (use assms(6) in \<open>simp_all add: notify_thread_step_def\<close>)
    ultimately have ended: "firewalld_reachable ps lib dblib cf s
        (s\<lparr>helper := h3, notify_pc := (if rc3 = 0 then Nt_lock else Nt_idle)\<rparr>)"
      using fill by (meson rtranclp.rtrancl_into_rtrancl rtranclp_trans)
    show ?thesis
    proof (cases "rc3 = 0")
      case False
      moreover have "with_update u s = s\<lparr>helper := h3, notify_pc := Nt_idle\<rparr>"
        unfolding u using False assms(4) by (intro firewalld_state.equality) (simp_all add: with_update_def)
      moreover have "timer_broadcasts u = timer_broadcasts s" unfolding u using False by simp
      ultimately show ?thesis using ended by simp
    next
      case True
      let ?l = "s\<lparr>helper := h3, notify_pc := Nt_locked\<rparr>"
      have "firewalld_step ps lib dblib cf (s\<lparr>helper := h3, notify_pc := Nt_lock\<rparr>) ?l"
        by (rule mv [where fuel = 0 and now = 0 and e = e])
          (use assms(6,7) in \<open>simp_all add: notify_thread_step_def timer_mutex_free_def timer_holds_def\<close>)
      moreover have "firewalld_step ps lib dblib cf ?l (wake_timer
          ((reset_timer now cf ?l)\<lparr>notify_pc := Nt_idle, timer_broadcasts := timer_broadcasts s + 1\<rparr>))"
        by (rule mv [where fuel = 0 and now = now and e = e])
          (use assms(6) in \<open>simp_all add: notify_thread_step_def reset_timer_def\<close>)
      ultimately have "firewalld_reachable ps lib dblib cf s (wake_timer
          ((reset_timer now cf ?l)\<lparr>notify_pc := Nt_idle, timer_broadcasts := timer_broadcasts s + 1\<rparr>))"
        using ended True by (auto intro: rtranclp.rtrancl_into_rtrancl)
      moreover have "with_update u s =
          (reset_timer now cf ?l)\<lparr>notify_pc := Nt_idle, timer_broadcasts := timer_broadcasts s + 1\<rparr>"
        unfolding u using True assms(4)
        by (intro firewalld_state.equality) (simp_all add: with_update_def reset_timer_def)
      moreover have "timer_broadcasts u \<noteq> timer_broadcasts s" unfolding u using True by simp
      ultimately show ?thesis by simp
    qed
  qed
qed

text \<open>
  C12: The daemon's steps implement the two handlers. In either variant of the helper, a timer
  thread whose wait timed out can make, by its own steps, one turn as \<open>timer_turn\<close>
  computes it, and the notification thread one call of \<open>firewall_notify\<close>, with everything that belongs
  to the other threads as it was, but for the wakeup of a waiting timer thread.
\<close>

theorem firewalld_implements_handlers:
  assumes "ps = session_programs \<and> be = session_backend lib \<or> ps = api_programs \<and> be = api_backend lib"
  shows "(timer_pc s = Ti_woken ETIMEDOUT \<and> Timer_thread \<notin> in_handler s \<and>
      timer_turn fuel be dblib cf ETIMEDOUT now (firewall_state.truncate s) = Some u \<longrightarrow>
      firewalld_reachable ps lib dblib cf s ((with_update u s)\<lparr>timer_pc := Ti_check, updates := updates s + 1\<rparr>)) \<and>
    (notify_pc s = Nt_idle \<and> registered s \<and> Notify_thread \<notin> in_handler s \<and> timer_mutex_free s \<and>
      firewall_notify fuel be dblib cf 0 now e (firewall_state.truncate s) = Some (e', u) \<longrightarrow>
      firewalld_reachable ps lib dblib cf s
        (if timer_broadcasts u = timer_broadcasts s then with_update u s else wake_timer (with_update u s)))"
  using assms timer_turn_steps [of ps lib be] firewall_notify_steps [of ps lib be] session_runs [of lib] api_runs [of lib]
  by blast

theorem firewalld_implements_handlers_witness:
  "\<exists>t. firewalld_reachable session_programs (kernel_library blocked_one) pg_two_rows conf_ab
      ((firewalld_init firewall_sample True)\<lparr>timer_pc := Ti_woken ETIMEDOUT\<rparr>) t \<and>
    timer_pc t = Ti_check \<and> updates t = 1 \<and> timer_abstime t = 1300"
proof -
  let ?lib = "kernel_library blocked_one" and ?s = "(firewalld_init firewall_sample True)\<lparr>timer_pc := Ti_woken ETIMEDOUT\<rparr>"
  obtain w where w: "blocklist_read 3 pg_two_rows (the_db (firewall_state.truncate ?s)) = Some ([''10.0.0.1'', ''10.0.0.2''], w)"
    using pg_two_read by (auto simp: firewall_sample_def)
  obtain h where h: "firewall_rebuild (session_backend ?lib) conf_ab [''10.0.0.1'', ''10.0.0.2''] (helper ?s) =
      Some (Some ([''10.0.0.1'', ''10.0.0.2''], 0), h)"
    using rebuild_two by (auto simp: firewall_sample_def)
  let ?u = "reset_timer 1000 conf_ab ((firewall_state.truncate ?s)\<lparr>the_db := w, helper := h\<rparr>)"
  have "timer_turn 3 (session_backend ?lib) pg_two_rows conf_ab ETIMEDOUT 1000 (firewall_state.truncate ?s) = Some ?u"
    using timer_turn_rebuild [OF w, of "session_backend ?lib" conf_ab 1000] h by simp
  with firewalld_implements_handlers [where be = "session_backend ?lib" and ps = session_programs and s = ?s and u = ?u]
  have "firewalld_reachable session_programs ?lib pg_two_rows conf_ab ?s
      ((with_update ?u ?s)\<lparr>timer_pc := Ti_check, updates := updates ?s + 1\<rparr>)" by simp
  then show ?thesis
    by (intro exI [of _ "(with_update ?u ?s)\<lparr>timer_pc := Ti_check, updates := updates ?s + 1\<rparr>"])
      (simp add: with_update_def reset_timer_def conf_ab_def)
qed

end
