(* ===== verification/Firewalld_Shutdown.thy ===== *)
theory Firewalld_Shutdown
  imports Firewalld
begin

text \<open>
  The end of the firewall daemon's threads: what a shutdown still allows the timer thread to do,
  when both threads can end, and the signal that keeps them from it.
\<close>

section \<open>The shutdown\<close>

text \<open>
  The threads that can no longer move: the shutdown thread holds \<open>shutdown_mutex\<close> and was
  interrupted, or was woken and needs \<open>timer_mutex\<close> from a thread that was; the handler needs
  \<open>shutdown_mutex\<close>.
\<close>

definition deadlocked :: "firewalld_state \<Rightarrow> bool" where
  "deadlocked s \<longleftrightarrow> \<not> shutdown_mutex_free s \<and>
     (Shutdown_thread \<in> in_handler s \<or>
      shutdown_pc s \<noteq> Fs_locked \<and>
        (Timer_thread \<in> in_handler s \<and> timer_holds s \<or> Notify_thread \<in> in_handler s \<and> notify_pc s = Nt_locked))"

text \<open>How a step changes the program counters, thread by thread.\<close>

lemma timer_step_others:
  assumes "timer_thread_step fuel ps lib dblib cf now s = Some t"
  shows "shutdown_pc t = shutdown_pc s" "notify_pc t = notify_pc s" "in_handler t = in_handler s"
    "daemon_running t = daemon_running s"
  using assms
  by (auto simp: timer_thread_step_def split: timer_pc.splits prog.splits option.splits if_splits)

lemma notify_step_others:
  assumes "notify_thread_step fuel ps lib dblib cf now e s = Some t"
  shows "shutdown_pc t = shutdown_pc s" "in_handler t = in_handler s" "daemon_running t = daemon_running s"
    "updates t = updates s" "timer_pc t = timer_pc s \<or> timer_pc s = Ti_wait \<and> timer_pc t = Ti_awake 0"
  using assms
  by (auto simp: notify_thread_step_def split: notify_pc.splits prog.splits option.splits if_splits)

lemma shutdown_step_others:
  assumes "firewalld_shutdown_step s = Some t"
  shows "notify_pc t = notify_pc s" "in_handler t = in_handler s" "updates t = updates s"
    "timer_pc t = timer_pc s \<or> timer_pc s = Ti_wait \<and> timer_pc t = Ti_awake 0"
    "daemon_running t = (daemon_running s \<and> shutdown_pc s \<noteq> Fs_woken)"
  using assms by (auto simp: firewalld_shutdown_step_def split: firewalld_sh_pc.splits if_splits)

lemma handler_step_others:
  assumes "firewalld_handle_termination th s = Some t"
  shows "timer_pc t = timer_pc s" "notify_pc t = notify_pc s" "in_handler t = in_handler s - {th}"
    "updates t = updates s" "daemon_running t = daemon_running s" "shutdown_mutex_free s"
    "shutdown_pc t = (if shutdown_pc s = Fs_wait then Fs_awake else shutdown_pc s)"
  using assms by (auto simp: firewalld_handle_termination_def split: if_splits)

lemma notify_step_holds:
  "notify_thread_step fuel ps lib dblib cf now e s = Some t \<Longrightarrow> timer_holds t \<longleftrightarrow> timer_holds s"
  using notify_step_others(5) [of fuel ps lib dblib cf now e s t] by (auto simp: timer_holds_def)

lemma timer_step_holds:
  assumes "timer_thread_step fuel ps lib dblib cf now s = Some t" "timer_holds t" "\<not> timer_holds s"
  shows "notify_pc s \<noteq> Nt_locked"
  using assms
  by (cases "timer_pc s") (auto simp: timer_thread_step_def timer_holds_def timer_mutex_free_def split: if_splits)

lemma deadlocked_step:
  assumes "firewalld_step ps lib dblib cf s t" "deadlocked s"
  shows "deadlocked t"
  using assms(1)
proof cases
  case (timer_moves fuel now)
  with timer_step_others [OF timer_moves(2)] assms(2) show ?thesis
    by (auto simp: deadlocked_def shutdown_mutex_free_def)
next
  case (notify_moves fuel now e)
  with notify_step_others(1,2) [OF notify_moves(2)] notify_step_holds [OF notify_moves(2)] assms(2) show ?thesis
    by (simp add: deadlocked_def shutdown_mutex_free_def)
next
  case shutdown_moves
  have pc: "shutdown_pc s = Fs_woken \<and> shutdown_pc t = Fs_wake_timer"
    using shutdown_moves assms(2)
    by (cases "shutdown_pc s")
      (auto simp: deadlocked_def shutdown_mutex_free_def firewalld_shutdown_step_def timer_mutex_free_def split: if_splits)
  then have "timer_pc t = timer_pc s"
    using shutdown_moves(2) by (auto simp: firewalld_shutdown_step_def)
  with pc shutdown_step_others [OF shutdown_moves(2)] assms(2) show ?thesis
    by (simp add: deadlocked_def shutdown_mutex_free_def timer_holds_def)
next
  case (handler_moves th)
  with handler_step_others [OF handler_moves] assms(2) show ?thesis by (simp add: deadlocked_def)
qed (use assms(2) in \<open>auto simp: deadlocked_def shutdown_mutex_free_def timer_holds_def\<close>)

text \<open>What holds of the program counters in every reachable state.\<close>

definition pcs_ok :: "firewalld_state \<Rightarrow> bool" where
  "pcs_ok s \<longleftrightarrow>
     (daemon_running s \<longleftrightarrow> shutdown_pc s \<in> {Fs_start, Fs_locked, Fs_wait, Fs_awake, Fs_woken}) \<and>
     \<not> (timer_holds s \<and> notify_pc s = Nt_locked)"

lemma pcs_ok_step:
  assumes "firewalld_step ps lib dblib cf s t" "pcs_ok s"
  shows "pcs_ok t"
  using assms(1)
proof cases
  case (timer_moves fuel now)
  with timer_step_others [OF timer_moves(2)] timer_step_holds [OF timer_moves(2)] assms(2) show ?thesis
    unfolding pcs_ok_def by metis
next
  case (notify_moves fuel now e)
  have "notify_pc t = Nt_locked \<Longrightarrow> \<not> timer_holds s"
    using notify_moves(2)
    by (cases "notify_pc s") (auto simp: notify_thread_step_def timer_mutex_free_def split: prog.splits option.splits if_splits)
  then show ?thesis
    using notify_step_others(1,3) [OF notify_moves(2)] notify_step_holds [OF notify_moves(2)] assms(2)
    unfolding pcs_ok_def by metis
next
  case shutdown_moves
  have "timer_holds t \<longleftrightarrow> timer_holds s"
    using shutdown_step_others(4) [OF shutdown_moves(2)] by (auto simp: timer_holds_def)
  moreover have "daemon_running t \<longleftrightarrow> shutdown_pc t \<in> {Fs_start, Fs_locked, Fs_wait, Fs_awake, Fs_woken}"
    using shutdown_moves(2) assms(2)
    by (cases "shutdown_pc s") (auto simp: firewalld_shutdown_step_def pcs_ok_def split: if_splits)
  ultimately show ?thesis
    using shutdown_step_others(1) [OF shutdown_moves(2)] assms(2) by (simp add: pcs_ok_def)
next
  case (handler_moves th)
  with handler_step_others [OF handler_moves] assms(2) show ?thesis by (simp add: pcs_ok_def timer_holds_def)
qed (use assms(2) in \<open>auto simp: pcs_ok_def timer_holds_def\<close>)

lemma pcs_ok_reachable: "firewalld_reachable ps lib dblib cf (firewalld_init s0 reg) s \<Longrightarrow> pcs_ok s"
proof (erule reachable_keeps)
  show "pcs_ok (firewalld_init s0 reg)" by (simp add: pcs_ok_def timer_holds_def)
qed (rule pcs_ok_step)

text \<open>
  After the shutdown thread cleared \<open>is_running\<close> the timer thread can start one more update, when
  it is past its check already.
\<close>

definition updates_left :: "timer_pc \<Rightarrow> nat" where
  "updates_left pc =
     (case pc of Ti_check \<Rightarrow> 0 | Ti_update _ \<Rightarrow> 0 | Ti_done \<Rightarrow> 0
      | Ti_awake rc \<Rightarrow> (if rc = ETIMEDOUT then 1 else 0) | Ti_woken rc \<Rightarrow> (if rc = ETIMEDOUT then 1 else 0) | _ \<Rightarrow> 1)"

lemma stopping_step:
  assumes "firewalld_step ps lib dblib cf s t" "\<not> daemon_running s"
  shows "\<not> daemon_running t \<and> updates t + updates_left (timer_pc t) \<le> updates s + updates_left (timer_pc s)"
  using assms(1)
proof cases
  case (timer_moves fuel now)
  with assms(2) show ?thesis
    by (cases "timer_pc s") (auto simp: timer_thread_step_def updates_left_def split: prog.splits option.splits if_splits)
next
  case (notify_moves fuel now e)
  with notify_step_others [OF notify_moves(2)] assms(2) show ?thesis by (auto simp: updates_left_def)
next
  case shutdown_moves
  with shutdown_step_others [OF shutdown_moves(2)] assms(2) show ?thesis by (auto simp: updates_left_def)
next
  case (handler_moves th)
  with handler_step_others [OF handler_moves] assms(2) show ?thesis by simp
qed (use assms(2) in \<open>auto simp: updates_left_def\<close>)

text \<open>The timer thread on its own.\<close>

definition timer_only ::
  "ipset_programs \<Rightarrow> ipset_library \<Rightarrow> db_library \<Rightarrow> firewall_conf \<Rightarrow> firewalld_state \<Rightarrow> firewalld_state \<Rightarrow> bool" where
  "timer_only ps lib dblib cf s t \<longleftrightarrow>
     Timer_thread \<notin> in_handler s \<and> (\<exists>fuel now. timer_thread_step fuel ps lib dblib cf now s = Some t)"

lemma timer_run:
  assumes "(timer_only ps lib dblib cf)\<^sup>*\<^sup>* s t"
  shows "firewalld_reachable ps lib dblib cf s t \<and> shutdown_pc t = shutdown_pc s \<and> notify_pc t = notify_pc s \<and>
    in_handler t = in_handler s \<and> daemon_running t = daemon_running s"
  using assms
proof induction
  case (step t u)
  then obtain fuel now where st: "Timer_thread \<notin> in_handler t" "timer_thread_step fuel ps lib dblib cf now t = Some u"
    by (auto simp: timer_only_def)
  have "firewalld_step ps lib dblib cf t u" by (rule timer_moves [OF st])
  with step.IH timer_step_others [OF st(2)] show ?case by (auto intro: rtranclp.rtrancl_into_rtrancl)
qed simp

text \<open>Every update ends when it makes no access through NULL and the block list can be read.\<close>

definition returns ::
  "ipset_programs \<Rightarrow> ipset_library \<Rightarrow> db_library \<Rightarrow> firewall_conf \<Rightarrow> firewalld_state \<Rightarrow> bool" where
  "returns ps lib dblib cf s \<longleftrightarrow> (\<forall>u. firewalld_reachable ps lib dblib cf s u \<longrightarrow>
     timer_pc u \<noteq> Ti_update Fault \<and> (\<exists>fuel. blocklist_read fuel dblib (the_db u) \<noteq> None))"

lemma returns_later: "returns ps lib dblib cf s \<Longrightarrow> firewalld_reachable ps lib dblib cf s t \<Longrightarrow> returns ps lib dblib cf t"
  unfolding returns_def by (blast intro: rtranclp_trans)

lemma then_ends:
  assumes "timer_thread_step fuel ps lib dblib cf now s = Some t" "Timer_thread \<notin> in_handler s" "returns ps lib dblib cf s"
    "Timer_thread \<notin> in_handler t \<Longrightarrow> returns ps lib dblib cf t \<Longrightarrow>
      \<exists>u. (timer_only ps lib dblib cf)\<^sup>*\<^sup>* t u \<and> timer_pc u = Ti_check"
  shows "\<exists>u. (timer_only ps lib dblib cf)\<^sup>*\<^sup>* s u \<and> timer_pc u = Ti_check"
proof -
  have st: "timer_only ps lib dblib cf s t" using assms(1,2) by (auto simp: timer_only_def)
  then have r: "(timer_only ps lib dblib cf)\<^sup>*\<^sup>* s t" by (rule r_into_rtranclp)
  have "\<exists>u. (timer_only ps lib dblib cf)\<^sup>*\<^sup>* t u \<and> timer_pc u = Ti_check"
    by (rule assms(4)) (use timer_run [OF r] assms(2) returns_later [OF assms(3)] in auto)
  with st show ?thesis by (blast intro: converse_rtranclp_into_rtranclp)
qed

lemma update_ends:
  assumes "timer_pc s = Ti_update p" "Timer_thread \<notin> in_handler s" "returns ps lib dblib cf s"
  shows "\<exists>t. (timer_only ps lib dblib cf)\<^sup>*\<^sup>* s t \<and> timer_pc t = Ti_check"
  using assms
proof (induction p arbitrary: s)
  case (Return r)
  obtain t where t: "timer_thread_step 0 ps lib dblib cf 0 s = Some t" "timer_pc t = Ti_check"
    using Return.prems(1) by (cases r) (auto simp: timer_thread_step_def)
  show ?case by (rule then_ends [OF t(1) Return.prems(2,3)]) (use t(2) in blast)
next
  case (Lib c k)
  obtain rc h where c: "ipset_call lib c (helper s) = (rc, h)" by fastforce
  show ?case
    by (rule then_ends [where fuel = 0 and now = 0, OF _ Lib.prems(2,3)])
      (simp add: timer_thread_step_def Lib.prems(1) c, rule Lib.IH [of "k rc"], simp_all)
next
  case (Block_list k)
  obtain fuel xs w where r: "blocklist_read fuel dblib (the_db s) = Some (xs, w)"
    using Block_list.prems(3) unfolding returns_def by fastforce
  show ?case
    by (rule then_ends [where fuel = fuel and now = 0, OF _ Block_list.prems(2,3)])
      (simp add: timer_thread_step_def Block_list.prems(1) r, rule Block_list.IH [of "k xs"], simp_all)
next
  case (Has_session k)
  show ?case
    by (rule then_ends [where fuel = 0 and now = 0, OF _ Has_session.prems(2,3)])
      (simp add: timer_thread_step_def Has_session.prems(1), rule Has_session.IH [OF rangeI], simp_all)
next
  case (Has_type k)
  show ?case
    by (rule then_ends [where fuel = 0 and now = 0, OF _ Has_type.prems(2,3)])
      (simp add: timer_thread_step_def Has_type.prems(1), rule Has_type.IH [OF rangeI], simp_all)
next
  case (Put_type b k)
  show ?case
    by (rule then_ends [where fuel = 0 and now = 0, OF _ Put_type.prems(2,3)])
      (simp add: timer_thread_step_def Put_type.prems(1), rule Put_type.IH, simp_all)
next
  case Fault
  then show ?case by (auto simp: returns_def)
qed

text \<open>From wherever it is, once \<open>is_running\<close> is false and nothing keeps the locks from it.\<close>

definition free_to_stop ::
  "ipset_programs \<Rightarrow> ipset_library \<Rightarrow> db_library \<Rightarrow> firewall_conf \<Rightarrow> firewalld_state \<Rightarrow> bool" where
  "free_to_stop ps lib dblib cf s \<longleftrightarrow> \<not> daemon_running s \<and> Timer_thread \<notin> in_handler s \<and> notify_pc s \<noteq> Nt_locked \<and>
     returns ps lib dblib cf s"

definition can_stop ::
  "ipset_programs \<Rightarrow> ipset_library \<Rightarrow> db_library \<Rightarrow> firewall_conf \<Rightarrow> firewalld_state \<Rightarrow> bool" where
  "can_stop ps lib dblib cf s \<longleftrightarrow>
     (\<exists>t. firewalld_reachable ps lib dblib cf s t \<and> timer_pc t = Ti_done \<and> shutdown_pc t = shutdown_pc s)"

lemma can_stop_run:
  assumes "(timer_only ps lib dblib cf)\<^sup>*\<^sup>* s t" "free_to_stop ps lib dblib cf s"
    "free_to_stop ps lib dblib cf t \<Longrightarrow> can_stop ps lib dblib cf t"
  shows "can_stop ps lib dblib cf s"
proof -
  note r = timer_run [OF assms(1)]
  have "can_stop ps lib dblib cf t"
    by (rule assms(3)) (use r assms(2) in \<open>auto simp: free_to_stop_def intro: returns_later\<close>)
  with r show ?thesis unfolding can_stop_def by (metis rtranclp_trans)
qed

lemma can_stop_moves:
  assumes "free_to_stop ps lib dblib cf s" "timer_thread_step 0 ps lib dblib cf 0 s = Some t"
    "free_to_stop ps lib dblib cf t \<Longrightarrow> can_stop ps lib dblib cf t"
  shows "can_stop ps lib dblib cf s"
  by (rule can_stop_run [OF r_into_rtranclp assms(1,3)])
    (use assms(1,2) in \<open>auto simp: timer_only_def free_to_stop_def\<close>)

lemma stops_done: "timer_pc s = Ti_done \<Longrightarrow> can_stop ps lib dblib cf s"
  unfolding can_stop_def by (intro exI [of _ s]) simp

lemma stops_check: "free_to_stop ps lib dblib cf s \<Longrightarrow> timer_pc s = Ti_check \<Longrightarrow> can_stop ps lib dblib cf s"
  by (rule can_stop_moves [where t = "s\<lparr>timer_pc := Ti_done\<rparr>"])
    (auto simp: timer_thread_step_def free_to_stop_def intro: stops_done)

lemma stops_update:
  assumes "free_to_stop ps lib dblib cf s" "timer_pc s = Ti_update p"
  shows "can_stop ps lib dblib cf s"
proof -
  obtain t where t: "(timer_only ps lib dblib cf)\<^sup>*\<^sup>* s t" "timer_pc t = Ti_check"
    using update_ends [OF assms(2), of ps lib dblib cf] assms(1) unfolding free_to_stop_def by blast
  show ?thesis by (rule can_stop_run [OF t(1) assms(1) stops_check [OF _ t(2)]])
qed

lemma stops_woken:
  assumes "free_to_stop ps lib dblib cf s" "timer_pc s = Ti_woken rc"
  shows "can_stop ps lib dblib cf s"
proof (cases "rc = ETIMEDOUT")
  case True
  let ?t = "s\<lparr>timer_pc := Ti_update (update_prog ps cf), updates := updates s + 1\<rparr>"
  show ?thesis
    by (rule can_stop_moves [OF assms(1), of ?t])
      (use assms(2) True in \<open>auto simp: timer_thread_step_def intro: stops_update [where p = "update_prog ps cf"]\<close>)
next
  case False
  show ?thesis
    by (rule can_stop_moves [OF assms(1), of "s\<lparr>timer_pc := Ti_check\<rparr>"])
      (use assms(2) False in \<open>auto simp: timer_thread_step_def intro: stops_check\<close>)
qed

lemma stops_awake:
  assumes "free_to_stop ps lib dblib cf s" "timer_pc s = Ti_awake rc"
  shows "can_stop ps lib dblib cf s"
  by (rule can_stop_moves [OF assms(1), of "s\<lparr>timer_pc := Ti_woken rc\<rparr>"])
    (use assms in \<open>auto simp: timer_thread_step_def timer_mutex_free_def timer_holds_def free_to_stop_def [of _ _ _ _ s]
      intro: stops_woken [where rc = rc]\<close>)

lemma stops_wait:
  assumes "free_to_stop ps lib dblib cf s" "timer_pc s = Ti_wait"
  shows "can_stop ps lib dblib cf s"
proof -
  let ?t = "s\<lparr>timer_pc := Ti_awake 0\<rparr>"
  have st: "firewalld_step ps lib dblib cf s ?t" by (rule spurious_timer) (rule assms(2))
  have "free_to_stop ps lib dblib cf ?t"
    using assms(1) returns_later [of ps lib dblib cf s ?t] st by (auto simp: free_to_stop_def)
  then have "can_stop ps lib dblib cf ?t" by (rule stops_awake) simp
  with st show ?thesis by (auto simp: can_stop_def intro: converse_rtranclp_into_rtranclp)
qed

lemma timer_can_stop:
  assumes "free_to_stop ps lib dblib cf s"
  shows "can_stop ps lib dblib cf s"
proof (cases "timer_pc s")
  case Ti_lock
  show ?thesis
    by (rule can_stop_moves [OF assms, of "s\<lparr>timer_pc := Ti_wait\<rparr>"])
      (use assms Ti_lock in \<open>auto simp: timer_thread_step_def timer_mutex_free_def timer_holds_def free_to_stop_def [of _ _ _ _ s]
        intro: stops_wait\<close>)
qed (rule stops_check [OF assms] stops_wait [OF assms] stops_awake [OF assms] stops_woken [OF assms]
    stops_update [OF assms] stops_done, assumption)+

text \<open>
  The shutdown thread gets through when it is not deadlocked: a thread that holds the lock it needs
  can give it back.
\<close>

lemma shutdown_can_end:
  assumes "pcs_ok s" "\<not> daemon_running s" "\<not> deadlocked s" "returns ps lib dblib cf s"
  shows "\<exists>t. firewalld_reachable ps lib dblib cf s t \<and> shutdown_pc t = Fs_done"
proof (cases "shutdown_pc s = Fs_done")
  case False
  with assms(1,2) have pc: "shutdown_pc s = Fs_wake_timer" by (cases "shutdown_pc s") (auto simp: pcs_ok_def)
  with assms(3) have nd: "Shutdown_thread \<notin> in_handler s" "timer_holds s \<Longrightarrow> Timer_thread \<notin> in_handler s"
    "notify_pc s = Nt_locked \<Longrightarrow> Notify_thread \<notin> in_handler s"
    by (auto simp: deadlocked_def shutdown_mutex_free_def)
  have last: "\<exists>t. firewalld_reachable ps lib dblib cf s t \<and> shutdown_pc t = Fs_done"
    if u: "firewalld_reachable ps lib dblib cf s u" "timer_mutex_free u" "shutdown_pc u = Fs_wake_timer"
      "in_handler u = in_handler s" for u
  proof -
    have "firewalld_step ps lib dblib cf u (wake_timer (u\<lparr>shutdown_pc := Fs_done\<rparr>))"
      by (rule shutdown_moves) (use u nd(1) in \<open>simp_all add: firewalld_shutdown_step_def\<close>)
    with u(1) have "firewalld_reachable ps lib dblib cf s (wake_timer (u\<lparr>shutdown_pc := Fs_done\<rparr>))"
      by (rule rtranclp.rtrancl_into_rtrancl)
    then show ?thesis by (intro exI [of _ "wake_timer (u\<lparr>shutdown_pc := Fs_done\<rparr>)"]) simp
  qed
  show ?thesis
  proof (cases "timer_holds s")
    case True
    then have nl: "notify_pc s \<noteq> Nt_locked" and tn: "Timer_thread \<notin> in_handler s"
      using assms(1) nd(2) by (auto simp: pcs_ok_def)
    obtain u where u: "(timer_only ps lib dblib cf)\<^sup>*\<^sup>* s u" "timer_pc u = Ti_check"
    proof (cases "timer_pc s")
      case (Ti_update p)
      then show thesis using that update_ends [OF Ti_update tn assms(4)] by blast
    next
      case (Ti_woken rc)
      show thesis
      proof (cases "rc = ETIMEDOUT")
        case True
        then have "timer_thread_step 0 ps lib dblib cf 0 s =
            Some (s\<lparr>timer_pc := Ti_update (update_prog ps cf), updates := updates s + 1\<rparr>)"
          using Ti_woken by (simp add: timer_thread_step_def)
        then have "\<exists>u. (timer_only ps lib dblib cf)\<^sup>*\<^sup>* s u \<and> timer_pc u = Ti_check"
          by (rule then_ends [OF _ tn assms(4)]) (rule update_ends, simp_all)
        then show thesis using that by blast
      next
        case False
        then have "timer_thread_step 0 ps lib dblib cf 0 s = Some (s\<lparr>timer_pc := Ti_check\<rparr>)"
          using Ti_woken by (simp add: timer_thread_step_def)
        then have "timer_only ps lib dblib cf s (s\<lparr>timer_pc := Ti_check\<rparr>)" using tn by (auto simp: timer_only_def)
        then show thesis using that [of "s\<lparr>timer_pc := Ti_check\<rparr>"] by auto
      qed
    qed (use True in \<open>simp_all add: timer_holds_def\<close>)
    show ?thesis
      by (rule last [of u]) (use timer_run [OF u(1)] u(2) pc nl in \<open>simp_all add: timer_mutex_free_def timer_holds_def\<close>)
  next
    case th: False
    show ?thesis
    proof (cases "notify_pc s = Nt_locked")
      case True
      let ?u = "wake_timer ((reset_timer 0 cf s)\<lparr>notify_pc := Nt_idle, timer_broadcasts := timer_broadcasts s + 1\<rparr>)"
      have "firewalld_step ps lib dblib cf s ?u"
        by (rule notify_moves [where fuel = 0 and now = 0 and e = undefined])
          (use nd(3) True in \<open>simp_all add: notify_thread_step_def\<close>)
      then show ?thesis
        by (intro last [of ?u] r_into_rtranclp) (use pc th in \<open>simp_all add: timer_mutex_free_def timer_holds_def\<close>)
    qed (use last [of s] pc th in \<open>simp add: timer_mutex_free_def\<close>)
  qed
qed auto

lemma deadlocked_stays: "firewalld_reachable ps lib dblib cf s t \<Longrightarrow> deadlocked s \<Longrightarrow> deadlocked t"
  by (erule reachable_keeps) (auto intro: deadlocked_step)

lemma daemon_can_end:
  assumes "shutdown_pc s = Fs_done" "\<not> daemon_running s" "returns ps lib dblib cf s"
  shows "\<exists>t. firewalld_reachable ps lib dblib cf s t \<and> timer_pc t = Ti_done \<and> shutdown_pc t = Fs_done"
proof -
  let ?R = "firewalld_reachable ps lib dblib cf"
  let ?free = "\<lambda>th u. if th \<in> in_handler u then u\<lparr>in_handler := in_handler u - {th}\<rparr> else u"
  have free: "?R u (?free th u)" if "shutdown_pc u = Fs_done" for th u
    using that by (auto intro!: r_into_rtranclp handler_moves [where th = th]
        simp: firewalld_handle_termination_def shutdown_mutex_free_def wake_shutdown_def)
  let ?u = "?free Notify_thread (?free Timer_thread s)"
  have u: "?R s ?u" using free [of s Timer_thread] free [of "?free Timer_thread s" Notify_thread] assms(1)
    by (auto intro: rtranclp_trans)
  obtain v where v: "?R ?u v" "notify_pc v \<noteq> Nt_locked" "shutdown_pc v = Fs_done" "\<not> daemon_running v"
    "Timer_thread \<notin> in_handler v"
  proof (cases "notify_pc ?u = Nt_locked")
    case True
    let ?v = "wake_timer ((reset_timer 0 cf ?u)\<lparr>notify_pc := Nt_idle, timer_broadcasts := timer_broadcasts ?u + 1\<rparr>)"
    have "firewalld_step ps lib dblib cf ?u ?v"
      by (rule notify_moves [where fuel = 0 and now = 0 and e = undefined]) (use True in \<open>simp_all add: notify_thread_step_def\<close>)
    with assms(1,2) show thesis by (intro that [of ?v] r_into_rtranclp) simp_all
  qed (use assms(1,2) in \<open>intro that [of ?u], auto\<close>)
  have "free_to_stop ps lib dblib cf v"
    using v returns_later [OF assms(3) rtranclp_trans [OF u v(1)]] by (simp add: free_to_stop_def)
  from timer_can_stop [OF this] v(3) rtranclp_trans [OF u v(1)] show ?thesis
    unfolding can_stop_def by (auto intro: rtranclp_trans)
qed


text \<open>
  C18: A signal can hang the daemon. The first one does when it is delivered to the shutdown
  thread just before that waits; and while the shutdown thread works on a signal, a further
  one does that is delivered to that thread, or to the timer thread during an update. The
  daemon never leaves the state it is in: the handler waits for \<open>shutdown_mutex\<close>, whose owner is
  interrupted itself or waits for \<open>timer_mutex\<close>, which the interrupted update holds.
\<close>

theorem firewalld_signal_deadlock:
  assumes "shutdown_pc s \<in> {Fs_locked, Fs_woken, Fs_wake_timer}"
    "th = Shutdown_thread \<or> th = Timer_thread \<and> timer_holds s \<and> shutdown_pc s \<noteq> Fs_locked"
  shows "\<exists>t. firewalld_step ps lib dblib cf s t \<and> t = s\<lparr>in_handler := insert th (in_handler s)\<rparr> \<and>
    (\<forall>u. firewalld_reachable ps lib dblib cf t u \<longrightarrow> shutdown_pc u \<noteq> Fs_done)"
proof -
  let ?t = "s\<lparr>in_handler := insert th (in_handler s)\<rparr>"
  have "thread_alive th s" using assms by (auto simp: thread_alive_def timer_holds_def)
  then have "firewalld_step ps lib dblib cf s ?t" by (rule termination_signal)
  moreover have "deadlocked ?t"
    using assms by (auto simp: deadlocked_def shutdown_mutex_free_def timer_holds_def)
  then have "shutdown_pc u \<noteq> Fs_done" if "firewalld_reachable ps lib dblib cf ?t u" for u
    using deadlocked_stays [OF that] by (auto simp: deadlocked_def [of u] shutdown_mutex_free_def)
  ultimately show ?thesis by blast
qed

text \<open>A run that gets there: an update has begun when the first signal arrives.\<close>

definition interrupted_run :: "firewalld_state \<Rightarrow> firewalld_state" where
  "interrupted_run s = s\<lparr>timer_pc := Ti_woken ETIMEDOUT, shutdown_pc := Fs_woken\<rparr>"

lemma interrupted_reachable:
  "firewalld_reachable ps lib dblib cf (firewalld_init s0 reg) (interrupted_run (firewalld_init s0 reg))"
proof -
  let ?i = "firewalld_init s0 reg" and ?step = "firewalld_step ps lib dblib cf"
  let ?w = "?i\<lparr>timer_pc := Ti_woken ETIMEDOUT\<rparr>"
  note mv = timer_moves [where ps = ps and lib = lib and dblib = dblib and cf = cf and fuel = 0 and now = 0]
  note sh = shutdown_moves [where ps = ps and lib = lib and dblib = dblib and cf = cf]
  have "?step ?i (?i\<lparr>timer_pc := Ti_lock\<rparr>)" by (rule mv) (simp_all add: timer_thread_step_def)
  moreover have "?step (?i\<lparr>timer_pc := Ti_lock\<rparr>) (?i\<lparr>timer_pc := Ti_wait\<rparr>)"
    by (rule mv) (simp_all add: timer_thread_step_def timer_mutex_free_def timer_holds_def)
  moreover have "?step (?i\<lparr>timer_pc := Ti_wait\<rparr>) ((?i\<lparr>timer_pc := Ti_wait\<rparr>)\<lparr>timer_pc := Ti_awake ETIMEDOUT\<rparr>)"
    by (rule timeout [where now = "timer_abstime ?i"]) simp_all
  moreover have "?step (?i\<lparr>timer_pc := Ti_awake ETIMEDOUT\<rparr>) (?i\<lparr>timer_pc := Ti_woken ETIMEDOUT\<rparr>)"
    by (rule mv) (simp_all add: timer_thread_step_def timer_mutex_free_def timer_holds_def)
  moreover have "?step ?w (?w\<lparr>shutdown_pc := Fs_locked\<rparr>)" by (rule sh) (simp_all add: firewalld_shutdown_step_def)
  moreover have "?step (?w\<lparr>shutdown_pc := Fs_locked\<rparr>) (?w\<lparr>shutdown_pc := Fs_wait\<rparr>)"
    by (rule sh) (simp_all add: firewalld_shutdown_step_def)
  moreover have "?step (?w\<lparr>shutdown_pc := Fs_wait\<rparr>) (?w\<lparr>shutdown_pc := Fs_wait, in_handler := {Main_thread}\<rparr>)"
    using termination_signal [where th = Main_thread and s = "?w\<lparr>shutdown_pc := Fs_wait\<rparr>"] by (simp add: thread_alive_def)
  moreover have "?step (?w\<lparr>shutdown_pc := Fs_wait, in_handler := {Main_thread}\<rparr>) (?w\<lparr>shutdown_pc := Fs_awake\<rparr>)"
    by (rule handler_moves [where th = Main_thread])
      (auto simp: firewalld_handle_termination_def shutdown_mutex_free_def wake_shutdown_def firewalld_init_def
        firewall_state.extend_def)
  moreover have "?step (?w\<lparr>shutdown_pc := Fs_awake\<rparr>) (?w\<lparr>shutdown_pc := Fs_woken\<rparr>)"
    by (rule sh) (simp_all add: firewalld_shutdown_step_def)
  ultimately show ?thesis
    by (auto simp: interrupted_run_def intro: converse_rtranclp_into_rtranclp)
qed

theorem firewalld_signal_deadlock_witness:
  "\<exists>s t. firewalld_reachable session_programs (kernel_library blocked_one) pg_two_rows conf_ab
      (firewalld_init firewall_sample True) s \<and>
    firewalld_step session_programs (kernel_library blocked_one) pg_two_rows conf_ab s t \<and>
    in_handler t = {Timer_thread} \<and>
    (\<forall>u. firewalld_reachable session_programs (kernel_library blocked_one) pg_two_rows conf_ab t u \<longrightarrow>
      shutdown_pc u \<noteq> Fs_done)"
proof -
  let ?s = "interrupted_run (firewalld_init firewall_sample True)"
  have "shutdown_pc ?s = Fs_woken" "timer_holds ?s" "in_handler ?s = {}"
    by (simp_all add: interrupted_run_def timer_holds_def)
  with firewalld_signal_deadlock [of ?s Timer_thread session_programs "kernel_library blocked_one" pg_two_rows conf_ab]
    interrupted_reachable [of session_programs "kernel_library blocked_one" pg_two_rows conf_ab firewall_sample True]
  show ?thesis by (intro exI [of _ ?s] exI [of _ "?s\<lparr>in_handler := {Timer_thread}\<rparr>"]) auto
qed

text \<open>A database library that refuses everything, so that the block list is never read.\<close>

definition refusing_database :: db_library where
  "refusing_database hist c = \<lparr>ret = 0, str = None\<rparr>"

lemma refusing_database_reads: "\<exists>w'. blocklist_read fuel refusing_database w = Some ([], w')"
  by (auto simp: blocklist_read_def db_blocklist_enum_open_def driver_blocklist_enum_open_def pg_enum_open_def
      sqlite3_enum_open_def mysql_enum_open_def lib_call_def refusing_database_def via_def
      split: option.splits prod.splits db_handle.splits if_splits)

text \<open>Over the command interface no update makes an access through NULL.\<close>

primrec faultless :: "'a prog \<Rightarrow> bool" where
  "faultless (Return a) \<longleftrightarrow> True"
| "faultless (Lib c k) \<longleftrightarrow> (\<forall>rc. faultless (k rc))"
| "faultless (Block_list k) \<longleftrightarrow> (\<forall>xs. faultless (k xs))"
| "faultless (Has_session k) \<longleftrightarrow> (\<forall>b. faultless (k b))"
| "faultless (Has_type k) \<longleftrightarrow> (\<forall>b. faultless (k b))"
| "faultless (Put_type b k) \<longleftrightarrow> faultless k"
| "faultless Fault \<longleftrightarrow> False"

lemma api_update_faultless: "faultless (update_prog api_programs cf)"
proof -
  have "faultless (add_list api_programs n xs q)" if "faultless q" for n xs and q :: "int option prog"
    using that by (induction xs) (auto simp: api_programs_def)
  then show ?thesis by (simp add: update_prog_def update_fill_def activate_last_def api_programs_def)
qed

lemma api_reachable_faultless:
  assumes "firewalld_reachable api_programs lib dblib cf s t" "\<forall>p. timer_pc s = Ti_update p \<longrightarrow> faultless p"
  shows "\<forall>p. timer_pc t = Ti_update p \<longrightarrow> faultless p"
  using assms(1)
proof (rule reachable_keeps)
  show "\<forall>p. timer_pc s = Ti_update p \<longrightarrow> faultless p" by (rule assms(2))
  fix u v assume u: "\<forall>p. timer_pc u = Ti_update p \<longrightarrow> faultless p" and st: "firewalld_step api_programs lib dblib cf u v"
  have keep: "faultless p'" if "prog_step lib [] p h = Some (p', h')" "faultless p" for p p' :: "int option prog" and h h'
    using that by (cases p) (auto split: prod.splits)
  from st show "\<forall>p. timer_pc v = Ti_update p \<longrightarrow> faultless p"
  proof cases
    case (timer_moves fuel now)
    with timer_prog_step [OF timer_moves(2)] u keep show ?thesis by (fastforce simp: api_update_faultless)
  next
    case (notify_moves fuel now e)
    with other_pcs(2) u show ?thesis by blast
  next
    case shutdown_moves
    with other_pcs(3) u show ?thesis by blast
  qed (use u in \<open>auto simp: firewalld_handle_termination_def split: if_splits\<close>)
qed


end
