(* ===== verification/Command_Line.thy ===== *)
theory Command_Line
  imports Prelude "HOL-Library.Sublist"
begin

text \<open>
  \<open>getopt_long\<close> of the C library, as the three programs call it: a table of long options, a
  string of short ones, no \<open>flag\<close> and no index. It permutes the arguments, so that options may
  stand behind operands; the variable \<open>POSIXLY_CORRECT\<close> is not set. A result is the option's
  character with \<open>optarg\<close>; the character \<open>?\<close> stands for an option that is not known, is
  ambiguous, lacks its argument, or has one that it does not take.
\<close>

section \<open>The tables\<close>

text \<open>\<open>struct option\<close> with a NULL \<open>flag\<close>: \<open>takes_arg\<close> is \<open>required_argument\<close>.\<close>

record cli_option =
  opt_name :: cstr
  takes_arg :: bool
  opt_val :: char

text \<open>The option string: a character, with a colon behind it when it takes an argument.\<close>

fun short_options :: "cstr \<Rightarrow> (char \<times> bool) list" where
  "short_options [] = []"
| "short_options [c] = [(c, False)]"
| "short_options (c # d # s) =
     (if d = CHR '':'' then (c, True) # short_options s else (c, False) # short_options (d # s))"

section \<open>One pass\<close>

datatype opt_result = Opt (opt_char: char) (opt_arg: "cstr option")

abbreviation Opt_bad :: opt_result where "Opt_bad \<equiv> Opt CHR ''?'' None"

text \<open>The whole name, or the only name it abbreviates.\<close>

definition find_long :: "cli_option list \<Rightarrow> cstr \<Rightarrow> cli_option option" where
  "find_long lo name =
     (case filter (\<lambda>op. opt_name op = name) lo of
        op # _ \<Rightarrow> Some op
      | [] \<Rightarrow> (case filter (\<lambda>op. prefix name (opt_name op)) lo of [op] \<Rightarrow> Some op | _ \<Rightarrow> None))"

text \<open>
  The text behind two dashes and the arguments behind it: the result, and the arguments it takes
  (none or the next one).
\<close>

definition long_element :: "cli_option list \<Rightarrow> cstr \<Rightarrow> cstr list \<Rightarrow> opt_result list \<times> cstr list" where
  "long_element lo body rest =
     (case find_long lo (takeWhile (\<lambda>c. c \<noteq> CHR ''='') body) of
        None \<Rightarrow> ([Opt_bad], [])
      | Some op \<Rightarrow>
          (case dropWhile (\<lambda>c. c \<noteq> CHR ''='') body of
             _ # optarg \<Rightarrow> (if takes_arg op then [Opt (opt_val op) (Some optarg)] else [Opt_bad], [])
           | [] \<Rightarrow>
               if \<not> takes_arg op then ([Opt (opt_val op) None], [])
               else (case rest of
                       [] \<Rightarrow> ([Opt_bad], [])
                     | optarg # _ \<Rightarrow> ([Opt (opt_val op) (Some optarg)], [optarg]))))"

text \<open>The characters behind one dash.\<close>

fun short_element :: "(char \<times> bool) list \<Rightarrow> cstr \<Rightarrow> cstr list \<Rightarrow> opt_result list \<times> cstr list" where
  "short_element sh [] rest = ([], [])"
| "short_element sh (c # cs) rest =
     (case map_of sh c of
        Some True \<Rightarrow>
          if cs \<noteq> [] then ([Opt c (Some cs)], [])
          else (case rest of
                  [] \<Rightarrow> ([Opt_bad], [])
                | optarg # _ \<Rightarrow> ([Opt c (Some optarg)], [optarg]))
      | Some False \<Rightarrow> (case short_element sh cs rest of (os, taken) \<Rightarrow> (Opt c None # os, taken))
      | None \<Rightarrow> (case short_element sh cs rest of (os, taken) \<Rightarrow> (Opt_bad # os, taken)))"

definition is_option :: "cstr \<Rightarrow> bool" where
  "is_option a \<longleftrightarrow> 2 \<le> length a \<and> hd a = CHR ''-''"

definition option_element ::
  "(char \<times> bool) list \<Rightarrow> cli_option list \<Rightarrow> cstr \<Rightarrow> cstr list \<Rightarrow> opt_result list \<times> cstr list" where
  "option_element sh lo a rest =
     (if prefix ''--'' a then long_element lo (drop 2 a) rest else short_element sh (tl a) rest)"

text \<open>
  The results, and the arguments in their new order: the options with their arguments and the two
  dashes that end them, then the operands.
\<close>

fun getopt_scan ::
  "(char \<times> bool) list \<Rightarrow> cli_option list \<Rightarrow> cstr list \<Rightarrow> opt_result list \<times> cstr list \<times> cstr list" where
  "getopt_scan sh lo [] = ([], [], [])"
| "getopt_scan sh lo (a # rest) =
     (if a = ''--'' then ([], [a], rest)
      else if \<not> is_option a
      then (case getopt_scan sh lo rest of (os, ps, ns) \<Rightarrow> (os, ps, a # ns))
      else (case option_element sh lo a rest of
              (rs, taken) \<Rightarrow>
                (case getopt_scan sh lo (drop (length taken) rest) of
                   (os, ps, ns) \<Rightarrow> (rs @ os, a # taken @ ps, ns))))"

text \<open>The loop over \<open>getopt_long\<close>: what it delivers until it returns -1, and \<open>argv\<close> afterwards.\<close>

definition getopt_long ::
  "cstr \<Rightarrow> cli_option list \<Rightarrow> cstr list \<Rightarrow> opt_result list \<times> cstr list" where
  "getopt_long optstring lo argv =
     (case argv of
        [] \<Rightarrow> ([], [])
      | exe # args \<Rightarrow>
          (case getopt_scan (short_options optstring) lo args of (os, ps, ns) \<Rightarrow> (os, exe # ps @ ns)))"

section \<open>A second pass\<close>

text \<open>What an element takes is at the front of what follows it, and all that matters of it.\<close>

lemma long_element_cases:
  assumes "long_element lo body rest = (rs, taken)"
  obtains "taken = []" "\<And>xs. Opt_bad \<notin> set rs \<Longrightarrow> long_element lo body xs = (rs, taken)"
  | x xs where "rest = x # xs" "taken = [x]" "\<And>ys. long_element lo body (x # ys) = (rs, taken)"
proof (cases "find_long lo (takeWhile (\<lambda>c. c \<noteq> CHR ''='') body)")
  case None
  then show thesis using assms that(1) by (simp add: long_element_def del: dropWhile_eq_Nil_conv)
next
  case (Some op)
  show thesis
  proof (cases "dropWhile (\<lambda>c. c \<noteq> CHR ''='') body")
    case (Cons c optarg)
    then show thesis using Some assms that(1) by (simp add: long_element_def split: if_splits)
  next
    case Nil
    show thesis
    proof (cases "takes_arg op")
      case False
      then show thesis using Some Nil assms that(1) by (simp add: long_element_def del: dropWhile_eq_Nil_conv)
    next
      case True
      then show thesis using Some Nil assms that
        by (cases rest) (auto simp: long_element_def simp del: dropWhile_eq_Nil_conv)
    qed
  qed
qed

lemma long_element_taken:
  assumes "long_element lo body rest = (rs, taken)"
  shows "rest = taken @ drop (length taken) rest"
    "Opt_bad \<notin> set rs \<Longrightarrow> long_element lo body (taken @ xs) = (rs, taken)"
  using assms by (cases rule: long_element_cases; auto)+

lemma short_element_taken:
  "short_element sh cs rest = (rs, taken) \<Longrightarrow>
     rest = taken @ drop (length taken) rest \<and>
     (Opt_bad \<notin> set rs \<longrightarrow> short_element sh cs (taken @ xs) = (rs, taken))"
proof (induction cs arbitrary: rs taken)
  case (Cons c cs)
  obtain rs' taken' where e: "short_element sh cs rest = (rs', taken')" by fastforce
  show ?case using Cons.prems Cons.IH [OF e] e
    by (auto split: option.splits bool.splits if_splits list.splits)
qed simp

lemma option_element_taken:
  assumes "option_element sh lo a rest = (rs, taken)"
  shows "rest = taken @ drop (length taken) rest"
    "Opt_bad \<notin> set rs \<Longrightarrow> option_element sh lo a (taken @ xs) = (rs, taken)"
  using assms long_element_taken [of lo "drop 2 a" rest rs taken] short_element_taken [of sh "tl a" rest rs taken xs]
  by (auto simp: option_element_def split: if_splits)

text \<open>
  A pass over the permuted arguments gives the same results when the first one had nothing to
  complain about, whatever operands follow; behind two dashes anything may follow.
\<close>

lemma getopt_scan_permuted:
  "getopt_scan sh lo args = (os, ps, ns) \<Longrightarrow> Opt_bad \<notin> set os \<Longrightarrow>
     (\<forall>x \<in> set xs. \<not> is_option x) \<or> (\<exists>x \<in> set ns. is_option x) \<Longrightarrow>
     getopt_scan sh lo (ps @ xs) = (os, ps, xs)"
proof (induction sh lo args arbitrary: os ps ns rule: getopt_scan.induct)
  case (1 sh lo)
  have "\<forall>x \<in> set xs. \<not> is_option x \<Longrightarrow> getopt_scan sh lo xs = ([], [], xs)"
  proof (induction xs)
    case (Cons x xs)
    moreover have "x \<noteq> ''--''" using Cons.prems by (auto simp: is_option_def)
    ultimately show ?case by simp
  qed simp
  with 1 show ?case by simp
next
  case (2 sh lo a rest)
  show ?case
  proof (cases "a = ''--''")
    case True
    with "2.prems"(1) have "os = []" "ps = [''--'']" by simp_all
    then show ?thesis by simp
  next
    case ne: False
    show ?thesis
    proof (cases "is_option a")
      case True
      obtain rs taken where e: "option_element sh lo a rest = (rs, taken)" by fastforce
      obtain os' ps' ns' where r: "getopt_scan sh lo (drop (length taken) rest) = (os', ps', ns')"
        by (metis prod_cases3)
      have eq: "os = rs @ os'" "ps = a # taken @ ps'" "ns = ns'"
        using "2.prems"(1) ne True e r by simp_all
      have "getopt_scan sh lo (ps' @ xs) = (os', ps', xs)"
        using "2.IH"(2) [OF ne _ e [symmetric] r] True "2.prems"(2,3) eq by simp
      moreover have "option_element sh lo a (taken @ ps' @ xs) = (rs, taken)"
        using option_element_taken(2) [OF e] "2.prems"(2) eq by simp
      ultimately show ?thesis using ne True eq by simp
    next
      case False
      obtain os' ps' ns' where r: "getopt_scan sh lo rest = (os', ps', ns')" by (metis prod_cases3)
      have "os = os'" "ps = ps'" "ns = a # ns'" using "2.prems"(1) ne False r by simp_all
      then show ?thesis using "2.IH"(1) [OF ne] False r "2.prems"(2,3) by simp
    qed
  qed
qed

lemma getopt_long_again:
  assumes "getopt_long optstring lo argv = (os, argv')" "Opt_bad \<notin> set os"
  shows "getopt_long optstring lo argv' = (os, argv')"
proof (cases argv)
  case Nil
  with assms show ?thesis by (simp add: getopt_long_def)
next
  case (Cons exe args)
  obtain ps ns where "getopt_scan (short_options optstring) lo args = (os, ps, ns)" "argv' = exe # ps @ ns"
    using assms(1) Cons by (auto simp: getopt_long_def split: prod.splits)
  moreover from this(1) have "getopt_scan (short_options optstring) lo (ps @ ns) = (os, ps, ns)"
    by (rule getopt_scan_permuted) (use assms(2) in auto)
  ultimately show ?thesis by (simp add: getopt_long_def)
qed

section \<open>Spelling options\<close>

text \<open>The four ways to give an option, and the arguments they amount to.\<close>

datatype spelling = Short | Short_joined | Long | Long_joined

type_synonym given_option = "cli_option \<times> cstr option \<times> spelling"

fun spell :: "given_option \<Rightarrow> cstr list" where
  "spell (op, arg, Short) = [CHR ''-'', opt_val op] # (case arg of None \<Rightarrow> [] | Some t \<Rightarrow> [t])"
| "spell (op, arg, Short_joined) = [CHR ''-'' # opt_val op # the arg]"
| "spell (op, arg, Long) = (''--'' @ opt_name op) # (case arg of None \<Rightarrow> [] | Some t \<Rightarrow> [t])"
| "spell (op, arg, Long_joined) = [''--'' @ opt_name op @ ''='' @ the arg]"

fun given_result :: "given_option \<Rightarrow> opt_result" where
  "given_result (op, arg, sp) = Opt (opt_val op) arg"

fun given_ok :: "cli_option list \<Rightarrow> given_option \<Rightarrow> bool" where
  "given_ok lo (op, arg, sp) \<longleftrightarrow>
     op \<in> set lo \<and> (takes_arg op \<longleftrightarrow> arg \<noteq> None) \<and>
     (sp = Short_joined \<longrightarrow> arg \<noteq> None \<and> arg \<noteq> Some []) \<and> (sp = Long_joined \<longrightarrow> arg \<noteq> None)"

text \<open>Table and option string belong together.\<close>

definition table_ok :: "cstr \<Rightarrow> cli_option list \<Rightarrow> bool" where
  "table_ok optstring lo \<longleftrightarrow>
     distinct (map opt_name lo) \<and>
     (\<forall>op \<in> set lo. opt_name op \<noteq> [] \<and> CHR ''='' \<notin> set (opt_name op) \<and>
        opt_val op \<noteq> CHR ''-'' \<and> opt_val op \<noteq> CHR ''?'' \<and>
        map_of (short_options optstring) (opt_val op) = Some (takes_arg op))"

lemma find_long_name:
  assumes "distinct (map opt_name lo)" "op \<in> set lo"
  shows "find_long lo (opt_name op) = Some op"
proof -
  have "filter (\<lambda>op'. opt_name op' = opt_name op) lo = [op]"
    using assms by (induction lo) (auto simp: filter_empty_conv image_iff)
  then show ?thesis by (simp add: find_long_def)
qed

lemma scan_spelled:
  assumes "table_ok optstring lo" "given_ok lo g"
    "getopt_scan (short_options optstring) lo rest = (os, ps, ns)"
  shows "getopt_scan (short_options optstring) lo (spell g @ rest) = (given_result g # os, spell g @ ps, ns)"
proof -
  obtain op arg sp where g: "g = (op, arg, sp)" by (cases g)
  have op: "op \<in> set lo" "takes_arg op \<longleftrightarrow> arg \<noteq> None" using assms(2) g by simp_all
  then have t: "opt_name op \<noteq> []" "CHR ''='' \<notin> set (opt_name op)" "opt_val op \<noteq> CHR ''-''"
    "map_of (short_options optstring) (opt_val op) = Some (takes_arg op)"
    "find_long lo (opt_name op) = Some op"
    using assms(1) by (simp_all add: table_ok_def find_long_name)
  have "\<forall>c \<in> set (opt_name op). c \<noteq> CHR ''=''" using t(2) by auto
  then have body: "takeWhile (\<lambda>c. c \<noteq> CHR ''='') (opt_name op) = opt_name op"
    "dropWhile (\<lambda>c. c \<noteq> CHR ''='') (opt_name op) = []"
    "takeWhile (\<lambda>c. c \<noteq> CHR ''='') (opt_name op @ CHR ''='' # x) = opt_name op"
    "dropWhile (\<lambda>c. c \<noteq> CHR ''='') (opt_name op @ CHR ''='' # x) = CHR ''='' # x" for x
    by (simp_all add: takeWhile_append2 dropWhile_append2)
  obtain c cs where name: "opt_name op = c # cs" using t(1) by (cases "opt_name op") auto
  show ?thesis
    using assms(2,3) op(2) t(3-5) body name
    by (cases sp; cases arg)
      (auto simp: g is_option_def option_element_def long_element_def)
qed

lemma getopt_long_spelled:
  assumes "table_ok optstring lo" "\<forall>g \<in> set given. given_ok lo g" "\<forall>n \<in> set operands. \<not> is_option n"
  shows "getopt_long optstring lo (exe # concat (map spell given) @ operands) =
    (map given_result given, exe # concat (map spell given) @ operands)"
proof -
  have "getopt_scan (short_options optstring) lo (concat (map spell given) @ operands) =
      (map given_result given, concat (map spell given), operands)"
    using assms(2)
  proof (induction given)
    case Nil
    have "getopt_scan (short_options optstring) lo ([] @ operands) = ([], [], operands)"
      by (rule getopt_scan_permuted [where args = "[]" and ns = "[]"]) (use assms(3) in simp_all)
    then show ?case by simp
  next
    case (Cons g gs)
    then show ?case using scan_spelled [OF assms(1)] by simp
  qed
  then show ?thesis by (simp add: getopt_long_def)
qed

end
