(* ===== verification/Programs.thy ===== *)
theory Programs
  imports Command_Line Pamd_Config Firewalld_Config Pam_Callback
begin

text \<open>
  The \<open>main\<close> functions from \<open>argv\<close> on: the tables of options, the help texts, the first pass
  over the options, and what follows in Pamd_Config, Firewalld_Config and Pam_Callback. Both
  daemons read their options twice, before and after the configuration file.
\<close>

section \<open>The tables\<close>

abbreviation cli :: "cstr \<Rightarrow> bool \<Rightarrow> char \<Rightarrow> cli_option" where
  "cli name arg val \<equiv> \<lparr>opt_name = name, takes_arg = arg, opt_val = val\<rparr>"

definition pamd_cli_options :: "cli_option list" where
  "pamd_cli_options =
     [cli ''help'' False CHR ''h'', cli ''version'' False CHR ''V'', cli ''verbose'' False CHR ''v'',
      cli ''quiet'' False CHR ''q'', cli ''config'' True CHR ''c'', cli ''backlog'' True CHR ''b'',
      cli ''poll-interval'' True CHR ''i'']"

definition pamd_cli_options_str :: cstr where
  "pamd_cli_options_str = ''hVvqc:b:i:''"

definition firewalld_cli_options :: "cli_option list" where
  "firewalld_cli_options =
     [cli ''help'' False CHR ''h'', cli ''version'' False CHR ''V'', cli ''verbose'' False CHR ''v'',
      cli ''quiet'' False CHR ''q'', cli ''config'' True CHR ''c'', cli ''check-interval'' True CHR ''i'',
      cli ''ipset-name-production'' True CHR ''p'', cli ''ipset-name-rebuild'' True CHR ''r'']"

definition firewalld_cli_options_str :: cstr where
  "firewalld_cli_options_str = ''hVvqc:i:p:r:''"

definition callback_cli_options :: "cli_option list" where
  "callback_cli_options =
     [cli ''help'' False CHR ''h'', cli ''version'' False CHR ''V'', cli ''socket'' True CHR ''s'',
      cli ''timeout'' True CHR ''t'']"

definition callback_cli_options_str :: cstr where
  "callback_cli_options_str = ''hVs:t:''"

section \<open>The help texts\<close>

text \<open>What the build and the compiler put into the texts. A text is the list of its lines.\<close>

record version_info =
  IPTRACKING_VERSION_STR :: cstr
  CC_VENDOR :: cstr
  CC_VERSION :: nat
  DATE :: cstr
  TIME :: cstr

definition version_line :: "version_info \<Rightarrow> cstr" where
  "version_line v =
     ''(v'' @ IPTRACKING_VERSION_STR v @ '' built with '' @ CC_VENDOR v @ '' '' @ show_nat (CC_VERSION v) @
     '' on '' @ DATE v @ '' '' @ TIME v @ '')''"

definition version_sample :: version_info where
  "version_sample = \<lparr>IPTRACKING_VERSION_STR = ''1.0'', CC_VENDOR = ''gcc'', CC_VERSION = 130200,
     DATE = ''May  1 2024'', TIME = ''10:00:00''\<rparr>"

text \<open>The loop over \<open>db_driver_enumerate_drivers\<close>; the table ends it.\<close>

definition driver_lines :: "build \<Rightarrow> cstr list" where
  "driver_lines b =
     (case collect (Suc (length (db_drivers b))) (next_driver_name b) None of
        Some (names, _) \<Rightarrow> map (\<lambda>n. ''    - '' @ n) names
      | None \<Rightarrow> [])"

definition pamd_usage ::
  "version_info \<Rightarrow> build \<Rightarrow> cstr \<Rightarrow> int \<Rightarrow> pamd_config \<Rightarrow> cstr \<Rightarrow> cstr list" where
  "pamd_usage v b config_default somaxconn c exe =
     [''usage:'', [],
      ''    '' @ exe @ '' {options}'', [],
      ''  options:'', [],
      ''    -h/--help                  Show this information'',
      ''    -V/--version               Display daemon version'',
      ''    -v/--verbose               Increase level of printing'',
      ''    -q/--quiet                 Decrease level of printing'',
      ''    -c/--config <filepath>     Read configuration directives from the YAML file'',
      ''                               at <filepath> (default: '' @ config_default @ '')'',
      ''    -b/--backlog <int>         The socket listen backlog (see '' @ [CHR 0x27] @ ''man 3 listen)'',
      ''                               (default: '' @ show_int (socket_backlog c) @ '', maximum: '' @
        show_int somaxconn @ '')'',
      ''    -i/--poll-interval <int>   The number of seconds the daemon will block waiting'',
      ''                               on socket connections (default: '' @ show_int (socket_poll_interval c) @ '')'',
      [], ''  defaults:'', [],
      ''    - will read events from socket file '' @ socket_filepath c, [],
      ''  database drivers:'', []] @
     driver_lines b @ [[], version_line v]"

definition firewalld_usage ::
  "version_info \<Rightarrow> build \<Rightarrow> cstr \<Rightarrow> firewalld_config \<Rightarrow> cstr \<Rightarrow> cstr list" where
  "firewalld_usage v b config_default c exe =
     [''usage:'', [],
      ''    '' @ exe @ '' {options}'', [],
      ''  options:'', [],
      ''    -h/--help                          Show this information'',
      ''    -V/--version                       Display daemon version'',
      ''    -v/--verbose                       Increase level of printing'',
      ''    -q/--quiet                         Decrease level of printing'',
      ''    -c/--config <filepath>             Read configuration directives from the YAML file'',
      ''                                       at <filepath> (default: '' @ config_default @ '')'',
      ''    -i/--check-interval <int>          The maximum number of seconds the daemon will wait'',
      ''                                       between ipset updates (default: '' @
        show_int (sint (check_interval c)) @ '')'',
      ''    -p/--ipset-name-production <name>  The ipset name to use for the subnet/address set'',
      ''                                       referenced by filter rules (default: '' @ name_prod c @ '')'',
      ''    -r/--ipset-name-rebuild <name>     The ipset name to use for the subnet/address set'',
      ''                                       for updates (default: '' @ name_rebuild c @ '')'',
      [], ''  database drivers:'', []] @
     driver_lines b @ [[], version_line v]"

definition callback_usage :: "version_info \<Rightarrow> cstr \<Rightarrow> cstr \<Rightarrow> cstr list" where
  "callback_usage v socket_default exe =
     [''usage:'', [],
      ''    '' @ exe @ '' {options}'', [],
      ''  options:'', [],
      ''    -h/--help                  Show this information'',
      ''    -V/--version               Display program version'',
      ''    -s/--socket <path>         Path to the socket file the daemon is monitoring'',
      ''                               (default '' @ socket_default @ '')'',
      ''    -t/--timeout <int>         Timeout in seconds for sending data via the socket file'',
      ''                               (default '' @ show_int SOCKET_TIMEOUT_DEFAULT @ '')'',
      [], version_line v]"

section \<open>The daemons\<close>

text \<open>
  The first pass: help and version end the process; otherwise the path of the configuration file
  and the level of logging.
\<close>

datatype first_pass = Show_usage | Show_version | Passed cstr log_state

fun daemon_first_pass :: "opt_result list \<Rightarrow> int \<Rightarrow> int \<Rightarrow> cstr \<Rightarrow> log_state \<Rightarrow> first_pass" where
  "daemon_first_pass [] verbose quiet config_filepath st = Passed config_filepath st"
| "daemon_first_pass (Opt c optarg # os) verbose quiet config_filepath st =
     (if c = CHR ''h'' then Show_usage
      else if c = CHR ''V'' then Show_version
      else if c = CHR ''v''
      then daemon_first_pass os (verbose + 1) quiet config_filepath
             (logging_set_level (logging_get_level st + (verbose + 1) - quiet) st)
      else if c = CHR ''q''
      then daemon_first_pass os verbose (quiet + 1) config_filepath
             (logging_set_level (logging_get_level st + verbose - (quiet + 1)) st)
      else if c = CHR ''c'' then daemon_first_pass os verbose quiet (the optarg) st
      else daemon_first_pass os verbose quiet config_filepath st)"

text \<open>What the process printed before it ended with code 0, or what \<open>main\<close> came to.\<close>

datatype 's program = Printed "cstr list" | Went_on log_state 's

definition pamd_option_of :: "opt_result \<Rightarrow> pamd_option" where
  "pamd_option_of r =
     (if opt_char r = CHR ''b'' then Opt_backlog (the (opt_arg r))
      else if opt_char r = CHR ''i'' then Opt_poll_interval (the (opt_arg r))
      else Opt_other)"

text \<open>\<open>files\<close> is what the file system and libyaml deliver for a path.\<close>

definition pamd_program ::
  "version_info \<Rightarrow> cstr \<Rightarrow> build \<Rightarrow> bool \<Rightarrow> bool \<Rightarrow> int \<Rightarrow> int \<Rightarrow> int \<Rightarrow> (cstr \<Rightarrow> config_source) \<Rightarrow> cstr list \<Rightarrow>
     pamd_config \<Rightarrow> pamd_start program" where
  "pamd_program v config_default b db_malloc_ok lq_malloc_ok stat_rc unlink_rc somaxconn files argv c0 =
     (case getopt_long pamd_cli_options_str pamd_cli_options argv of
        (os, argv') \<Rightarrow>
          (case daemon_first_pass os 0 0 config_default log_state_init of
             Show_usage \<Rightarrow> Printed (pamd_usage v b config_default somaxconn c0 (hd argv))
           | Show_version \<Rightarrow> Printed [IPTRACKING_VERSION_STR v]
           | Passed config_filepath st \<Rightarrow>
               Went_on st (pamd_main b db_malloc_ok lq_malloc_ok stat_rc unlink_rc somaxconn (files config_filepath)
                 (map pamd_option_of (fst (getopt_long pamd_cli_options_str pamd_cli_options argv'))) c0)))"

definition firewalld_option_of :: "opt_result \<Rightarrow> firewalld_option" where
  "firewalld_option_of r =
     (if opt_char r = CHR ''i'' then Opt_check_interval (the (opt_arg r))
      else if opt_char r = CHR ''p'' then Opt_production (the (opt_arg r))
      else if opt_char r = CHR ''r'' then Opt_rebuild (the (opt_arg r))
      else Opt_none)"

definition firewalld_program ::
  "version_info \<Rightarrow> cstr \<Rightarrow> build \<Rightarrow> bool \<Rightarrow> bool \<Rightarrow> db_library \<Rightarrow> ipset_helper option \<Rightarrow> int \<Rightarrow>
     (cstr \<Rightarrow> config_source) \<Rightarrow> cstr list \<Rightarrow> firewalld_config \<Rightarrow> firewalld_start program" where
  "firewalld_program v config_default b malloc_ok asprintf_ok lib init now files argv c0 =
     (case getopt_long firewalld_cli_options_str firewalld_cli_options argv of
        (os, argv') \<Rightarrow>
          (case daemon_first_pass os 0 0 config_default log_state_init of
             Show_usage \<Rightarrow> Printed (firewalld_usage v b config_default c0 (hd argv))
           | Show_version \<Rightarrow> Printed [IPTRACKING_VERSION_STR v]
           | Passed config_filepath st \<Rightarrow>
               Went_on st (firewalld_main b malloc_ok asprintf_ok lib init now (files config_filepath)
                 (map firewalld_option_of
                   (fst (getopt_long firewalld_cli_options_str firewalld_cli_options argv'))) c0)))"

section \<open>The callback\<close>

definition callback_option_of :: "opt_result \<Rightarrow> callback_option" where
  "callback_option_of r =
     (if opt_char r = CHR ''h'' then Opt_help
      else if opt_char r = CHR ''V'' then Opt_version
      else if opt_char r = CHR ''s'' then Opt_socket (the (opt_arg r))
      else if opt_char r = CHR ''t'' then Opt_timeout (the (opt_arg r))
      else Opt_unknown)"

text \<open>Its one pass is that of \<open>callback_options\<close>.\<close>

definition callback_program ::
  "cstr \<Rightarrow> cstr list \<Rightarrow> callback_env \<Rightarrow> cstr \<Rightarrow> 32 word \<Rightarrow> bool \<Rightarrow> round list \<Rightarrow>
     callback_result \<times> log_data option \<times> nat list" where
  "callback_program default_socket argv env now ppid socket_ok rounds =
     callback_main default_socket
       (map callback_option_of (fst (getopt_long callback_cli_options_str callback_cli_options argv)))
       env now ppid socket_ok rounds"

section \<open>Facts\<close>

lemmas cli_tables = pamd_cli_options_def pamd_cli_options_str_def firewalld_cli_options_def
  firewalld_cli_options_str_def callback_cli_options_def callback_cli_options_str_def

lemma tables_ok:
  "table_ok pamd_cli_options_str pamd_cli_options"
  "table_ok firewalld_cli_options_str firewalld_cli_options"
  "table_ok callback_cli_options_str callback_cli_options"
  by (simp_all add: table_ok_def cli_tables)

text \<open>The first pass, in closed form: the first help or version option decides, else all the others.\<close>

definition ends_pass :: "opt_result \<Rightarrow> bool" where
  "ends_pass r \<longleftrightarrow> opt_char r = CHR ''h'' \<or> opt_char r = CHR ''V''"

definition verbosity_of :: "opt_result list \<Rightarrow> verbosity_option list" where
  "verbosity_of os =
     concat (map (\<lambda>r. if opt_char r = CHR ''v'' then [Opt_verbose]
                      else if opt_char r = CHR ''q'' then [Opt_quiet] else []) os)"

definition config_path :: "cstr \<Rightarrow> opt_result list \<Rightarrow> cstr" where
  "config_path config_default os =
     foldl (\<lambda>p r. if opt_char r = CHR ''c'' then the (opt_arg r) else p) config_default os"

lemma first_pass_simps [simp]:
  "verbosity_of [] = []" "config_path p [] = p"
  "verbosity_of (Opt c t # os) =
     (if c = CHR ''v'' then [Opt_verbose] else if c = CHR ''q'' then [Opt_quiet] else []) @ verbosity_of os"
  "config_path p (Opt c t # os) = config_path (if c = CHR ''c'' then the t else p) os"
  by (simp_all add: verbosity_of_def config_path_def)

lemma first_pass_closed:
  "daemon_first_pass os verbose quiet path st =
    (case find ends_pass os of
       Some r \<Rightarrow> if opt_char r = CHR ''h'' then Show_usage else Show_version
     | None \<Rightarrow> Passed (config_path path os) (cli_verbosity (verbosity_of os) verbose quiet st))"
  by (induction os verbose quiet path st rule: daemon_first_pass.induct)
    (simp_all add: ends_pass_def split: option.split)

lemma driver_lines_all: "driver_lines b = map (\<lambda>d. ''    - '' @ driver_name d) (db_drivers b)"
proof -
  have "next_driver_name b None = next_driver_name b (Some 0)"
    by (simp add: next_driver_name_def db_driver_enumerate_drivers_def db_drivers_def)
  then have "collect (Suc n) (next_driver_name b) None = collect (Suc n) (next_driver_name b) (Some 0)" for n
    by (simp only: collect.simps)
  then have "\<exists>it. collect (Suc (length (db_drivers b))) (next_driver_name b) None =
      Some (map driver_name (db_drivers b), it)"
    using enumerate_from [of 0 b "Suc (length (db_drivers b))"] by simp
  then show ?thesis by (auto simp: driver_lines_def comp_def)
qed

section \<open>The command line of the event daemon\<close>



text \<open>
  An option that lacks its argument at the end of the line is complained about in the first pass
  and takes an operand for it in the second one, because the operands have moved behind it.
\<close>

theorem operand_becomes_argument:
  "getopt_long pamd_cli_options_str pamd_cli_options [exe, ''5'', ''-b''] = ([Opt_bad], [exe, ''-b'', ''5''])"
  "getopt_long pamd_cli_options_str pamd_cli_options [exe, ''-b'', ''5''] =
     ([Opt CHR ''b'' (Some ''5'')], [exe, ''-b'', ''5''])"
  by (simp_all add: getopt_long_def cli_tables is_option_def option_element_def)

text \<open>The firewall daemon's command line is read in the same way.\<close>

theorem firewalld_command_line:
  assumes "\<forall>g \<in> set gs. given_ok firewalld_cli_options g" "\<forall>n \<in> set operands. \<not> is_option n"
  shows "firewalld_program v dflt b m asp lib init now files (exe # concat (map spell gs) @ operands) c0 =
    (let os = map given_result gs
     in case find ends_pass os of
          Some r \<Rightarrow> Printed (if opt_char r = CHR ''h'' then firewalld_usage v b dflt c0 exe
                           else [IPTRACKING_VERSION_STR v])
        | None \<Rightarrow> Went_on (cli_verbosity (verbosity_of os) 0 0 log_state_init)
            (firewalld_main b m asp lib init now (files (config_path dflt os))
              (map firewalld_option_of os) c0))"
  using getopt_long_spelled [OF tables_ok(2) assms]
  by (simp add: firewalld_program_def first_pass_closed Let_def split: option.split)

theorem firewalld_command_line_witness:
  "firewalld_program version_sample ''default.yml'' build_plain True True pg_all_ok None 1000 (\<lambda>_. File_not_opened)
      [''firewalld'', ''--check-interval'', ''600'', ''-V''] firewalld_config_default =
    Printed [''1.0'']"
proof -
  let ?given = "[(cli ''check-interval'' True CHR ''i'', Some ''600'', Long),
    (cli ''version'' False CHR ''V'', None, Short)]"
  have "\<forall>g \<in> set ?given. given_ok firewalld_cli_options g" by (simp add: firewalld_cli_options_def)
  then show ?thesis
    using firewalld_command_line [of ?given "[]" version_sample "''default.yml''" build_plain True True pg_all_ok None 1000
        "\<lambda>_. File_not_opened" "''firewalld''" firewalld_config_default]
    by (simp add: Let_def ends_pass_def version_sample_def)
qed

text \<open>And the callback's, in one pass.\<close>

theorem callback_command_line:
  assumes "\<forall>g \<in> set gs. given_ok callback_cli_options g" "\<forall>n \<in> set operands. \<not> is_option n"
  shows "callback_program dflt (exe # concat (map spell gs) @ operands) env now ppid ok rounds =
    callback_main dflt (map (callback_option_of \<circ> given_result) gs) env now ppid ok rounds"
  using getopt_long_spelled [OF tables_ok(3) assms] by (simp add: callback_program_def)

theorem callback_command_line_witness:
  "callback_program ''d'' [''cb'', ''--socket=s'', ''-t'', ''9''] env now ppid ok rounds =
    callback_main ''d'' [Opt_socket ''s'', Opt_timeout ''9''] env now ppid ok rounds"
proof -
  let ?given = "[(cli ''socket'' True CHR ''s'', Some ''s'', Long_joined),
    (cli ''timeout'' True CHR ''t'', Some ''9'', Short)]"
  have "\<forall>g \<in> set ?given. given_ok callback_cli_options g" by (simp add: callback_cli_options_def)
  then show ?thesis
    using callback_command_line [of ?given "[]" "''d''" "''cb''" env now ppid ok rounds]
    by (simp add: callback_option_of_def)
qed

end
