(* ===== verification/Pamd_Signals.thy ===== *)
theory Pamd_Signals
  imports Pamd_Refinement
begin

text \<open>
  The threads of \<open>src/pam-daemon/iptracking-pamd.c\<close> with their locks, and the signal handler inside
  the thread it interrupts. \<open>handle_termination\<close> locks \<open>shutdown_mutex\<close>; the thread it interrupts
  stands still until it has the lock, with the locks it holds itself. Over the steps of \<open>Pamd\<close>, in
  which a critical section is one step, this adds when a thread takes a lock, so that it can be
  interrupted between taking it and the section. The states the threads share are the same.
\<close>

section \<open>The locks\<close>

datatype pamd_thread = Pamd_main | Pamd_db | Pamd_event | Pamd_shutdown

text \<open>
  \<open>interrupted\<close>: the threads inside \<open>handle_termination\<close>. \<open>queue_owner\<close>: the thread that holds the
  lock of the queue. \<open>sh_locked\<close>: the shutdown thread holds \<open>shutdown_mutex\<close> and does not wait yet.
  \<open>sh_broadcast\<close>: \<open>shutdown_cond\<close> was signalled while the shutdown thread waited.
\<close>

record pamd_threads =
  shared :: pamd_state
  interrupted :: "pamd_thread set"
  queue_owner :: "pamd_thread option"
  sh_locked :: bool
  sh_broadcast :: bool

definition pamd_threads_init :: "pamd_state \<Rightarrow> pamd_threads" where
  "pamd_threads_init s =
     \<lparr>shared = s, interrupted = {}, queue_owner = None, sh_locked = False, sh_broadcast = False\<rparr>"

text \<open>The places where a thread works on the queue, or comes back from waiting on it.\<close>

definition at_queue :: "pamd_thread \<Rightarrow> pamd_state \<Rightarrow> bool" where
  "at_queue th s \<longleftrightarrow>
     (case th of
        Pamd_main \<Rightarrow> False
      | Pamd_db \<Rightarrow> db_pc s = Db_pop \<or> db_pc s = Db_woken
      | Pamd_event \<Rightarrow> (\<exists>d w. ev_pc s = Ev_push d w)
      | Pamd_shutdown \<Rightarrow> sh_pc s = Sh_interrupt)"

definition sh_mutex_free :: "pamd_threads \<Rightarrow> bool" where
  "sh_mutex_free t \<longleftrightarrow> \<not> sh_locked t \<and> sh_pc (shared t) \<notin> {Sh_woken, Sh_interrupt}"

definition can_move :: "pamd_thread \<Rightarrow> pamd_threads \<Rightarrow> bool" where
  "can_move th t \<longleftrightarrow> th \<notin> interrupted t \<and> (at_queue th (shared t) \<longrightarrow> queue_owner t = Some th) \<and>
     (th = Pamd_shutdown \<and> sh_pc (shared t) = Sh_start \<longrightarrow> sh_locked t)"

text \<open>After its step a thread has released the lock of the queue, or waits and has, too.\<close>

definition moved :: "pamd_thread \<Rightarrow> pamd_state \<Rightarrow> pamd_threads \<Rightarrow> pamd_threads" where
  "moved th s t =
     t\<lparr>shared := s, queue_owner := (if queue_owner t = Some th then None else queue_owner t),
       sh_locked := (sh_locked t \<and> th \<noteq> Pamd_shutdown)\<rparr>"

definition pamd_alive :: "pamd_thread \<Rightarrow> pamd_state \<Rightarrow> bool" where
  "pamd_alive th s \<longleftrightarrow>
     (case th of
        Pamd_main \<Rightarrow> True
      | Pamd_db \<Rightarrow> db_pc s \<noteq> Db_done
      | Pamd_event \<Rightarrow> ev_pc s \<noteq> Ev_done
      | Pamd_shutdown \<Rightarrow> sh_pc s \<noteq> Sh_done)"

inductive threads_step :: "db_library \<Rightarrow> pamd_threads \<Rightarrow> pamd_threads \<Rightarrow> bool" for lib where
  lock_queue: "th \<notin> interrupted t \<Longrightarrow> at_queue th (shared t) \<Longrightarrow> queue_owner t = None \<Longrightarrow>
    threads_step lib t (t\<lparr>queue_owner := Some th\<rparr>)"
| lock_shutdown: "Pamd_shutdown \<notin> interrupted t \<Longrightarrow> sh_pc (shared t) = Sh_start \<Longrightarrow>
    threads_step lib t (t\<lparr>sh_locked := True\<rparr>)"
| db_moves: "can_move Pamd_db t \<Longrightarrow> db_thread_step lib (shared t) = Step s \<Longrightarrow> threads_step lib t (moved Pamd_db s t)"
| event_moves: "can_move Pamd_event t \<Longrightarrow> event_thread_step env (shared t) = Step s \<Longrightarrow>
    threads_step lib t (moved Pamd_event s t)"
| shutdown_moves: "can_move Pamd_shutdown t \<Longrightarrow> shutdown_thread_step (shared t) = Step s \<Longrightarrow>
    threads_step lib t (moved Pamd_shutdown s t)"
| shutdown_woken: "Pamd_shutdown \<notin> interrupted t \<Longrightarrow> sh_broadcast t \<Longrightarrow>
    threads_step lib t (t\<lparr>shared := handle_termination (shared t), sh_broadcast := False\<rparr>)"
| spurious_shutdown: "Pamd_shutdown \<notin> interrupted t \<Longrightarrow> sh_pc (shared t) = Sh_wait \<Longrightarrow>
    threads_step lib t (t\<lparr>shared := (shared t)\<lparr>sh_pc := Sh_woken\<rparr>\<rparr>)"
| spurious_pop: "db_pc (shared t) = Db_wait \<Longrightarrow> threads_step lib t (t\<lparr>shared := (shared t)\<lparr>db_pc := Db_woken\<rparr>\<rparr>)"
| signal: "pamd_alive th (shared t) \<Longrightarrow> threads_step lib t (t\<lparr>interrupted := insert th (interrupted t)\<rparr>)"
| handler_moves: "th \<in> interrupted t \<Longrightarrow> sh_mutex_free t \<Longrightarrow>
    threads_step lib t (t\<lparr>interrupted := interrupted t - {th},
      sh_broadcast := (sh_broadcast t \<or> sh_pc (shared t) = Sh_wait)\<rparr>)"

abbreviation threads_reachable :: "db_library \<Rightarrow> pamd_threads \<Rightarrow> pamd_threads \<Rightarrow> bool" where
  "threads_reachable lib \<equiv> rtranclp (threads_step lib)"

lemma threads_init_simps [simp]:
  "shared (pamd_threads_init s) = s" "interrupted (pamd_threads_init s) = {}"
  "queue_owner (pamd_threads_init s) = None" "\<not> sh_locked (pamd_threads_init s)" "\<not> sh_broadcast (pamd_threads_init s)"
  by (simp_all add: pamd_threads_init_def)

lemma moved_simps [simp]:
  "shared (moved th s t) = s" "interrupted (moved th s t) = interrupted t"
  "queue_owner (moved th s t) = (if queue_owner t = Some th then None else queue_owner t)"
  "sh_locked (moved th s t) \<longleftrightarrow> sh_locked t \<and> th \<noteq> Pamd_shutdown" "sh_broadcast (moved th s t) = sh_broadcast t"
  by (simp_all add: moved_def)

section \<open>The shared state\<close>

text \<open>Who holds a lock is where the lock is needed.\<close>

definition threads_ok :: "pamd_threads \<Rightarrow> bool" where
  "threads_ok t \<longleftrightarrow> (\<forall>th. queue_owner t = Some th \<longrightarrow> at_queue th (shared t)) \<and>
     (sh_locked t \<longrightarrow> sh_pc (shared t) = Sh_start)"

lemma event_keeps_others:
  assumes "event_thread_step env s = Step t"
  shows "sh_pc t = sh_pc s" "db_pc t = db_pc s \<or> db_pc s = Db_wait \<and> db_pc t = Db_woken"
  using assms event_thread_keeps [OF assms] by (auto simp: event_frame_def)

lemma db_keeps_others:
  assumes "db_thread_step lib s = Step t"
  shows "sh_pc t = sh_pc s" "ev_pc t = ev_pc s"
  using db_thread_keeps [OF assms] by auto

lemma threads_ok_step:
  assumes "threads_step lib t u" "threads_ok t"
  shows "threads_ok u"
  using assms(1)
proof cases
  case (db_moves s)
  with db_keeps_others [OF db_moves(3)] assms(2) show ?thesis
    by (auto simp: threads_ok_def at_queue_def split: pamd_thread.splits)
next
  case (event_moves env s)
  with event_keeps_others [OF event_moves(3)] assms(2) show ?thesis
    by (auto simp: threads_ok_def at_queue_def split: pamd_thread.splits)
next
  case (shutdown_moves s)
  with shutdown_keeps(4,8) [OF shutdown_moves(3)] assms(2) show ?thesis
    by (auto simp: threads_ok_def at_queue_def split: pamd_thread.splits)
qed (use assms(2) in \<open>auto simp: threads_ok_def at_queue_def handle_termination_def split: pamd_thread.splits\<close>)

text \<open>Seen through the shared state, a step is one of \<open>Pamd\<close> or none.\<close>

interpretation pamd_shared: simulation "threads_step lib" "pamd_step lib" threads_ok shared for lib
proof unfold_locales
  fix t u
  assume "threads_ok t" and st: "threads_step lib t u"
  then show "threads_ok u" by (simp add: threads_ok_step)
  show "shared u = shared t \<or> pamd_step lib (shared t) (shared u)"
    using st by cases (auto intro: pamd_step.intros)
qed

text \<open>And every step of \<open>Pamd\<close> is one of the threads, when no thread is interrupted.\<close>

definition quiet :: "pamd_threads \<Rightarrow> bool" where
  "quiet t \<longleftrightarrow> interrupted t = {} \<and> queue_owner t = None \<and> \<not> sh_locked t"

lemma quiet_move:
  assumes "quiet t" "th = Pamd_shutdown \<longrightarrow> sh_pc (shared t) \<noteq> Sh_start"
    "\<And>u. shared u = shared t \<Longrightarrow> can_move th u \<Longrightarrow> threads_step lib u (moved th s u)"
  shows "\<exists>u. threads_reachable lib t u \<and> shared u = s \<and> quiet u"
proof (cases "at_queue th (shared t)")
  case True
  let ?u = "t\<lparr>queue_owner := Some th\<rparr>"
  have "threads_step lib t ?u" by (rule lock_queue) (use True assms(1) in \<open>auto simp: quiet_def\<close>)
  moreover have "threads_step lib ?u (moved th s ?u)"
    by (rule assms(3)) (use assms(1,2) in \<open>auto simp: quiet_def can_move_def\<close>)
  ultimately have "threads_reachable lib t (moved th s ?u)" by (meson r_into_rtranclp rtranclp_trans)
  then show ?thesis using assms(1) by (intro exI [of _ "moved th s ?u"]) (simp add: quiet_def)
next
  case False
  have "threads_step lib t (moved th s t)"
    by (rule assms(3)) (use False assms(1,2) in \<open>auto simp: quiet_def can_move_def\<close>)
  then show ?thesis using assms(1) by (intro exI [of _ "moved th s t"]) (auto simp: quiet_def)
qed

lemma quiet_signal:
  assumes "quiet t"
  shows "\<exists>u. threads_reachable lib t u \<and> shared u = handle_termination (shared t) \<and> quiet u"
proof -
  let ?t1 = "t\<lparr>interrupted := insert Pamd_main (interrupted t)\<rparr>"
  let ?t2 = "?t1\<lparr>interrupted := interrupted ?t1 - {Pamd_main}, sh_broadcast := (sh_broadcast ?t1 \<or> sh_pc (shared ?t1) = Sh_wait)\<rparr>"
  let ?t3 = "?t2\<lparr>shared := handle_termination (shared ?t2), sh_broadcast := False\<rparr>"
  show ?thesis
  proof (cases "sh_pc (shared t) = Sh_wait")
    case True
    have "threads_step lib t ?t1" by (rule signal) (simp add: pamd_alive_def)
    moreover have "threads_step lib ?t1 ?t2"
      by (rule handler_moves) (use True assms in \<open>auto simp: quiet_def sh_mutex_free_def\<close>)
    moreover have "threads_step lib ?t2 ?t3"
      by (rule shutdown_woken) (use True assms in \<open>auto simp: quiet_def\<close>)
    ultimately have "threads_reachable lib t ?t3" by (meson r_into_rtranclp rtranclp_trans)
    then show ?thesis using assms by (intro exI [of _ ?t3]) (simp add: quiet_def)
  next
    case False
    then show ?thesis using assms by (intro exI [of _ t]) (simp add: handle_termination_def)
  qed
qed

lemma quiet_shutdown:
  assumes "quiet t" "shutdown_thread_step (shared t) = Step s"
  shows "\<exists>u. threads_reachable lib t u \<and> shared u = s \<and> quiet u"
proof (cases "sh_pc (shared t) = Sh_start")
  case True
  let ?t1 = "t\<lparr>sh_locked := True\<rparr>"
  have "threads_step lib t ?t1" by (rule lock_shutdown) (use True assms(1) in \<open>auto simp: quiet_def\<close>)
  moreover have "threads_step lib ?t1 (moved Pamd_shutdown s ?t1)"
    by (rule shutdown_moves) (use True assms in \<open>auto simp: quiet_def can_move_def at_queue_def\<close>)
  ultimately have "threads_reachable lib t (moved Pamd_shutdown s ?t1)" by (meson r_into_rtranclp rtranclp_trans)
  then show ?thesis using assms(1) by (intro exI [of _ "moved Pamd_shutdown s ?t1"]) (simp add: quiet_def)
next
  case False
  show ?thesis
    by (rule quiet_move [OF assms(1), of Pamd_shutdown]) (use False assms(2) in \<open>auto intro: threads_step.shutdown_moves\<close>)
qed

lemma quiet_step:
  assumes "quiet t" "pamd_step lib (shared t) s"
  shows "\<exists>u. threads_reachable lib t u \<and> shared u = s \<and> quiet u"
  using assms(2)
proof cases
  case db_thread
  show ?thesis
    by (rule quiet_move [OF assms(1), of Pamd_db]) (use db_thread in \<open>auto intro: threads_step.db_moves\<close>)
next
  case (event_thread env)
  show ?thesis
    by (rule quiet_move [OF assms(1), of Pamd_event]) (use event_thread in \<open>auto intro: threads_step.event_moves\<close>)
next
  case shutdown_thread
  then show ?thesis by (rule quiet_shutdown [OF assms(1)])
next
  case signal
  then show ?thesis using quiet_signal [OF assms(1)] by simp
next
  case spurious_pop
  then show ?thesis using assms(1) threads_step.spurious_pop [of t lib]
    by (intro exI [of _ "t\<lparr>shared := s\<rparr>"]) (auto simp: quiet_def)
next
  case spurious_shutdown
  then show ?thesis using assms(1) threads_step.spurious_shutdown [of t lib]
    by (intro exI [of _ "t\<lparr>shared := s\<rparr>"]) (auto simp: quiet_def)
qed

lemma reachable_shared:
  assumes "threads_reachable lib (pamd_threads_init s0) t"
  shows "pamd_reachable lib s0 (shared t) \<and> threads_ok t"
proof -
  have "pamd_reachable lib s0 s" if "rtranclp (pamd_step lib) s0 s" for s
    using that by induction (auto intro: pamd_reachable.intros)
  moreover have "threads_ok (pamd_threads_init s0)" by (simp add: threads_ok_def)
  from pamd_shared.reach [OF assms this] have "rtranclp (pamd_step lib) s0 (shared t) \<and> threads_ok t" by simp
  ultimately show ?thesis by simp
qed

lemma shared_reachable:
  assumes "pamd_reachable lib s0 s"
  shows "\<exists>t. threads_reachable lib (pamd_threads_init s0) t \<and> shared t = s \<and> quiet t"
  using assms
proof induction
  case start
  then show ?case by (intro exI [of _ "pamd_threads_init s0"]) (simp add: quiet_def)
next
  case (step s u)
  then obtain t where t: "threads_reachable lib (pamd_threads_init s0) t" "shared t = s" "quiet t" by blast
  with quiet_step [OF t(3), of lib u] step.hyps(2) show ?case by (blast intro: rtranclp_trans)
qed

section \<open>Signals that hang the daemon\<close>

text \<open>
  The shutdown thread was interrupted while it holds \<open>shutdown_mutex\<close>, or it holds the mutex and
  needs the lock of the queue from a thread that was interrupted.
\<close>

definition hung :: "pamd_threads \<Rightarrow> bool" where
  "hung t \<longleftrightarrow> Pamd_shutdown \<in> interrupted t \<and> \<not> sh_mutex_free t \<or>
     sh_pc (shared t) \<in> {Sh_woken, Sh_interrupt} \<and> (\<exists>th \<in> interrupted t. queue_owner t = Some th)"

lemma shutdown_steps:
  assumes "shutdown_thread_step s = Step t"
  shows "(sh_pc s, sh_pc t) \<in> {(Sh_start, Sh_wait), (Sh_woken, Sh_interrupt), (Sh_interrupt, Sh_done)}"
  using assms by (cases "sh_pc s") (auto simp: shutdown_thread_step_def)

lemma hung_step:
  assumes "threads_step lib t u" "hung t"
  shows "hung u"
  using assms(1)
proof cases
  case (db_moves s)
  with db_keeps_others(1) [OF db_moves(3)] assms(2) show ?thesis
    by (auto simp: hung_def sh_mutex_free_def can_move_def)
next
  case (event_moves env s)
  with event_keeps_others(1) [OF event_moves(3)] assms(2) show ?thesis
    by (auto simp: hung_def sh_mutex_free_def can_move_def)
next
  case (shutdown_moves s)
  with shutdown_steps [OF shutdown_moves(3)] assms(2) show ?thesis
    by (auto simp: hung_def sh_mutex_free_def can_move_def at_queue_def)
qed (use assms(2) in \<open>auto simp: hung_def sh_mutex_free_def handle_termination_def\<close>)

lemma hung_stays:
  assumes "threads_reachable lib t u" "hung t"
  shows "hung u"
  using assms by induction (auto intro: hung_step)

lemma hung_not_done: "threads_ok t \<Longrightarrow> hung t \<Longrightarrow> sh_pc (shared t) \<noteq> Sh_done"
  by (auto simp: hung_def sh_mutex_free_def threads_ok_def)

section \<open>Otherwise it can end\<close>

lemma finite_threads: "finite (A :: pamd_thread set)"
proof -
  have "A \<subseteq> {Pamd_main, Pamd_db, Pamd_event, Pamd_shutdown}"
    using pamd_thread.exhaust by blast
  then show ?thesis by (rule finite_subset) simp
qed

text \<open>While \<open>shutdown_mutex\<close> is free every handler can end.\<close>

lemma handlers_end:
  assumes "sh_mutex_free t"
  shows "\<exists>u. threads_reachable lib t u \<and> interrupted u = {} \<and> shared u = shared t \<and>
    queue_owner u = queue_owner t \<and> sh_locked u = sh_locked t"
  using assms
proof (induction "card (interrupted t)" arbitrary: t)
  case 0
  then show ?case using finite_threads [of "interrupted t"] by (intro exI [of _ t]) simp
next
  case (Suc n)
  then obtain th where th: "th \<in> interrupted t" by (metis card_eq_0_iff ex_in_conv nat.distinct(1))
  let ?u = "t\<lparr>interrupted := interrupted t - {th}, sh_broadcast := (sh_broadcast t \<or> sh_pc (shared t) = Sh_wait)\<rparr>"
  have st: "threads_step lib t ?u" using th Suc.prems by (rule handler_moves)
  have "n = card (interrupted ?u)" "sh_mutex_free ?u"
    using Suc.hyps(2) Suc.prems th finite_threads by (simp_all add: sh_mutex_free_def)
  from Suc.hyps(1) [OF this] obtain v where "threads_reachable lib ?u v" "interrupted v = {}"
    "shared v = shared t" "queue_owner v = queue_owner t" "sh_locked v = sh_locked t"
    by auto
  with st show ?case by (blast intro: converse_rtranclp_into_rtranclp)
qed

text \<open>A thread that holds the lock of the queue and is not interrupted can leave its section.\<close>

lemma queue_released:
  assumes "threads_ok t" "queue_ok ps (shared t)" "queue_owner t = Some th" "th \<notin> interrupted t" "th \<noteq> Pamd_shutdown"
  shows "\<exists>u. threads_step lib t u \<and> queue_owner u = None \<and> interrupted u = interrupted t \<and>
    sh_locked u = sh_locked t \<and> sh_pc (shared u) = sh_pc (shared t)"
proof -
  have at_q: "at_queue th (shared t)" using assms(1,3) by (simp add: threads_ok_def)
  have can: "can_move th t" using assms(3-5) by (simp add: can_move_def)
  show ?thesis
  proof (cases th)
    case Pamd_db
    with at_q have "db_pc (shared t) = Db_pop \<or> db_pc (shared t) = Db_woken" by (simp add: at_queue_def)
    then have "db_thread_step lib (shared t) \<noteq> Blocked"
      by (auto simp: db_thread_step_def db_take_def split: option.splits prod.splits)
    then obtain s where s: "db_thread_step lib (shared t) = Step s"
      using db_no_crash [OF assms(2), of lib] by (cases "db_thread_step lib (shared t)") auto
    have "threads_step lib t (moved Pamd_db s t)" using can Pamd_db s by (auto intro: db_moves)
    then show ?thesis using Pamd_db assms(3) db_keeps_others(1) [OF s]
      by (intro exI [of _ "moved Pamd_db s t"]) simp
  next
    case Pamd_event
    with at_q obtain d w where p: "ev_pc (shared t) = Ev_push d w" by (auto simp: at_queue_def)
    let ?env = "ev_good []"
    have "event_thread_step ?env (shared t) \<noteq> Crash"
      using event_crash [OF assms(2), of ?env] by (auto simp: ev_good_def)
    moreover have "event_thread_step ?env (shared t) \<noteq> Blocked"
      using p by (auto simp: event_thread_step_def event_push_def split: option.splits prod.splits attempt.splits if_splits)
    ultimately obtain s where s: "event_thread_step ?env (shared t) = Step s"
      by (cases "event_thread_step ?env (shared t)") auto
    have "threads_step lib t (moved Pamd_event s t)" using can Pamd_event s by (auto intro: event_moves)
    then show ?thesis using Pamd_event assms(3) event_keeps_others(1) [OF s]
      by (intro exI [of _ "moved Pamd_event s t"]) simp
  qed (use at_q assms(5) in \<open>auto simp: at_queue_def\<close>)
qed

text \<open>The shutdown thread on its own.\<close>

lemma shutdown_one:
  assumes "can_move Pamd_shutdown t" "shutdown_thread_step (shared t) = Step s"
  shows "threads_step lib t (moved Pamd_shutdown s t)"
  using assms by (rule shutdown_moves)

definition sh_can_end :: "db_library \<Rightarrow> pamd_threads \<Rightarrow> bool" where
  "sh_can_end lib t \<longleftrightarrow> (\<exists>u. threads_reachable lib t u \<and> sh_pc (shared u) = Sh_done)"

lemma sh_can_end_step: "threads_step lib t u \<Longrightarrow> sh_can_end lib u \<Longrightarrow> sh_can_end lib t"
  unfolding sh_can_end_def by (blast intro: converse_rtranclp_into_rtranclp)

lemma sh_can_end_run: "threads_reachable lib t u \<Longrightarrow> sh_can_end lib u \<Longrightarrow> sh_can_end lib t"
  unfolding sh_can_end_def by (blast intro: rtranclp_trans)

lemma moved_can_end:
  assumes "Pamd_shutdown \<notin> interrupted t" "queue_owner t \<in> {None, Some Pamd_shutdown}"
  shows "sh_can_end lib t"
proof -
  have finished: "sh_can_end lib t" if "sh_pc (shared t) = Sh_done" for t
    using that unfolding sh_can_end_def by blast
  have interrupt: "sh_can_end lib t"
    if "sh_pc (shared t) = Sh_interrupt" "Pamd_shutdown \<notin> interrupted t" "queue_owner t \<in> {None, Some Pamd_shutdown}" for t
  proof -
    let ?t = "t\<lparr>queue_owner := Some Pamd_shutdown\<rparr>" and ?s = "data_ready ((shared t)\<lparr>sh_pc := Sh_done\<rparr>)"
    have "threads_step lib ?t (moved Pamd_shutdown ?s ?t)"
      by (rule shutdown_moves) (use that in \<open>auto simp: can_move_def shutdown_thread_step_def\<close>)
    moreover have "sh_can_end lib (moved Pamd_shutdown ?s ?t)" by (rule finished) simp
    ultimately have "sh_can_end lib ?t" by (rule sh_can_end_step)
    moreover have "threads_step lib t ?t \<or> t = ?t"
      using that lock_queue [of Pamd_shutdown t lib] by (auto simp: at_queue_def)
    ultimately show ?thesis using sh_can_end_step by metis
  qed
  have woken: "sh_can_end lib t"
    if "sh_pc (shared t) = Sh_woken" "Pamd_shutdown \<notin> interrupted t" "queue_owner t \<in> {None, Some Pamd_shutdown}" for t
  proof -
    let ?u = "moved Pamd_shutdown ((shared t)\<lparr>is_running := False, sh_pc := Sh_interrupt\<rparr>) t"
    have "threads_step lib t ?u"
      by (rule shutdown_moves) (use that in \<open>auto simp: can_move_def shutdown_thread_step_def at_queue_def\<close>)
    moreover have "sh_can_end lib ?u" by (rule interrupt) (use that in auto)
    ultimately show ?thesis by (rule sh_can_end_step)
  qed
  have wait: "sh_can_end lib t"
    if "sh_pc (shared t) = Sh_wait" "Pamd_shutdown \<notin> interrupted t" "queue_owner t \<in> {None, Some Pamd_shutdown}" for t
    by (rule sh_can_end_step [OF spurious_shutdown [OF that(2,1)]], rule woken) (use that in auto)
  have start: "sh_can_end lib t"
    if "sh_pc (shared t) = Sh_start" "Pamd_shutdown \<notin> interrupted t" "queue_owner t \<in> {None, Some Pamd_shutdown}" for t
  proof -
    let ?t = "t\<lparr>sh_locked := True\<rparr>"
    let ?u = "moved Pamd_shutdown ((shared t)\<lparr>sh_pc := Sh_wait\<rparr>) ?t"
    have "threads_step lib t ?t" using that by (intro lock_shutdown)
    moreover have "threads_step lib ?t ?u"
      by (rule shutdown_moves) (use that in \<open>auto simp: can_move_def shutdown_thread_step_def at_queue_def\<close>)
    moreover have "sh_can_end lib ?u" by (rule wait) (use that in auto)
    ultimately show ?thesis by (meson sh_can_end_step)
  qed
  show ?thesis using assms finished start wait woken interrupt by (cases "sh_pc (shared t)") blast+
qed

lemma owner_can_end:
  assumes "threads_ok t" "queue_ok ps (shared t)" "Pamd_shutdown \<notin> interrupted t"
    "\<forall>th \<in> interrupted t. queue_owner t \<noteq> Some th"
  shows "sh_can_end lib t"
proof (cases "queue_owner t \<in> {None, Some Pamd_shutdown}")
  case False
  then obtain th where "queue_owner t = Some th" "th \<noteq> Pamd_shutdown" "th \<notin> interrupted t" using assms(4) by auto
  from queue_released [OF assms(1,2) this(1,3,2), of lib] assms(3) show ?thesis
    using moved_can_end sh_can_end_step by (metis insertI1)
qed (use assms(3) moved_can_end in blast)

lemma free_can_end:
  assumes "threads_ok t" "queue_ok ps (shared t)" "sh_mutex_free t"
  shows "sh_can_end lib t"
proof -
  obtain u where u: "threads_reachable lib t u" "interrupted u = {}" "shared u = shared t"
    using handlers_end [OF assms(3)] by blast
  have "threads_ok u" using pamd_shared.reach [OF u(1) assms(1)] by simp
  from owner_can_end [OF this, of ps lib] u(2,3) assms(2) have "sh_can_end lib u" by simp
  with u(1) show ?thesis by (rule sh_can_end_run)
qed

lemma not_hung_can_end:
  assumes "threads_ok t" "queue_ok ps (shared t)" "\<not> hung t"
  shows "sh_can_end lib t"
proof (cases "sh_mutex_free t")
  case False
  then have sh: "Pamd_shutdown \<notin> interrupted t" using assms(3) by (simp add: hung_def)
  show ?thesis
  proof (cases "sh_locked t")
    case True
    then have pc: "sh_pc (shared t) = Sh_start" using assms(1) by (simp add: threads_ok_def)
    let ?s = "(shared t)\<lparr>sh_pc := Sh_wait\<rparr>"
    have st: "threads_step lib t (moved Pamd_shutdown ?s t)"
      by (rule shutdown_moves) (use True sh pc in \<open>auto simp: can_move_def shutdown_thread_step_def at_queue_def\<close>)
    have "queue_ok ps ?s" using assms(2) by (simp add: queue_ok_def)
    with threads_ok_step [OF st assms(1)] have "sh_can_end lib (moved Pamd_shutdown ?s t)"
      by (intro free_can_end [of _ ps]) (simp_all add: sh_mutex_free_def)
    with st show ?thesis by (rule sh_can_end_step)
  next
    case locked: False
    then show ?thesis using False assms sh by (intro owner_can_end) (auto simp: hung_def sh_mutex_free_def)
  qed
qed (use free_can_end assms in blast)

section \<open>The properties\<close>




end
