(* ===== verification/Login_Path.thy ===== *)
theory Login_Path
  imports Pam_Callback Pamd_Properties Programs
begin

text \<open>
  The way of a login through the system: the callback (\<open>src/pam-daemon/iptracking-pam-callback.c\<close>)
  builds a record and sends it, the event daemon (\<open>src/pam-daemon/iptracking-pamd.c\<close>) takes it
  over, queues it and stores it with one of the four drivers.
\<close>

section \<open>The daemon's side\<close>

text \<open>The queue of a daemon that was started, when the configuration lets it grow.\<close>

lemma pamd_started_queue:
  assumes "pamd_program v dflt b m1 m2 stat_rc unlink_rc somaxconn files argv c0 = Went_on st (Started c h lq)"
    "log_pool_records_min c \<noteq> 0" "log_pool_records_delta c \<noteq> 0"
  shows "lq_inv lq" "lq_abs lq = []" "params_ok (params lq)"
    "records_limit (params lq) = (if log_pool_records_max c = 0 then 2 ^ 32 - 1 else unat (log_pool_records_max c))"
proof -
  obtain src opts where "pamd_main b m1 m2 stat_rc unlink_rc somaxconn src opts c0 = Started c h lq"
    using assms(1) by (auto simp: pamd_program_def split: prod.splits first_pass.splits)
  then obtain c1 e where m: "\<not> (log_pool_records_max c \<noteq> 0 \<and> log_pool_records_min c > log_pool_records_max c)"
    "log_queue_create m2 (Some (pamd_lq_params c)) = Some lq"
    by (rule pamd_main_started)
  then have "log_queue_create True (Some (pamd_lq_params c)) = Some lq"
    by (cases m2) (simp_all add: log_queue_create_def)
  note lq = create_inv_iff [OF this]
  show ok: "params_ok (params lq)" using lq(1) m(1) assms(2,3) by (auto simp: params_ok_def pamd_lq_params_def)
  then show "lq_inv lq" using lq(1,3) by simp
  show "lq_abs lq = []" by (rule lq(2))
  show "records_limit (params lq) = (if log_pool_records_max c = 0 then 2 ^ 32 - 1 else unat (log_pool_records_max c))"
    by (simp add: lq(1) records_limit_def pamd_lq_params_def)
qed

text \<open>One client delivers a record, then the database thread stores it.\<close>

lemma event_taken_over:
  assumes "event_received bytes = Some d" "lq_inv lq" "lq_abs lq = []" "0 < records_limit (params lq)"
  shows "\<exists>q. pamd_run lib (replicate 7 (Run_event (ev_good bytes))) (pamd_init h lq) =
      Some ((pamd_init h lq)\<lparr>ev_pc := Ev_listen, queue := q, socket_file := True, server_fds := 1, accepted := [d]\<rparr>) \<and>
    lq_inv q \<and> lq_abs q = [d]"
proof -
  let ?env = "ev_good bytes"
  let ?s = "(pamd_init h lq)\<lparr>socket_file := True, server_fds := 1, ev_pc := Ev_push d (wait_min (params lq), 1)\<rparr>"
  have run: "pamd_run lib (replicate 6 (Run_event ?env)) (pamd_init h lq) = Some ?s"
    by (simp add: numeral_eq_Suc pamd_init_def event_step_simps assms(1))
  have seven: "replicate 7 (Run_event ?env) = replicate 6 (Run_event ?env) @ [Run_event ?env]"
    by (simp add: numeral_eq_Suc)
  have "lq_inv (queue ?s)" using assms(2) by (simp add: pamd_init_def)
  then obtain q where q: "event_push ?env d (wait_min (params lq), 1) ?s =
      Step ((pamd_init h lq)\<lparr>ev_pc := Ev_listen, queue := q, socket_file := True, server_fds := 1, accepted := [d]\<rparr>)"
    "lq_inv q" "lq_abs q = [d]"
    by (cases rule: event_push_cases [where env = ?env and d = d and w = "(wait_min (params lq), 1)"])
      (use assms in \<open>auto simp: pamd_init_def ev_good_def data_ready_def\<close>)
  have "pamd_run lib (replicate 7 (Run_event ?env)) (pamd_init h lq) = pamd_run lib [Run_event ?env] ?s"
    unfolding seven pamd_run_append run by simp
  then show ?thesis using q by (intro exI [of _ q]) (simp add: event_thread_step_def outcome_state_def)
qed

lemma event_stored:
  assumes "event_received bytes = Some d" "lq_inv lq" "lq_abs lq = []" "0 < records_limit (params lq)"
    "db_open lib \<lparr>calls = [], inst = Some h, err = Some None\<rparr> = (True, w)" "db_log_one_event lib d w = (True, w')"
  shows "\<exists>s. pamd_run lib (replicate 7 (Run_event (ev_good bytes)) @ replicate 5 Run_db) (pamd_init h lq) = Some s \<and>
    accepted s = [d] \<and> logged s = [(d, True)] \<and> db s = w'"
proof -
  obtain q where q: "pamd_run lib (replicate 7 (Run_event (ev_good bytes))) (pamd_init h lq) =
      Some ((pamd_init h lq)\<lparr>ev_pc := Ev_listen, queue := q, socket_file := True, server_fds := 1, accepted := [d]\<rparr>)"
    "lq_inv q" "lq_abs q = [d]"
    using event_taken_over [OF assms(1-4)] by blast
  let ?s = "(pamd_init h lq)\<lparr>ev_pc := Ev_listen, queue := q, socket_file := True, server_fds := 1, accepted := [d]\<rparr>"
  let ?t = "?s\<lparr>db := w, db_pc := Db_pop\<rparr>"
  have "pamd_run lib (replicate 3 Run_db) ?s = Some ?t"
    using assms(5) by (simp add: numeral_eq_Suc pamd_init_def db_thread_step_def outcome_state_def)
  moreover
  have "used_head q \<noteq> None" using q(2,3) lq_empty_head [of q] by simp
  moreover have "lq_inv (queue ?t)" using q(2) by simp
  then obtain q' where "db_take ?t = Step (?t\<lparr>queue := q', db_pc := Db_log d\<rparr>)"
    by (cases rule: db_take_cases) (use q(3) in auto)
  ultimately have "pamd_run lib (replicate 3 Run_db @ replicate 2 Run_db) ?s =
      Some (?t\<lparr>queue := q', db := w', logged := [(d, True)], db_pc := Db_loop\<rparr>)"
    unfolding pamd_run_append using assms(6)
    by (simp add: numeral_eq_Suc db_thread_step_def outcome_state_def) (simp add: pamd_init_def)
  moreover have "replicate 5 Run_db = replicate 3 Run_db @ replicate 2 Run_db" by (simp add: numeral_eq_Suc)
  ultimately show ?thesis unfolding pamd_run_append q(1) by (simp add: pamd_run_append)
qed

lemma subseq_one: "subseq xs [d] \<Longrightarrow> d \<in> set xs \<Longrightarrow> xs = [d]"
  by (cases xs) (auto split: if_splits)

section \<open>The row of a login\<close>

text \<open>The columns: both addresses, the port, the event's name, the process, the user and the time.\<close>

definition login_columns :: "cstr \<Rightarrow> cstr \<Rightarrow> nat \<Rightarrow> cstr \<Rightarrow> 32 word \<Rightarrow> cstr \<Rightarrow> cstr \<Rightarrow> cstr list" where
  "login_columns dst src port type pid user now =
     [dst, src, show_nat port, event_text (log_event_parse_str type), show_int (sint pid), user, now]"

text \<open>What each driver makes of them; SQLite gets numbers, and the event's number.\<close>

fun login_row :: "db_handle \<Rightarrow> cstr \<Rightarrow> cstr \<Rightarrow> nat \<Rightarrow> cstr \<Rightarrow> 32 word \<Rightarrow> cstr \<Rightarrow> cstr \<Rightarrow> stored_row" where
  "login_row (Db_csvfile i) dst src port type pid user now =
     Row_csvfile (join_with (delimiter i) (login_columns dst src port type pid user now) @ [CHR 0x0A])"
| "login_row (Db_postgresql i) dst src port type pid user now =
     Row_postgresql (map Some (login_columns dst src port type pid user now))"
| "login_row (Db_mysql i) dst src port type pid user now =
     Row_mysql (login_columns dst src port type pid user now)"
| "login_row (Db_sqlite3 i) dst src port type pid user now =
     Row_sqlite3 (map Some [Sql_text dst, Sql_text src, Sql_int (int port), Sql_int (uint (log_event_parse_str type)),
       Sql_int (sint pid), Sql_text user, Sql_text now])"

lemma login_row_of_record:
  assumes "\<forall>s \<in> {dst, src, user, now}. nul \<notin> set s" "length dst < sizeof_ipaddr" "length src < sizeof_ipaddr"
    "port < 2 ^ 16" "length user < sizeof_uid" "length now < sizeof_log_date"
  shows "db_row (Some h) \<lparr>dst_ipaddr = c_strncpy sizeof_ipaddr dst, src_ipaddr = c_strncpy sizeof_ipaddr src,
      src_port = of_nat port, event = log_event_parse_str type, sshd_pid = pid,
      uid = c_strncpy sizeof_uid user, log_date = c_strncpy sizeof_log_date now\<rparr> =
    login_row h dst src port type pid user now"
proof -
  have port: "unat (of_nat port :: 16 word) = port" "uint (of_nat port :: 16 word) = int port"
    using assms(4) by (simp_all add: unat_of_nat_small uint_nat)
  have fields: "cstr_of (c_strncpy sizeof_ipaddr dst) = dst" "cstr_of (c_strncpy sizeof_ipaddr src) = src"
    "cstr_of (c_strncpy sizeof_uid user) = user" "cstr_of (c_strncpy sizeof_log_date now) = now"
    using assms by (simp_all add: cstr_of_strncpy)
  have ev: "log_event_to_str (log_event_parse_str type) = Some (event_text (log_event_parse_str type))"
    using log_event_parse_str_defined [of type] by (auto simp: event_text_def)
  have "show_int (int port) = show_nat port" by (simp add: show_int_def)
  with port fields ev show ?thesis
    by (cases h)
      (simp_all add: db_row_def csv_line_def csv_fields_def pg_params_def mysql_params_def sqlite3_row_def login_columns_def)
qed


section \<open>A sample\<close>

text \<open>A daemon with a small configuration file and one option.\<close>

lemma pamd_plain_main:
  "\<exists>lq. pamd_main build_plain True True (- 1) 0 128 (Document firewalld_doc (Some firewalld_root)) [Opt_backlog ''7'']
      (pamd_config_default ''s'') =
    Started ((pamd_config_default ''s'')\<lparr>socket_backlog := 7\<rparr>) pamd_sample_db lq"
proof -
  have path: "yaml_helper_doc_node_at_path firewalld_doc (Some firewalld_root) ''pamd'' = None"
    using path_lookup [of "[''pamd'']" firewalld_doc firewalld_root]
    by (simp add: key_ok_def mapping_entry_def firewalld_doc_def firewalld_root_def)
  have "db_driver_lookup build_plain ''csvfile'' = Some Csvfile"
    by (simp add: db_driver_lookup_def db_drivers_def c_strcaseeq_def)
  then have db: "db_alloc build_plain True None firewalld_doc (Some (YAML_MAPPING_NODE [(4, 5), (6, 7)])) db_options_no_firewall =
      Allocated (Some pamd_sample_db)"
    by (simp add: db_alloc_def conf_node_def conf_scalar_def firewalld_doc_steps yaml_helper_get_scalar_value_def
        cstr_of_no_nul driver_alloc_def csvfile_alloc_def pamd_sample_db_def db_instance.defs db_instance_base_def)
  have "db_has_valid_configuration (Some pamd_sample_db) e = (True, e)" for e
    by (simp add: db_has_valid_configuration_def pamd_sample_db_def csvfile_has_valid_configuration_def)
  moreover have "show_int 7 = ''7''" by (simp add: show_int_def show_nat.simps)
  then have "c_strtol ''7'' = Some (7, [])" using c_strtol_show_int [of 7] by simp
  moreover have "pamd_read_section firewalld_doc (Some firewalld_root) c = (True, c)" for c
    by (simp add: pamd_read_section_def config_section_def path)
  ultimately show ?thesis
    by (simp add: pamd_main_def pamd_config_read_yaml_file_def config_read_source_def config_read_document_def
        config_database_def firewalld_doc_steps(1) db pamd_config_validate_def
        log_queue_create_def pamd_config_default_def firewalld_root_def [symmetric] split: yaml_node.splits)
      (simp add: firewalld_root_def)
qed

lemma pamd_plain_program:
  obtains st c lq where "pamd_program version_sample ''f.yml'' build_plain True True (- 1) 0 128
      (\<lambda>_. Document firewalld_doc (Some firewalld_root)) [''iptracking-pamd'', ''-b'', ''7''] (pamd_config_default ''s'') =
      Went_on st (Started c pamd_sample_db lq)"
    "log_pool_records_min c \<noteq> 0" "log_pool_records_delta c \<noteq> 0" "log_pool_records_max c = 0"
proof -
  let ?c = "(pamd_config_default ''s'')\<lparr>socket_backlog := 7\<rparr>"
  let ?given = "[(cli ''backlog'' True CHR ''b'', Some ''7'', Short)]"
  obtain lq where m: "pamd_main build_plain True True (- 1) 0 128 (Document firewalld_doc (Some firewalld_root))
      [Opt_backlog ''7''] (pamd_config_default ''s'') = Started ?c pamd_sample_db lq"
    using pamd_plain_main by blast
  have "\<forall>g \<in> set ?given. given_ok pamd_cli_options g" by (simp add: pamd_cli_options_def)
  from getopt_long_spelled [OF tables_ok(1) this, of "[]" "''iptracking-pamd''"] m
  have "pamd_program version_sample ''f.yml'' build_plain True True (- 1) 0 128
      (\<lambda>_. Document firewalld_doc (Some firewalld_root)) [''iptracking-pamd'', ''-b'', ''7''] (pamd_config_default ''s'') =
      Went_on (cli_verbosity [] 0 0 log_state_init) (Started ?c pamd_sample_db lq)"
    by (simp add: pamd_program_def first_pass_closed pamd_option_of_def ends_pass_def)
  then show thesis by (rule that) (simp_all add: pamd_config_default_def)
qed

lemma sample_delivered:
  "\<exists>d. callback_main ''/var/run/sock'' [] (ssh_login ''bob'' 22) ''2024-05-01 10:00:00'' 7 True
      [quiet_round True EINTR, quiet_round False (Sent sizeof_log_data)] = (Exit_code 0, Some d, [0 ..< sizeof_log_data])"
  by (subst callback_main_sends [where path = "''/var/run/sock''" and t = 5, OF _ _ sample_record])
    (simp_all add: send_turn_def quiet_round_def send_init_def)

lemma sample_db_logs:
  obtains w where "db_open pg_all_ok \<lparr>calls = [], inst = Some pamd_sample_db, err = Some None\<rparr> = (True, w)"
    "\<And>d. \<exists>w'. db_log_one_event pg_all_ok d w = (True, w')"
  by (simp add: db_open_def driver_open_def csvfile_open_def pamd_sample_db_def lib_call_def pg_all_ok_def
      at_def via_def db_log_one_event_def driver_log_one_event_def csvfile_log_one_event_def
      db_instance.defs db_instance_base_def db_options_isset_def lib_do_def)


end
