(* ===== verification/Spec2Isabelle.thy ===== *)
theory Spec2Isabelle
  imports Prelude C_Numbers Asprintf Chartest Log_Data Logging Yaml_Helpers Queue_Interface Log_Queue Log_Queue_Correct
    Pam_Callback Db_Instance Db_Driver Db_Csvfile Db_Sqlite3 Db_Mysql Db_Postgresql Db_Interface
    Daemon_Config Pamd_Config Pamd Pamd_Correct Pamd_Properties Pamd_Refinement Ipset_Helper Firewall_Update
    Firewall_Properties Helper_Programs Firewall_Race Firewalld_Config Firewalld Firewalld_Handlers
    Firewalld_Shutdown Command_Line Programs Pamd_Signals Login_Path
begin

text \<open>
  A verification of iptracking, a system that records logins in a database and blocks addresses
  from it in the kernel's firewall. All paths are below \<open>src\<close>.

  \<^bold>\<open>The program.\<close> \<open>pam-daemon/iptracking-pam-callback.c\<close> runs in PAM's stack: it builds a
  fixed-size record from its environment (\<open>libiptracking/log_data.c\<close>) and sends its 128 bytes over
  a Unix socket. \<open>pam-daemon/iptracking-pamd.c\<close> receives, checks and queues the records
  (\<open>pam-daemon/log_queue.c\<close>) and stores them through \<open>libiptracking/db_interface.c\<close>, which
  dispatches to one of four drivers (\<open>libiptracking/db_drivers\<close>).
  \<open>firewall-daemon/iptracking-firewalld.c\<close> reads the block list through the same interface, on a
  timer and on the database's notifications, and rebuilds a kernel set through
  \<open>firewall-daemon/ipset_helper.c\<close>. Both daemons read a YAML file
  (\<open>libiptracking/yaml_helpers.c\<close>).

  \<^bold>\<open>Theories.\<close>
  \<^item> \<open>Prelude\<close>: C characters, strings, buffers, decimal digits, words, error messages.
    \<open>C_Numbers\<close>: \<open>strtol\<close>. \<open>Asprintf\<close>: \<open>asprintf.c\<close>.
  \<^item> \<open>Chartest\<close> (\<open>chartest.c\<close>), \<open>Log_Data\<close> (\<open>log_data.c\<close>: record, memory image, validity,
    parser), \<open>Logging\<close> (\<open>logging.c\<close> and the options that set the level), \<open>Yaml_Helpers\<close>
    (\<open>yaml_helpers.c\<close>, over a document given as a table of nodes).
  \<^item> \<open>Queue_Interface\<close>: the contract of a queue as a locale. \<open>Log_Queue\<close>: \<open>log_queue.c\<close> over an
    explicit heap of records, where an invalid access is \<open>None\<close>. \<open>Log_Queue_Correct\<close>: its
    invariant (two disjoint chains, counters, limit), that every operation keeps it, and the
    interpretation of the contract.
  \<^item> \<open>Pam_Callback\<close>: \<open>iptracking-pam-callback.c\<close> behind its options, with the rounds of the system's answers as
    input.
  \<^item> \<open>Db_Instance\<close>: the base of an instance and the library calls; a client library is a function
    from the calls before and the call to a reply. \<open>Db_Driver\<close>: the contract of a driver and of a
    block list cursor as locales. \<open>Db_Csvfile\<close>, \<open>Db_Sqlite3\<close>, \<open>Db_Mysql\<close>, \<open>Db_Postgresql\<close>: one
    driver each, every callback and, for PostgreSQL, the notification thread, with their
    interpretations. \<open>Db_Interface\<close>: \<open>db_interface.c\<close>; the interface keeps the drivers' contract.
  \<^item> \<open>Daemon_Config\<close>: what the two configuration readers share. \<open>Pamd_Config\<close>: the event daemon
    up to its threads. \<open>Pamd\<close>: its threads as a step relation; \<open>Pamd_Correct\<close>: the invariants
    and their preservation; \<open>Pamd_Properties\<close>: schedules and the daemon's properties;
    \<open>Pamd_Refinement\<close>: an abstract delivery of events, the simulation and the progress of the
    database thread; \<open>Pamd_Signals\<close>: the locks as steps of their own and the signal handler inside the
    thread it interrupts, that this reaches the same shared states, and when a signal hangs the
    daemon.
  \<^item> \<open>Ipset_Helper\<close>: \<open>ipset_helper.c\<close> in both variants, what libipset documents of its commands
    as the effect of a call that returned 0, and the contract of the helper as locales.
    \<open>Firewall_Update\<close>: the timer's and the notification's handler; \<open>Firewall_Properties\<close>: what
    each does to the production set. \<open>Helper_Programs\<close>: the same update as a program whose steps
    are single calls of libipset, and that it computes what the handlers do; \<open>Firewall_Race\<close>: two
    such programs at the same time, call by call, on one session.
    \<open>Firewalld_Config\<close>: the daemon up to its threads; \<open>Firewalld\<close>: its threads as a step
    relation over these programs, the two locks, the signal handler inside the thread it
    interrupts, and the end of \<open>main\<close>; \<open>Firewalld_Handlers\<close>: the threads have the handlers' runs;
    \<open>Firewalld_Shutdown\<close>: when the daemon can end, and when a signal hangs it.
  \<^item> \<open>Command_Line\<close>: \<open>getopt_long\<close> with its permutation, and that the spelling of an option does
    not matter; \<open>Programs\<close>: the option tables, the help texts and the two passes of the three
    programs over \<open>argv\<close>.
  \<^item> \<open>Login_Path\<close>: an SSH login from the callback's environment to the row in the database.
  \<^item> this theory: the ways through the system, from the table in any of the three databases to
    the set in the kernel, from the callback to the event daemon, and both daemons from their
    command line through all their runs.

  \<^bold>\<open>Correspondence.\<close> Definitions carry the names of the C functions, without leading
  underscores and with a driver's or daemon's prefix where two files use one name. A structure is
  a record, NULL is \<open>None\<close>, \<open>uint16_t\<close>, \<open>uint32_t\<close> and \<open>pid_t\<close> are words, \<open>int\<close> and \<open>long\<close> are
  integers with the range written out where it matters. A \<open>const char **error_msg\<close> parameter is
  the type \<open>errp\<close>. Static variables of a daemon are its configuration record. A thread is a
  program counter and a function from the shared state to the next; a step of a daemon is a step
  of one thread, a signal, a timeout or a spurious wakeup. In the event daemon a critical section
  of the queue is one step, in front of which its thread takes the lock and may be interrupted
  (\<open>Pamd_Signals\<close>); \<open>realloc\<close> may move the queue, and a thread that waits inside it is
  then an invalid access. In the firewall daemon a step of an update is one call of libipset; the
  reading of the block list is one step, in front of the calls that add its entries.

  \<^bold>\<open>Fuel and bounds.\<close> \<open>collect\<close> and \<open>update_loop\<close> take fuel for the enumeration of the block
  list; \<open>None\<close> is fuel that was used up. A table of \<open>n\<close> rows needs \<open>n + 1\<close>, which
  the drivers' theorems and the first one below ask for and prove enough. The loops over a
  queue's chains take the number of records the invariant bounds. The endless loops (sending,
  pushing, the threads) run over a list of the environment's answers, one per turn; the
  theorems quantify over all of them.

  \<^bold>\<open>Hypotheses on code that is not in the repository.\<close> \<open>names_decided\<close>: whether libipset
  accepts a set's name depends on the name only. \<open>sets_needed\<close>: the kernel refuses to swap or
  rename a set that does not exist, and to destroy all sets while the rules refer to one.
  \<open>pg_result\<close> and its like: the client library delivers the rows of one table. Each is
  instantiated by a concrete library in a witness; \<open>kernel_library\<close> computes the answers of a
  kernel from the sets there are. \<open>getopt_long\<close> is that of the GNU library without
  \<open>POSIXLY_CORRECT\<close>.

  \<^bold>\<open>Not modelled.\<close> The format of messages beyond the line \<open>logging_printf\<close> writes, libyaml's
  parser (a document is an input), the failure of \<open>pthread_create\<close> and of the mutex operations
  other than the one the code looks at, a thread that waits for the lock of a queue that
  \<open>realloc\<close> moves meanwhile, two threads inside one call of libipset or of a database client at
  the same time, the output callbacks libipset is given (they do nothing), build files, SQL
  schemas and the maintenance script. The event thread ends the process when the path of the
  socket is too long (\<open>event_path_ok\<close>); the step relation starts behind that check.
\<close>

section \<open>From the database to the block set\<close>

text \<open>Reading through the interface is reading through the driver.\<close>

lemma enum_next_wrapped:
  "db_blocklist_enum_next lib (at (Some (Enum_postgresql (inst s))) s) =
     (fst (pg_enum_next lib s), at (Some (Enum_postgresql (inst (snd (pg_enum_next lib s))))) (snd (pg_enum_next lib s)))"
  "db_blocklist_enum_next lib (at (Some (Enum_sqlite3 (inst t))) t) =
     (fst (sqlite3_enum_next lib t), at (Some (Enum_sqlite3 (inst (snd (sqlite3_enum_next lib t))))) (snd (sqlite3_enum_next lib t)))"
  "db_blocklist_enum_next lib (at (Some (Enum_mysql (inst u))) u) =
     (fst (mysql_enum_next lib u), at (Some (Enum_mysql (inst (snd (mysql_enum_next lib u))))) (snd (mysql_enum_next lib u)))"
  by (simp_all add: db_blocklist_enum_next_def via_def split: prod.split)

lemma collect_by_driver:
  "collect fuel (db_blocklist_enum_next lib) (at (Some (Enum_postgresql (inst s))) s) =
    map_option (\<lambda>(xs, s'). (xs, at (Some (Enum_postgresql (inst s'))) s')) (collect fuel (pg_enum_next lib) s)"
  "collect fuel (db_blocklist_enum_next lib) (at (Some (Enum_sqlite3 (inst t))) t) =
    map_option (\<lambda>(xs, s'). (xs, at (Some (Enum_sqlite3 (inst s'))) s')) (collect fuel (sqlite3_enum_next lib) t)"
  "collect fuel (db_blocklist_enum_next lib) (at (Some (Enum_mysql (inst u))) u) =
    map_option (\<lambda>(xs, s'). (xs, at (Some (Enum_mysql (inst s'))) s')) (collect fuel (mysql_enum_next lib) u)"
  by (rule collect_wrapped, rule enum_next_wrapped)+

lemma collect_pg:
  "collect fuel (db_blocklist_enum_next lib) (at (Some (Enum_postgresql en)) s) =
    map_option (\<lambda>(xs, s'). (xs, at (Some (Enum_postgresql (inst s'))) s')) (collect fuel (pg_enum_next lib) (at en s))"
  using collect_by_driver(1) [of fuel lib "at en s"] by simp

lemma pg_collect_table:
  assumes "pg_result lib table" "length table < fuel"
  shows "\<exists>t. collect fuel (pg_enum_next lib) (at \<lparr>pg_i = 0, pg_i_max = length table\<rparr> e) = Some (table, t)"
proof -
  let ?e = "at \<lparr>pg_i = 0, pg_i_max = length table\<rparr> e"
  have "pg_enum_ok lib table ?e" "pg_enum_remaining table ?e = map Some table"
    using assms(1) by (simp_all add: pg_enum_ok_def pg_enum_remaining_def)
  moreover have "map the (takeWhile (\<lambda>r. r \<noteq> None) (map Some table)) = table"
    by (simp add: takeWhile_map comp_def)
  ultimately show ?thesis using pg_list.collect_rows [of lib table ?e fuel] assms(2) by auto
qed

lemma pg_table_read:
  assumes "inst s = Some (Db_postgresql i)" "\<not> db_options_isset (options i) db_options_no_firewall"
    "pg_choose_conn False i = Some conn" "pg_result lib table" "\<forall>h. ret (lib h Malloc) \<noteq> 0"
    "\<forall>h. ret (lib h (PQexec conn (pg_blocklist_stmt_query (firewall_schema i)))) = PGRES_TUPLES_OK"
    "length table < fuel"
  shows "\<exists>w. blocklist_read fuel lib s = Some (table, w)"
proof (cases "table = []")
  case True
  with assms have "\<exists>w. db_blocklist_enum_open lib (s\<lparr>err := Some None\<rparr>) = (None, w)"
    by (simp add: db_blocklist_enum_open_def driver_blocklist_enum_open_def pg_enum_open_def lib_call_def pg_result_def)
  with True show ?thesis by (auto simp: blocklist_read_def)
next
  case False
  let ?h = "calls s @ [Malloc, PQexec conn (pg_blocklist_stmt_query (firewall_schema i)), PQntuples, Malloc]"
  let ?en = "\<lparr>pg_i = 0, pg_i_max = length table\<rparr>"
  let ?e = "at ?en \<lparr>calls = ?h, inst = i, err = Some None\<rparr>"
  have o: "db_blocklist_enum_open lib (s\<lparr>err := Some None\<rparr>) =
      (Some (Enum_postgresql ?en), at (Some (Db_postgresql i)) \<lparr>calls = ?h, inst = i, err = Some None\<rparr>)"
    using assms(1-6) False
    by (simp add: db_blocklist_enum_open_def driver_blocklist_enum_open_def pg_enum_open_def lib_call_def pg_result_def at_def)
  obtain t where "collect fuel (pg_enum_next lib) ?e = Some (table, t)"
    using pg_collect_table [OF assms(4,7)] by blast
  then show ?thesis using o collect_pg [of fuel lib ?en "\<lparr>calls = ?h, inst = i, err = Some None\<rparr>"]
    by (simp add: blocklist_read_def)
qed

lemma kernel_rebuild:
  assumes "session h" "name_rebuild cf \<noteq> name_prod cf"
  shows "\<exists>h'. firewall_rebuild (session_backend (kernel_library S0)) cf xs h = Some (Some (filter (\<lambda>x. x \<noteq> []) xs, 0), h') \<and>
    ipset_sets S0 h' (name_prod cf) = Some (set xs - {[]})"
proof -
  let ?lib = "kernel_library S0" and ?n = "name_rebuild cf" and ?p = "name_prod cf"
  obtain h1 where c: "session_create ?lib ?n (snd (session_destroy ?lib ?n h)) = (0, h1)" "session h1" "set_type h1"
    "ipset_sets S0 h1 ?n = Some {}"
    using kernel_recreate [OF assms] by blast
  obtain h2 where a: "add_entries (session_add ?lib ?n) xs h1 = Some (filter (\<lambda>x. x \<noteq> []) xs, h2)" "session h2"
    using kernel_add_entries [OF c(2,3), of S0 ?n xs] c(4) by auto
  have s2: "ipset_sets S0 h2 ?n = Some (set xs - {[]})"
    using ses.add_entries_sets [where xs = xs, OF conjI [OF c(2) kernel_names_decided [of S0]] c(3,4)] a(1) by auto
  obtain rc h3 where "session_activate ?lib ?n ?p h2 = (rc, h3)" "rc = 0" "ipset_sets S0 h3 ?p = Some (set xs - {[]})"
    using kernel_activation [OF a(2) assms(2), of S0] s2 by auto
  with c a show ?thesis by (simp add: firewall_rebuild_def)
qed

text \<open>A kernel in which nothing fails fills the set with the whole list.\<close>

lemma timer_turn_blocks:
  assumes "blocklist_read fuel lib (the_db s) = Some (table, w)" "session (helper s)" "name_rebuild cf \<noteq> name_prod cf"
  shows "\<exists>s'. timer_turn fuel (session_backend (kernel_library S0)) lib cf ETIMEDOUT now s = Some s' \<and>
    ipset_sets S0 (helper s') (name_prod cf) = Some (set table - {[]}) \<and>
    timer_abstime s' = now + int (unat (check_interval cf))"
proof -
  obtain h' where h': "firewall_rebuild (session_backend (kernel_library S0)) cf table (helper s) =
      Some (Some (filter (\<lambda>x. x \<noteq> []) table, 0), h')"
    "ipset_sets S0 h' (name_prod cf) = Some (set table - {[]})"
    using kernel_rebuild [OF assms(2,3)] by blast
  from timer_turn_rebuild [OF assms(1), of "session_backend (kernel_library S0)" cf now] h' show ?thesis
    by (simp add: reset_timer_def)
qed

text \<open>From the start of the threads to the first timeout.\<close>

lemma first_timeout:
  "firewalld_reachable ps lib dblib cf (firewalld_init s reg) ((firewalld_init s reg)\<lparr>timer_pc := Ti_woken ETIMEDOUT\<rparr>)"
proof -
  let ?i = "firewalld_init s reg" and ?step = "firewalld_step ps lib dblib cf"
  note mv = timer_moves [where ps = ps and lib = lib and dblib = dblib and cf = cf and fuel = 0 and now = 0]
  have "?step ?i (?i\<lparr>timer_pc := Ti_lock\<rparr>)" by (rule mv) (simp_all add: timer_thread_step_def)
  moreover have "?step (?i\<lparr>timer_pc := Ti_lock\<rparr>) (?i\<lparr>timer_pc := Ti_wait\<rparr>)"
    by (rule mv) (simp_all add: timer_thread_step_def timer_mutex_free_def timer_holds_def)
  moreover have "?step (?i\<lparr>timer_pc := Ti_wait\<rparr>) ((?i\<lparr>timer_pc := Ti_wait\<rparr>)\<lparr>timer_pc := Ti_awake ETIMEDOUT\<rparr>)"
    by (rule timeout [where now = "timer_abstime ?i"]) simp_all
  moreover have "?step (?i\<lparr>timer_pc := Ti_awake ETIMEDOUT\<rparr>) (?i\<lparr>timer_pc := Ti_woken ETIMEDOUT\<rparr>)"
    by (rule mv) (simp_all add: timer_thread_step_def timer_mutex_free_def timer_holds_def)
  ultimately show ?thesis by (auto intro: converse_rtranclp_into_rtranclp)
qed

text \<open>
  C1: the whole way from the table to the rules. With a PostgreSQL database that answers the block
  list query with a table, and a kernel in which nothing fails, one periodic update makes the
  production set exactly the addresses of the table, whatever the sets held before, and sets the
  next wake-up; and the daemon, from the start of its threads, can make it by the steps of its
  timer thread, call by call.
\<close>

theorem firewall_blocks_table:
  assumes "inst (the_db s) = Some (Db_postgresql i)" "\<not> db_options_isset (options i) db_options_no_firewall"
    "pg_choose_conn False i = Some conn" "pg_result lib table" "\<forall>h. ret (lib h Malloc) \<noteq> 0"
    "\<forall>h. ret (lib h (PQexec conn (pg_blocklist_stmt_query (firewall_schema i)))) = PGRES_TUPLES_OK"
    "length table < fuel" "session (helper s)" "name_rebuild cf \<noteq> name_prod cf"
  shows "\<exists>s'. timer_turn fuel (session_backend (kernel_library S0)) lib cf ETIMEDOUT now s = Some s' \<and>
    ipset_sets S0 (helper s') (name_prod cf) = Some (set table - {[]}) \<and>
    timer_abstime s' = now + int (unat (check_interval cf)) \<and>
    (\<exists>t. firewalld_reachable session_programs (kernel_library S0) lib cf (firewalld_init s reg) t \<and>
       timer_pc t = Ti_check \<and> updates t = 1 \<and> helper t = helper s' \<and> timer_abstime t = timer_abstime s')"
proof -
  let ?i = "(firewalld_init s reg)\<lparr>timer_pc := Ti_woken ETIMEDOUT\<rparr>"
  obtain w where w: "blocklist_read fuel lib (the_db s) = Some (table, w)"
    using pg_table_read [OF assms(1-7)] by blast
  obtain s' where s': "timer_turn fuel (session_backend (kernel_library S0)) lib cf ETIMEDOUT now s = Some s'"
    "ipset_sets S0 (helper s') (name_prod cf) = Some (set table - {[]})"
    "timer_abstime s' = now + int (unat (check_interval cf))"
    using timer_turn_blocks [OF w assms(8,9)] by blast
  have "firewall_state.truncate ?i = s"
    by (simp add: firewalld_init_def firewall_state.defs)
  then have "firewalld_reachable session_programs (kernel_library S0) lib cf ?i
      ((with_update s' ?i)\<lparr>timer_pc := Ti_check, updates := updates ?i + 1\<rparr>)" (is "firewalld_reachable _ _ _ _ _ ?t")
    by (intro timer_turn_steps [OF disjI1 [OF refl] session_runs, where fuel = fuel and now = now]) (simp_all add: s')
  with first_timeout have "firewalld_reachable session_programs (kernel_library S0) lib cf (firewalld_init s reg) ?t"
    by (rule rtranclp_trans)
  with s' show ?thesis by (intro exI [of _ s'] exI [of _ ?t] conjI) (simp_all add: with_update_def)
qed

theorem firewall_blocks_table_witness:
  "\<exists>t. firewalld_reachable session_programs (kernel_library blocked_one) pg_two_rows conf_ab
      (firewalld_init firewall_sample True) t \<and>
    ipset_sets blocked_one (helper t) ''b'' = Some {''10.0.0.1'', ''10.0.0.2''} \<and> timer_abstime t = 1300"
proof -
  have r: "pg_result pg_two_rows [''10.0.0.1'', ''10.0.0.2'']"
    by (simp add: pg_result_def pg_two_rows_def)
  have "\<exists>s'. timer_turn 3 (session_backend (kernel_library blocked_one)) pg_two_rows conf_ab ETIMEDOUT 1000 firewall_sample = Some s' \<and>
    ipset_sets blocked_one (helper s') (name_prod conf_ab) = Some (set [''10.0.0.1'', ''10.0.0.2''] - {[]}) \<and>
    timer_abstime s' = 1000 + int (unat (check_interval conf_ab)) \<and>
    (\<exists>t. firewalld_reachable session_programs (kernel_library blocked_one) pg_two_rows conf_ab (firewalld_init firewall_sample True) t \<and>
       timer_pc t = Ti_check \<and> updates t = 1 \<and> helper t = helper s' \<and> timer_abstime t = timer_abstime s')"
    by (rule firewall_blocks_table [OF _ _ _ r, where i = pg_instance and conn = Main_conn])
      (auto simp: firewall_sample_def pg_two_world_def fresh_helper_def conf_ab_def pg_instance_def db_instance.defs
        db_instance_base_def db_options_isset_def pg_choose_conn_def pg_two_rows_def)
  then show ?thesis by (auto simp: conf_ab_def)
qed

text \<open>The other two drivers.\<close>

lemma read_by_driver:
  assumes "inst w = Some h" "\<not> db_options_isset (handle_options h) db_options_no_firewall"
    "driver_blocklist_enum_open lib (at h (w\<lparr>err := Some None\<rparr>)) = Some (en, s1)"
    "case en of None \<Rightarrow> xs = []
     | Some en \<Rightarrow> \<exists>t. collect fuel (db_blocklist_enum_next lib) (at (Some en) s1) = Some (xs, t)"
  shows "\<exists>w'. blocklist_read fuel lib w = Some (xs, w')"
  using assms by (auto simp: blocklist_read_def db_blocklist_enum_open_def split: option.splits)

text \<open>
  The same way with SQLite. The production set becomes the texts of the rows of the block list
  query up to the first one that SQLite delivers as NULL.
\<close>

theorem firewall_blocks_sqlite3:
  assumes "inst (the_db s) = Some (Db_sqlite3 i)" "\<not> db_options_isset (options i) db_options_no_firewall" "db_conn i"
    "ret (lib (calls (the_db s)) (Sqlite3_prepare_v2 Blocklist_stmt sqlite3_blocklist_stmt_query_str)) = SQLITE_OK"
    "sqlite3_cursor lib table (calls (the_db s) @ [Sqlite3_prepare_v2 Blocklist_stmt sqlite3_blocklist_stmt_query_str])"
    "\<forall>h. ret (lib h Malloc) \<noteq> 0" "length table < fuel" "session (helper s)" "name_rebuild cf \<noteq> name_prod cf"
  shows "\<exists>s'. timer_turn fuel (session_backend (kernel_library S0)) lib cf ETIMEDOUT now s = Some s' \<and>
    ipset_sets S0 (helper s') (name_prod cf) = Some (set (map the (takeWhile (\<lambda>r. r \<noteq> None) table)) - {[]}) \<and>
    timer_abstime s' = now + int (unat (check_interval cf))"
proof -
  let ?w = "at i ((the_db s)\<lparr>err := Some None\<rparr>)" and ?xs = "map the (takeWhile (\<lambda>r. r \<noteq> None) table)"
  obtain en s1 where o: "sqlite3_enum_open lib ?w = (en, s1)" by fastforce
  have "case en of None \<Rightarrow> table = []
      | Some en \<Rightarrow> table \<noteq> [] \<and> (\<exists>t. collect fuel (sqlite3_enum_next lib) \<lparr>calls = calls s1, inst = en, err = err s1\<rparr> = Some (?xs, t))"
    using sqlite3_blocklist [of ?w lib table fuel "err s1"] assms(3-7) unfolding o by (simp add: at_def)
  then have c: "case map_option Enum_sqlite3 en of None \<Rightarrow> ?xs = []
      | Some en \<Rightarrow> \<exists>t. collect fuel (db_blocklist_enum_next lib) (at (Some en) (at (Db_sqlite3 (inst s1)) s1)) = Some (?xs, t)"
    using collect_by_driver(2) [of fuel lib "at (the en) s1"] by (cases en) (auto simp: at_def)
  have "\<exists>w'. blocklist_read fuel lib (the_db s) = Some (?xs, w')"
    by (rule read_by_driver [OF assms(1) _ _ c])
      (use assms(2) o in \<open>simp_all add: driver_blocklist_enum_open_def via_def\<close>)
  then obtain w' where "blocklist_read fuel lib (the_db s) = Some (?xs, w')" by blast
  from timer_turn_blocks [OF this assms(8,9)] show ?thesis .
qed

theorem firewall_blocks_sqlite3_witness:
  "\<exists>s'. timer_turn 3 (session_backend (kernel_library blocked_one)) sqlite3_two_rows conf_ab ETIMEDOUT 1000
      (firewall_sample\<lparr>the_db := \<lparr>calls = [], inst = Some (Db_sqlite3 (sqlite3_instance\<lparr>db_conn := True\<rparr>)), err = None\<rparr>\<rparr>) = Some s' \<and>
    ipset_sets blocked_one (helper s') ''b'' = Some {''10.0.0.1'', ''10.0.0.2''} \<and> timer_abstime s' = 1300"
proof -
  let ?p = "Sqlite3_prepare_v2 Blocklist_stmt sqlite3_blocklist_stmt_query_str"
  let ?i = "sqlite3_instance\<lparr>db_conn := True\<rparr>" and ?t = "[Some ''10.0.0.1'', Some ''10.0.0.2'']"
  let ?s = "firewall_sample\<lparr>the_db := \<lparr>calls = [], inst = Some (Db_sqlite3 ?i), err = None\<rparr>\<rparr>"
  have "sqlite3_cursor sqlite3_two_rows ?t (calls (the_db ?s) @ [?p])"
    by (auto simp: sqlite3_cursor_def sqlite3_two_rows_def fetched_def Let_def)
  then have "\<exists>s'. timer_turn 3 (session_backend (kernel_library blocked_one)) sqlite3_two_rows conf_ab ETIMEDOUT 1000 ?s = Some s' \<and>
      ipset_sets blocked_one (helper s') (name_prod conf_ab) = Some (set (map the (takeWhile (\<lambda>r. r \<noteq> None) ?t)) - {[]}) \<and>
      timer_abstime s' = 1000 + int (unat (check_interval conf_ab))"
    by (intro firewall_blocks_sqlite3 [where i = ?i])
      (simp_all add: sqlite3_two_rows_def Let_def sqlite3_instance_def db_instance.defs db_instance_base_def
        db_options_isset_def firewall_sample_def fresh_helper_def conf_ab_def)
  then show ?thesis by (simp add: conf_ab_def)
qed

text \<open>
  C21: The same way with MySQL. Only the rows before the first one whose address is NULL or empty
  reach the production set: the addresses behind it are unblocked by the update.
\<close>

theorem firewall_blocks_mysql:
  assumes "inst (the_db s) = Some (Db_mysql i)" "\<not> db_options_isset (options i) db_options_no_firewall"
    "db_instance_mysql.is_connected i"
    "\<And>h c. c \<in> {Mysql_stmt_init Blocklist_stmt, Malloc} \<Longrightarrow> ret (lib h c) \<noteq> 0"
    "\<And>h c. c \<in> {Mysql_stmt_prepare Blocklist_stmt mysql_blocklist_stmt_query_str, Mysql_stmt_bind_result,
       Mysql_stmt_execute Blocklist_stmt} \<Longrightarrow> ret (lib h c) = 0"
    "mysql_cursor lib table (calls (the_db s) @ [Mysql_stmt_init Blocklist_stmt,
       Mysql_stmt_prepare Blocklist_stmt mysql_blocklist_stmt_query_str, Malloc, Mysql_stmt_bind_result,
       Mysql_stmt_execute Blocklist_stmt])"
    "length table < fuel" "session (helper s)" "name_rebuild cf \<noteq> name_prod cf"
  shows "\<exists>s'. timer_turn fuel (session_backend (kernel_library S0)) lib cf ETIMEDOUT now s = Some s' \<and>
    ipset_sets S0 (helper s') (name_prod cf) = Some (set (map the (takeWhile (\<lambda>r. r \<noteq> None) (map my_visible table))) - {[]}) \<and>
    timer_abstime s' = now + int (unat (check_interval cf))"
proof -
  let ?w = "at i ((the_db s)\<lparr>err := Some None\<rparr>)" and ?xs = "map the (takeWhile (\<lambda>r. r \<noteq> None) (map my_visible table))"
  have "db_instance_mysql.is_connected (inst ?w)" "calls ?w = calls (the_db s)" using assms(3) by (simp_all add: at_def)
  note r = mysql_blocklist [of ?w lib table fuel, OF this(1) assms(4,5) _ assms(7), unfolded this(2), OF _ _ assms(6)]
  obtain en1 s1 where o1: "mysql_enum_open lib ?w = (en1, s1)" by fastforce
  then obtain en t where o: "mysql_enum_open lib ?w = (Some en, s1)"
    and "collect fuel (mysql_enum_next lib) (at en s1) = Some (?xs, t)"
    using r [of "err s1"] by (auto simp: at_def)
  then have c: "case Some (Enum_mysql en) of None \<Rightarrow> ?xs = []
      | Some en \<Rightarrow> \<exists>t. collect fuel (db_blocklist_enum_next lib) (at (Some en) (at (Db_mysql (inst s1)) s1)) = Some (?xs, t)"
    using collect_by_driver(3) [of fuel lib "at en s1"] by simp
  have "\<exists>w'. blocklist_read fuel lib (the_db s) = Some (?xs, w')"
    by (rule read_by_driver [OF assms(1) _ _ c])
      (use assms(2) o in \<open>simp_all add: driver_blocklist_enum_open_def via_def\<close>)
  then obtain w' where "blocklist_read fuel lib (the_db s) = Some (?xs, w')" by blast
  from timer_turn_blocks [OF this assms(8,9)] show ?thesis .
qed

theorem firewall_blocks_mysql_witness:
  "\<exists>s'. timer_turn 4 (session_backend (kernel_library blocked_one)) mysql_null_row conf_ab ETIMEDOUT 1000
      (firewall_sample\<lparr>the_db := \<lparr>calls = [], inst = Some (Db_mysql mysql_connected_instance), err = None\<rparr>\<rparr>) = Some s' \<and>
    ipset_sets blocked_one (helper s') ''b'' = Some {''10.0.0.1''}"
proof -
  let ?t = "[Some ''10.0.0.1'', None, Some ''10.0.0.3'']"
  let ?s = "firewall_sample\<lparr>the_db := \<lparr>calls = [], inst = Some (Db_mysql mysql_connected_instance), err = None\<rparr>\<rparr>"
  have "\<exists>s'. timer_turn 4 (session_backend (kernel_library blocked_one)) mysql_null_row conf_ab ETIMEDOUT 1000 ?s = Some s' \<and>
      ipset_sets blocked_one (helper s') (name_prod conf_ab) =
        Some (set (map the (takeWhile (\<lambda>r. r \<noteq> None) (map my_visible ?t))) - {[]}) \<and>
      timer_abstime s' = 1000 + int (unat (check_interval conf_ab))"
  proof (rule firewall_blocks_mysql)
    show "mysql_cursor mysql_null_row ?t (calls (the_db ?s) @ [Mysql_stmt_init Blocklist_stmt,
       Mysql_stmt_prepare Blocklist_stmt mysql_blocklist_stmt_query_str, Malloc, Mysql_stmt_bind_result,
       Mysql_stmt_execute Blocklist_stmt])"
      by (auto simp: mysql_cursor_def mysql_null_row_def my_fetched_def Let_def)
    show "inst (the_db ?s) = Some (Db_mysql mysql_connected_instance)" by simp
  qed (auto simp: mysql_null_row_def mysql_connected_instance_def db_instance.defs Let_def db_instance_base_def
      db_options_isset_def firewall_sample_def fresh_helper_def conf_ab_def)
  then show ?thesis by (auto simp: my_visible_def conf_ab_def)
qed

text \<open>
  C6: the same way on a notification. A turn of PostgreSQL's notification thread that dispatches
  hands the daemon's callback an enumerator that makes the production set exactly the addresses
  of the table; the timer starts anew and its thread is woken once.
\<close>

theorem notification_blocks_table:
  assumes "pg_async_turn lib t w = ([en], w')" "\<not> db_options_isset (options (inst w)) db_options_no_firewall"
    "pg_choose_conn True (inst w) = Some conn" "pg_result lib table" "\<forall>h. ret (lib h Malloc) \<noteq> 0"
    "\<forall>h. ret (lib h (PQexec conn (pg_blocklist_stmt_query (firewall_schema (inst w))))) = PGRES_TUPLES_OK"
    "length table < fuel" "session (helper s)" "name_rebuild cf \<noteq> name_prod cf"
    "inst e = map_option Enum_postgresql en"
  shows "\<exists>e' s'. firewall_notify fuel (session_backend (kernel_library S0)) lib cf 0 now e s = Some (e', s') \<and>
    ipset_sets S0 (helper s') (name_prod cf) = Some (set table - {[]}) \<and>
    timer_abstime s' = now + int (unat (check_interval cf)) \<and> timer_broadcasts s' = timer_broadcasts s + 1"
proof -
  obtain s1 where o: "pg_enum_open lib True w = (en, s1)"
    using assms(1,2) by (auto simp: pg_async_turn_def split: if_splits prod.splits)
  have en: "en = (if table = [] then None else Some \<lparr>pg_i = 0, pg_i_max = length table\<rparr>)"
    using o assms(3-6) by (auto simp: pg_enum_open_def lib_call_def pg_result_def)
  have "\<exists>e'. notify_read fuel lib e = Some (table, e')"
  proof (cases "table = []")
    case False
    let ?e = "at \<lparr>pg_i = 0, pg_i_max = length table\<rparr> e"
    have e: "e = at (Some (Enum_postgresql \<lparr>pg_i = 0, pg_i_max = length table\<rparr>)) e"
      using assms(10) en False by (simp add: at_def)
    obtain u where "collect fuel (pg_enum_next lib) ?e = Some (table, u)"
      using pg_collect_table [OF assms(4,7)] by blast
    then have "collect fuel (db_blocklist_enum_next lib) (at (Some (Enum_postgresql \<lparr>pg_i = 0, pg_i_max = length table\<rparr>)) e) =
        Some (table, at (Some (Enum_postgresql (inst u))) u)"
      by (simp add: collect_pg)
    then show ?thesis using e assms(10) en False by (simp add: notify_read_def)
  qed (use assms(10) en in \<open>simp add: notify_read_def\<close>)
  then obtain e' where r: "notify_read fuel lib e = Some (table, e')" by blast
  obtain h' where h': "firewall_rebuild (session_backend (kernel_library S0)) cf table (helper s) =
      Some (Some (filter (\<lambda>x. x \<noteq> []) table, 0), h')"
    "ipset_sets S0 h' (name_prod cf) = Some (set table - {[]})"
    using kernel_rebuild [OF assms(8,9)] by blast
  from firewall_notify_rebuild [OF r, of "session_backend (kernel_library S0)" cf 0 now s] h' show ?thesis
    by (simp add: reset_timer_def)
qed

definition pg_two_async :: db_library where
  "pg_two_async h c = (case c of PQexec conn q \<Rightarrow> \<lparr>ret = PGRES_TUPLES_OK, str = None\<rparr> | _ \<Rightarrow> pg_two_rows h c)"

theorem notification_blocks_table_witness:
  "\<exists>en w' e' s'. pg_async_turn pg_two_async \<lparr>running = True, poll_rc = 1, consumed = True, n_notify = 1\<rparr>
      \<lparr>calls = [], inst = pg_instance\<lparr>pg_conn_async := True\<rparr>, err = None\<rparr> = ([en], w') \<and>
    firewall_notify 3 (session_backend (kernel_library blocked_one)) pg_two_async conf_ab 0 1000
      \<lparr>calls = [], inst = map_option Enum_postgresql en, err = None\<rparr> firewall_sample = Some (e', s') \<and>
    ipset_sets blocked_one (helper s') ''b'' = Some {''10.0.0.1'', ''10.0.0.2''} \<and> timer_abstime s' = 1300"
proof -
  let ?w = "\<lparr>calls = [], inst = pg_instance\<lparr>pg_conn_async := True\<rparr>, err = None\<rparr>"
  let ?t = "\<lparr>running = True, poll_rc = 1, consumed = True, n_notify = 1\<rparr>"
  have opts: "\<not> db_options_isset (options (inst ?w)) db_options_no_firewall"
    by (simp add: pg_instance_def db_instance.defs db_instance_base_def db_options_isset_def)
  obtain en s1 where "pg_enum_open pg_two_async True ?w = (en, s1)" by fastforce
  with opts obtain w' where t: "pg_async_turn pg_two_async ?t ?w = ([en], w')"
    by (auto simp: pg_async_turn_def)
  have c: "pg_choose_conn True (inst ?w) = Some Async_conn" by (simp add: pg_choose_conn_def)
  have r: "pg_result pg_two_async [''10.0.0.1'', ''10.0.0.2'']"
    by (simp add: pg_result_def pg_two_async_def pg_two_rows_def)
  have h: "session (helper firewall_sample)" "name_rebuild conf_ab \<noteq> name_prod conf_ab"
    by (simp_all add: firewall_sample_def fresh_helper_def conf_ab_def)
  from notification_blocks_table [OF t opts c r _ _ _ h,
      where fuel = 3 and e = "\<lparr>calls = [], inst = map_option Enum_postgresql en, err = None\<rparr>" and now = 1000]
  obtain e' s' where "firewall_notify 3 (session_backend (kernel_library blocked_one)) pg_two_async conf_ab 0 1000
      \<lparr>calls = [], inst = map_option Enum_postgresql en, err = None\<rparr> firewall_sample = Some (e', s')"
    "ipset_sets blocked_one (helper s') (name_prod conf_ab) = Some (set [''10.0.0.1'', ''10.0.0.2''] - {[]})"
    "timer_abstime s' = 1000 + int (unat (check_interval conf_ab))"
    by (simp add: pg_two_async_def pg_two_rows_def) blast
  with t show ?thesis by (intro exI [of _ en] exI [of _ w'] exI [of _ e'] exI [of _ s']) (simp add: conf_ab_def)
qed

section \<open>The firewall daemon from its command line to its end\<close>

lemma fresh_session:
  assumes "fst (session_init lib types_loaded alloc_ok) = Some h"
  shows "session h" "ipset_world S0 h = (no_data, S0)"
  using assms by (auto simp: session_init_def ipset_world_def Let_def split: if_splits)



section \<open>From the login to the queue\<close>

text \<open>
  The whole way from a login to the event daemon. What the callback builds from its
  environment, sent as its 128 bytes, is taken over unchanged by the daemon, exactly when the
  user name is shorter than its field; a longer name loses the event.
\<close>

theorem login_event_received:
  assumes "callback_record env now ppid = Inr d" "cstr_env env"
    "now \<noteq> []" "nul \<notin> set now" "length now < sizeof_log_date"
  shows "event_received (log_data_bytes d) = (if length (callback_uid env) < sizeof_uid then Some d else None)"
  using callback_record_valid [OF assms] log_data_bytes_length [of d] by (simp add: event_received_def)

theorem login_event_received_witness:
  "\<exists>d. callback_record (ssh_login (replicate 60 CHR ''a'') 50022) ''2024-05-01 10:00:00'' 4242 = Inr d \<and>
    event_received (log_data_bytes d) = None"
proof -
  obtain d where d: "callback_record (ssh_login (replicate 60 CHR ''a'') 50022) ''2024-05-01 10:00:00'' 4242 = Inr d"
    using callback_record_valid_sample by blast
  have "callback_uid (ssh_login (replicate 60 CHR ''a'') 50022) = replicate 60 CHR ''a''"
    by (simp add: callback_uid_def ssh_login_def given_def)
  then show ?thesis
    using login_event_received [OF d] d
    by (auto simp: cstr_env_def ssh_login_def)
qed

section \<open>The event daemon from its command line to the database\<close>

text \<open>
  C2: Every run of the event daemon, from its command line on, in every interleaving of its threads,
  against any database, any clients and any outcome of the system calls. When the configuration
  asks for a first pool and a growth of at least one record, then every event that was accepted was
  complete and valid; each is in exactly one place, in the order of arrival: given to the database,
  in the hands of the database thread, or in the queue; the queue keeps within the configured
  limit; the rows in the database are rows of accepted events, in order and at most one per
  event, with every acknowledged event among them; and no thread accesses memory
  it must not, except when a growing queue is moved while the database thread waits on it.
\<close>

theorem pamd_run_accounts:
  assumes "pamd_program v dflt b m1 m2 stat_rc unlink_rc somaxconn files argv c0 = Went_on st (Started c h lq)"
    "log_pool_records_min c \<noteq> 0" "log_pool_records_delta c \<noteq> 0"
    "threads_reachable lib (pamd_threads_init (pamd_init h lq)) t"
  shows "let s = shared t in
    accepted s = map fst (logged s) @ pending s @ lq_abs (queue s) \<and>
    list_all (\<lambda>d. log_data_is_valid (Some d)) (accepted s) \<and>
    length (lq_abs (queue s)) \<le> (if log_pool_records_max c = 0 then 2 ^ 32 - 1 else unat (log_pool_records_max c)) \<and>
    (\<exists>sent. db_rows (inst (db s)) (calls (db s)) = map (db_row (Some h)) sent \<and>
       subseq sent (accepted s) \<and> subseq (map fst (filter snd (logged s))) sent) \<and>
    db_thread_step lib s \<noteq> Crash \<and>
    (event_thread_step env s = Crash \<longrightarrow> realloc_moves env \<and> in_cond_wait (db_pc s))"
proof -
  have run: "pamd_reachable lib (pamd_init h lq) (shared t)" using reachable_shared [OF assms(4)] by simp
  note lq = pamd_started_queue [OF assms(1-3)]
  note facts = pamd_events_accounted [OF run lq(1,2), of env] pamd_stores_in_order [OF run lq(1,2)]
  show ?thesis using facts unfolding lq(4) Let_def by blast
qed

theorem pamd_run_accounts_witness:
  "\<exists>st c lq. pamd_program version_sample ''f.yml'' build_plain True True (- 1) 0 128
      (\<lambda>_. Document firewalld_doc (Some firewalld_root)) [''iptracking-pamd'', ''-b'', ''7''] (pamd_config_default ''s'') =
      Went_on st (Started c pamd_sample_db lq) \<and>
    length (lq_abs (queue (pamd_init pamd_sample_db lq))) \<le> 2 ^ 32 - 1 \<and>
    db_thread_step pg_all_ok (pamd_init pamd_sample_db lq) \<noteq> Crash"
proof -
  obtain st c lq where p: "pamd_program version_sample ''f.yml'' build_plain True True (- 1) 0 128
      (\<lambda>_. Document firewalld_doc (Some firewalld_root)) [''iptracking-pamd'', ''-b'', ''7''] (pamd_config_default ''s'') =
      Went_on st (Started c pamd_sample_db lq)"
    "log_pool_records_min c \<noteq> 0" "log_pool_records_delta c \<noteq> 0" "log_pool_records_max c = 0"
    by (rule pamd_plain_program)
  from pamd_run_accounts [OF p(1-3) rtranclp.rtrancl_refl, of pg_all_ok] p(1,4) show ?thesis
    by (intro exI [of _ st] exI [of _ c] exI [of _ lq]) (simp add: Let_def)
qed

end
